(* ===== verification/Prelude.thy ===== *)
theory Prelude
  imports Main "HOL-Library.Word"
begin

text \<open>
  Shared vocabulary of the development.

  \<^item> Rust's unsigned integers are words of their width, a byte is \<open>u8\<close>;
    Rust's \<open>String\<close> is the list of its UTF-8 bytes, each one a \<open>char\<close>.
  \<^item> \<open>outcome\<close> separates a computation that returns from one that panics (an
    index out of range, an arithmetic overflow, an \<open>unwrap\<close> of nothing, a failed
    \<open>assert!\<close>); a Rust \<open>Result\<close> inside an outcome is a sum with the error on the left.
  \<^item> \<open>split_on\<close> and \<open>join_with\<close> are \<open>str::split\<close> on one character and \<open>join\<close>;
    their laws are shared by the permission order, the object identifiers and
    the line based protocols.
  \<^item> the collections \<open>outcome_simps\<close> and \<open>split_simps\<close> gather the rewrite rules the
    component theories pass to the simplifier.
\<close>

named_theorems outcome_simps
named_theorems split_simps

unbundle bit_operations_syntax

type_synonym u8 = "8 word"
type_synonym u16 = "16 word"
type_synonym u32 = "32 word"
type_synonym u64 = "64 word"
type_synonym u128 = "128 word"

subsection \<open>Panics\<close>

datatype 'a outcome = Value 'a | Panic

fun bind_outcome :: "'a outcome \<Rightarrow> ('a \<Rightarrow> 'b outcome) \<Rightarrow> 'b outcome" where
  "bind_outcome (Value x) f = f x"
| "bind_outcome Panic f = Panic"

text \<open>Reading and writing a slice by index: out of range the code panics.\<close>

definition index_get :: "'a list \<Rightarrow> nat \<Rightarrow> 'a outcome" where
  "index_get xs i = (if i < length xs then Value (xs ! i) else Panic)"

definition index_set :: "'a list \<Rightarrow> nat \<Rightarrow> 'a \<Rightarrow> 'a list outcome" where
  "index_set xs i v = (if i < length xs then Value (xs[i := v]) else Panic)"

text \<open>The slice \<open>&xs[a..b]\<close>: the bounds must be ordered and in range.\<close>

definition slice :: "'a list \<Rightarrow> nat \<Rightarrow> nat \<Rightarrow> 'a list outcome" where
  "slice xs a b = (if a \<le> b \<and> b \<le> length xs then Value (drop a (take b xs)) else Panic)"

text \<open>
  The slice \<open>&s[a..b]\<close> of a string: both ends must lie on a character boundary,
  that is, not before a UTF-8 continuation byte.
\<close>

definition is_char_boundary :: "string \<Rightarrow> nat \<Rightarrow> bool" where
  "is_char_boundary s i \<longleftrightarrow> i = 0 \<or> i = length s \<or>
     (i < length s \<and> ((of_char (s ! i) :: nat) < 128 \<or> (of_char (s ! i) :: nat) \<ge> 192))"

definition str_slice :: "string \<Rightarrow> nat \<Rightarrow> nat \<Rightarrow> string outcome" where
  "str_slice s a b =
     (if is_char_boundary s a \<and> is_char_boundary s b then slice s a b else Panic)"

text \<open>\<open>str::from_utf8\<close>: the well formed byte sequences of UTF-8.\<close>

fun utf8_codes :: "nat list \<Rightarrow> bool" where
  "utf8_codes [] \<longleftrightarrow> True"
| "utf8_codes (a # r) \<longleftrightarrow>
     (if a < 0x80 then utf8_codes r
      else case r of
        [] \<Rightarrow> False
      | b # r2 \<Rightarrow>
          if 0xc2 \<le> a \<and> a \<le> 0xdf then 0x80 \<le> b \<and> b \<le> 0xbf \<and> utf8_codes r2
          else (case r2 of
            [] \<Rightarrow> False
          | c # r3 \<Rightarrow>
              if 0xe0 \<le> a \<and> a \<le> 0xef then
                (if a = 0xe0 then 0xa0 else 0x80) \<le> b \<and> b \<le> (if a = 0xed then 0x9f else 0xbf) \<and>
                0x80 \<le> c \<and> c \<le> 0xbf \<and> utf8_codes r3
              else (case r3 of
                [] \<Rightarrow> False
              | d # r4 \<Rightarrow>
                  0xf0 \<le> a \<and> a \<le> 0xf4 \<and>
                  (if a = 0xf0 then 0x90 else 0x80) \<le> b \<and> b \<le> (if a = 0xf4 then 0x8f else 0xbf) \<and>
                  0x80 \<le> c \<and> c \<le> 0xbf \<and> 0x80 \<le> d \<and> d \<le> 0xbf \<and> utf8_codes r4)))"

definition from_utf8_ok :: "string \<Rightarrow> bool" where
  "from_utf8_ok s \<longleftrightarrow> utf8_codes (map of_char s)"

subsection \<open>Splitting and joining\<close>

fun split_on :: "'a \<Rightarrow> 'a list \<Rightarrow> 'a list list" where
  "split_on s [] = [[]]"
| "split_on s (c # cs) =
     (if c = s then [] # split_on s cs
      else case split_on s cs of [] \<Rightarrow> [[c]] | p # ps \<Rightarrow> (c # p) # ps)"

fun join_with :: "'a \<Rightarrow> 'a list list \<Rightarrow> 'a list" where
  "join_with s [] = []"
| "join_with s [p] = p"
| "join_with s (p # q # ps) = p @ s # join_with s (q # ps)"

text \<open>\<open>str::split_terminator\<close>: as \<open>split\<close>, but a trailing empty part is dropped.\<close>

definition split_terminator :: "'a \<Rightarrow> 'a list \<Rightarrow> 'a list list" where
  "split_terminator s xs =
     (let ps = split_on s xs in if last ps = [] then butlast ps else ps)"

subsection \<open>Results\<close>

text \<open>\<open>Result::ok\<close> and the question mark operator on a sum.\<close>

fun ok_of :: "'e + 'a \<Rightarrow> 'a option" where
  "ok_of (Inr x) = Some x"
| "ok_of (Inl e) = None"

fun bind_result :: "'e + 'a \<Rightarrow> ('a \<Rightarrow> 'e + 'b) \<Rightarrow> 'e + 'b" where
  "bind_result (Inr x) f = f x"
| "bind_result (Inl e) f = Inl e"

subsection \<open>Decimal numbers\<close>

text \<open>\<open>to_string\<close> of an unsigned integer.\<close>

fun show_nat :: "nat \<Rightarrow> string" where
  "show_nat n = (if n < 10 then [char_of (48 + n)] else show_nat (n div 10) @ [char_of (48 + n mod 10)])"

text \<open>
  \<open>str::parse\<close> of an unsigned integer type with the given maximum: one leading plus
  sign is skipped, every digit is added with overflow checks, and neither the
  empty string nor a sign alone is a number.
\<close>

fun parse_digits :: "nat \<Rightarrow> nat \<Rightarrow> string \<Rightarrow> nat option" where
  "parse_digits mx acc [] = Some acc"
| "parse_digits mx acc (c # cs) =
     (let d = of_char c in
      if 48 \<le> d \<and> d \<le> 57 \<and> acc * 10 + (d - 48) \<le> mx
      then parse_digits mx (acc * 10 + (d - 48)) cs else None)"

definition parse_uint :: "nat \<Rightarrow> string \<Rightarrow> nat option" where
  "parse_uint mx s =
     (case s of [] \<Rightarrow> None
      | c # cs \<Rightarrow> if c = CHR ''+'' then (if cs = [] then None else parse_digits mx 0 cs)
                else parse_digits mx 0 s)"

subsection \<open>Lemmas on outcomes\<close>

lemma bind_outcome_Value_iff [outcome_simps]:
  "bind_outcome m f = Value y \<longleftrightarrow> (\<exists>x. m = Value x \<and> f x = Value y)"
  by (cases m) auto

lemma bind_outcome_assoc [outcome_simps]:
  "bind_outcome (bind_outcome m f) g = bind_outcome m (\<lambda>x. bind_outcome (f x) g)"
  by (cases m) auto

lemma case_sum_Value_Inr_iff [outcome_simps]:
  "(case r of Inl e \<Rightarrow> Value (Inl (g e)) | Inr x \<Rightarrow> f x) = Value (Inr y) \<longleftrightarrow>
     (\<exists>x. r = Inr x \<and> f x = Value (Inr y))"
  by (cases r) auto

lemma case_sum_Panic_iff [outcome_simps]:
  "(case r of Inl e \<Rightarrow> Panic | Inr x \<Rightarrow> f x) = Value y \<longleftrightarrow> (\<exists>x. r = Inr x \<and> f x = Value y)"
  by (cases r) auto

lemma case_option_Panic_iff [outcome_simps]:
  "(case r of None \<Rightarrow> Panic | Some x \<Rightarrow> f x) = Value y \<longleftrightarrow> (\<exists>x. r = Some x \<and> f x = Value y)"
  by (cases r) auto

lemma index_get_in [simp]:
  "i < length xs \<Longrightarrow> index_get xs i = Value (xs ! i)"
  by (simp add: index_get_def)

lemma index_set_in [simp]:
  "i < length xs \<Longrightarrow> index_set xs i v = Value (xs[i := v])"
  by (simp add: index_set_def)

lemma slice_in [outcome_simps]:
  "\<lbrakk>a \<le> b; b \<le> length xs\<rbrakk> \<Longrightarrow> slice xs a b = Value (drop a (take b xs))"
  by (simp add: slice_def)

lemma bind_result_Inr_iff [outcome_simps]:
  "bind_result m f = Inr y \<longleftrightarrow> (\<exists>x. m = Inr x \<and> f x = Inr y)"
  by (cases m) auto

subsection \<open>Lemmas on splitting\<close>

lemma split_on_not_Nil [simp]: "split_on s xs \<noteq> []"
  by (induction xs) (auto split: list.splits)

lemma split_on_no_sep [split_simps]: "s \<notin> set xs \<Longrightarrow> split_on s xs = [xs]"
  by (induction xs) auto

lemma split_on_parts_no_sep: "p \<in> set (split_on s xs) \<Longrightarrow> s \<notin> set p"
  by (induction xs arbitrary: p) (auto split: list.splits if_splits)

lemma split_on_append_sep [split_simps]:
  "split_on s (xs @ s # ys) = split_on s xs @ split_on s ys"
  by (induction xs) (auto split: list.splits)

lemma join_with_Cons [split_simps]:
  "ps \<noteq> [] \<Longrightarrow> join_with s (p # ps) = p @ s # join_with s ps"
  by (cases ps) auto

lemma join_with_append [split_simps]:
  "\<lbrakk>ps \<noteq> []; qs \<noteq> []\<rbrakk> \<Longrightarrow> join_with s (ps @ qs) = join_with s ps @ s # join_with s qs"
  by (induction s ps rule: join_with.induct) (auto simp: join_with_Cons)

lemma join_with_Cons_head: "join_with s ((c # p) # ps) = c # join_with s (p # ps)"
  by (cases ps) auto

lemma join_split [simp]: "join_with s (split_on s xs) = xs"
proof (induction xs)
  case (Cons c cs)
  show ?case
  proof (cases "c = s")
    case True
    then show ?thesis using Cons.IH by (simp add: join_with_Cons)
  next
    case False
    obtain p ps where "split_on s cs = p # ps" by (cases "split_on s cs") auto
    then show ?thesis using False Cons.IH by (simp add: join_with_Cons_head)
  qed
qed simp

lemma split_join:
  "\<lbrakk>ps \<noteq> []; \<forall>p\<in>set ps. s \<notin> set p\<rbrakk> \<Longrightarrow> split_on s (join_with s ps) = ps"
  by (induction s ps rule: join_with.induct) (simp_all add: split_simps)

lemma split_on_inj: "split_on s xs = split_on s ys \<longleftrightarrow> xs = ys"
  by (metis join_split)

text \<open>One string extends another by whole parts exactly when a separator stands between them.\<close>

lemma split_on_prefix_iff:
  "(\<exists>ts. ts \<noteq> [] \<and> split_on s ys = split_on s xs @ ts) \<longleftrightarrow> (\<exists>zs. ys = xs @ s # zs)"
proof
  assume "\<exists>ts. ts \<noteq> [] \<and> split_on s ys = split_on s xs @ ts"
  then obtain ts where ts: "ts \<noteq> []" "split_on s ys = split_on s xs @ ts" by blast
  have "ys = join_with s (split_on s xs @ ts)" using ts(2) by (metis join_split)
  also have "\<dots> = xs @ s # join_with s ts" using ts(1) by (simp add: join_with_append)
  finally show "\<exists>zs. ys = xs @ s # zs" by blast
next
  assume "\<exists>zs. ys = xs @ s # zs"
  then obtain zs where "ys = xs @ s # zs" by blast
  then show "\<exists>ts. ts \<noteq> [] \<and> split_on s ys = split_on s xs @ ts"
    by (auto simp: split_on_append_sep)
qed

subsection \<open>Lemmas on decimal numbers\<close>

declare show_nat.simps [simp del]

lemma digit_chars [simp]:
  "char_of (48 :: nat) = CHR ''0''"
  "char_of (49 :: nat) = CHR ''1''"
  "char_of (50 :: nat) = CHR ''2''"
  "char_of (51 :: nat) = CHR ''3''"
  "char_of (52 :: nat) = CHR ''4''"
  "char_of (53 :: nat) = CHR ''5''"
  "char_of (54 :: nat) = CHR ''6''"
  "char_of (55 :: nat) = CHR ''7''"
  "char_of (56 :: nat) = CHR ''8''"
  "char_of (57 :: nat) = CHR ''9''"
  by (simp_all add: char_of_def bit_0)

lemma parse_digits_append:
  "parse_digits mx acc (xs @ ys) = Option.bind (parse_digits mx acc xs) (\<lambda>b. parse_digits mx b ys)"
  by (induction mx acc xs rule: parse_digits.induct) (auto simp: Let_def)

lemma digit_of_char: "d < 10 \<Longrightarrow> of_char (char_of (48 + d)) = 48 + (d :: nat)"
  by simp

lemma parse_digits_show: "n \<le> mx \<Longrightarrow> parse_digits mx 0 (show_nat n) = Some n"
proof (induction n rule: show_nat.induct)
  case (1 n)
  have "n mod 10 < 10" by simp
  show ?case
  proof (cases "n < 10")
    case False
    then have "parse_digits mx 0 (show_nat (n div 10)) = Some (n div 10)" using 1 by simp
    with False 1(2) digit_of_char [OF \<open>n mod 10 < 10\<close>] show ?thesis
      by (simp add: show_nat.simps [of n] parse_digits_append Let_def)
  qed (use 1 digit_of_char [of n] in \<open>simp add: show_nat.simps [of n] Let_def\<close>)
qed

lemma show_nat_digits: "c \<in> set (show_nat n) \<Longrightarrow> 48 \<le> (of_char c :: nat) \<and> (of_char c :: nat) \<le> 57"
proof (induction n rule: show_nat.induct)
  case (1 n)
  have "n mod 10 < 10" by simp
  with 1 digit_of_char [OF this] digit_of_char [of n] show ?case
    by (subst (asm) show_nat.simps) (auto split: if_splits)
qed

lemma show_nat_no_dot [simp]: "CHR ''.'' \<notin> set (show_nat n)"
  using show_nat_digits [of "CHR ''.''" n] by auto

lemma show_nat_not_Nil [simp]: "show_nat n \<noteq> []"
  by (subst show_nat.simps) simp

lemma parse_uint_show: "n \<le> mx \<Longrightarrow> parse_uint mx (show_nat n) = Some n"
proof -
  assume n: "n \<le> mx"
  obtain c cs where s: "show_nat n = c # cs" by (cases "show_nat n") auto
  then have "c \<noteq> CHR ''+''" using show_nat_digits [of c n] by auto
  then show ?thesis using parse_digits_show [OF n] s by (simp add: parse_uint_def)
qed

lemma show_nat_inj: "show_nat m = show_nat n \<Longrightarrow> m = n"
  by (metis max.cobounded1 max.cobounded2 option.inject parse_uint_show)

lemma parse_digits_le: "\<lbrakk>parse_digits mx acc s = Some n; acc \<le> mx\<rbrakk> \<Longrightarrow> n \<le> mx"
  by (induction mx acc s rule: parse_digits.induct) (auto simp: Let_def split: if_splits)

lemma parse_uint_le: "parse_uint mx s = Some n \<Longrightarrow> n \<le> mx"
  by (auto simp: parse_uint_def simp del: parse_digits.simps(2) split: list.splits if_splits
        dest!: parse_digits_le)

subsection \<open>Sequences of steps\<close>

text \<open>Several components are run step by step, each step with its own input; what every step keeps, every run keeps.\<close>

locale stepwise =
  fixes step :: "'x \<Rightarrow> 's \<Rightarrow> 's outcome" and run :: "'x list \<Rightarrow> 's \<Rightarrow> 's outcome"
  assumes run_Nil: "run [] s = Value s"
    and run_Cons: "run (x # xs) s = bind_outcome (step x s) (run xs)"
begin

lemma run_keeps:
  assumes "\<And>x s s'. I s \<Longrightarrow> step x s = Value s' \<Longrightarrow> I s'" "I s" "run xs s = Value s'"
  shows "I s'"
  using assms(2,3)
proof (induction xs arbitrary: s)
  case (Cons x xs)
  then show ?case using assms(1) by (auto simp: run_Cons bind_outcome_Value_iff)
qed (simp add: run_Nil)

lemma run_append: "run (xs @ ys) s = bind_outcome (run xs s) (run ys)"
proof (induction xs arbitrary: s)
  case (Cons x xs)
  then show ?case by (cases "step x s") (simp_all add: run_Cons)
qed (simp add: run_Nil)

end

end
