(* ===== verification/Db.thy ===== *)
theory Db
  imports Prelude "HOL-Library.AList"
begin

text \<open>
  \<open>bffhd/db\<close>: the raw and the typed view of LMDB that the user and the state
  databases share.  LMDB itself is foreign code: it enters as a record of
  operations over an environment and a transaction, and \<open>lmdb_ok\<close> states what its
  documentation promises of them.  Every operation may fail with any error.

  \<open>typed_db\<close> is the contract of the \<open>Adapter\<close> trait with the round trip through a
  transaction proved from it; the adapter of the code interprets it.  \<open>mem_lmdb\<close> is
  an executable store that meets \<open>lmdb_ok\<close>, for concrete runs.
\<close>

subsection \<open>The interface of LMDB\<close>

datatype lmdb_error =
  KeyExist | NotFound | PageNotFound | Corrupted | LmdbPanic | VersionMismatch | Invalid
| MapFull | DbsFull | ReadersFull | TlsFull | TxnFull | CursorFull | PageFull | MapResized
| Incompatible | BadRslot | BadTxn | BadValSize | BadDbi | Other nat

type_synonym bytes = "u8 list"

text \<open>
  A reserved buffer is its length and the transaction in which it has been
  filled with given bytes.
\<close>

record ('e, 't) lmdb =
  lm_create_db :: "'e \<Rightarrow> string \<Rightarrow> lmdb_error + 'e"
  lm_begin_ro :: "'e \<Rightarrow> lmdb_error + 't"
  lm_begin_rw :: "'e \<Rightarrow> lmdb_error + 't"
  lm_get :: "'t \<Rightarrow> string \<Rightarrow> string \<Rightarrow> lmdb_error + bytes"
  lm_reserve :: "'t \<Rightarrow> string \<Rightarrow> string \<Rightarrow> nat \<Rightarrow> lmdb_error + (nat \<times> (bytes \<Rightarrow> 't))"
  lm_del :: "'t \<Rightarrow> string \<Rightarrow> string \<Rightarrow> lmdb_error + 't"
  lm_clear :: "'t \<Rightarrow> string \<Rightarrow> lmdb_error + 't"
  lm_iter :: "'t \<Rightarrow> string \<Rightarrow> lmdb_error + (lmdb_error + (string \<times> bytes)) list"
  lm_commit :: "'e \<Rightarrow> 't \<Rightarrow> lmdb_error + 'e"

type_synonym contents = "string \<Rightarrow> string \<rightharpoonup> bytes"

definition lmdb_ok :: "('e, 't, 'z) lmdb_scheme \<Rightarrow> ('e \<Rightarrow> contents) \<Rightarrow> ('t \<Rightarrow> contents) \<Rightarrow> bool" where
  "lmdb_ok D stored seen \<longleftrightarrow>
     (\<forall>e db e'. lm_create_db D e db = Inr e' \<longrightarrow> stored e' = stored e) \<and>
     (\<forall>e t. lm_begin_ro D e = Inr t \<longrightarrow> seen t = stored e) \<and>
     (\<forall>e t. lm_begin_rw D e = Inr t \<longrightarrow> seen t = stored e) \<and>
     (\<forall>t db k v. lm_get D t db k = Inr v \<longleftrightarrow> seen t db k = Some v) \<and>
     (\<forall>t db k n m fill. lm_reserve D t db k n = Inr (m, fill) \<longrightarrow>
        m = n \<and> (\<forall>b. length b = n \<longrightarrow> seen (fill b) = (seen t)(db := (seen t db)(k \<mapsto> b)))) \<and>
     (\<forall>t db k t'. lm_del D t db k = Inr t' \<longrightarrow> seen t' = (seen t)(db := (seen t db)(k := None))) \<and>
     (\<forall>t db t'. lm_clear D t db = Inr t' \<longrightarrow> seen t' = (seen t)(db := Map.empty)) \<and>
     (\<forall>t db xs. lm_iter D t db = Inr xs \<longrightarrow> (\<forall>k v. Inr (k, v) \<in> set xs \<longleftrightarrow> seen t db k = Some v)) \<and>
     (\<forall>e t e'. lm_commit D e t = Inr e' \<longrightarrow> stored e' = seen t)"

subsection \<open>Error reports\<close>

fun db_error_code :: "lmdb_error \<Rightarrow> string" where
  "db_error_code KeyExist = ''bffh::db::raw::key_exists''"
| "db_error_code NotFound = ''bffh::db::raw::not_found''"
| "db_error_code PageNotFound = ''bffh::db::raw::page_not_found''"
| "db_error_code Corrupted = ''bffh::db::raw::corrupted''"
| "db_error_code LmdbPanic = ''bffh::db::raw::panic''"
| "db_error_code VersionMismatch = ''bffh::db::raw::version_mismatch''"
| "db_error_code Invalid = ''bffh::db::raw::invalid''"
| "db_error_code MapFull = ''bffh::db::raw::map_full''"
| "db_error_code DbsFull = ''bffh::db::raw::dbs_full''"
| "db_error_code ReadersFull = ''bffh::db::raw::readers_full''"
| "db_error_code TlsFull = ''bffh::db::raw::tls_full''"
| "db_error_code TxnFull = ''bffh::db::raw::txn_full''"
| "db_error_code CursorFull = ''bffh::db::raw::cursor_full''"
| "db_error_code PageFull = ''bffh::db::raw::page_full''"
| "db_error_code MapResized = ''bffh::db::raw::map_resized''"
| "db_error_code Incompatible = ''bffh::db::raw::incompatible''"
| "db_error_code BadRslot = ''bffh::db::raw::bad_rslot''"
| "db_error_code BadTxn = ''bffh::db::raw::bad_txn''"
| "db_error_code BadValSize = ''bffh::db::raw::bad_val_size''"
| "db_error_code BadDbi = ''bffh::db::raw::bad_dbi''"
| "db_error_code (Other n) = ''bffh::db::raw::e'' @ show_nat n"

fun db_error_help :: "lmdb_error \<Rightarrow> string option" where
  "db_error_help KeyExist = Some ''The provided key already exists in the database''"
| "db_error_help NotFound = Some ''The requested key was not found in the database''"
| "db_error_help PageNotFound =
     Some ''The requested page was not found. This usually indicates corruption.''"
| "db_error_help BadRslot = Some (''This usually indicates that the operation can't complete ''
     @ ''because an incompatible transaction is still open.'')"
| "db_error_help _ = None"

subsection \<open>The raw database\<close>

definition raw_get :: "('e, 't, 'z) lmdb_scheme \<Rightarrow> 't \<Rightarrow> string \<Rightarrow> string \<Rightarrow> lmdb_error + bytes option" where
  "raw_get D txn db key =
     (case lm_get D txn db key of
        Inr buf \<Rightarrow> Inr (Some buf)
      | Inl e \<Rightarrow> if e = NotFound then Inr None else Inl e)"

definition raw_del :: "('e, 't, 'z) lmdb_scheme \<Rightarrow> 't \<Rightarrow> string \<Rightarrow> string \<Rightarrow> lmdb_error + 't" where
  "raw_del D txn db key = lm_del D txn db key"

definition raw_clear :: "('e, 't, 'z) lmdb_scheme \<Rightarrow> 't \<Rightarrow> string \<Rightarrow> lmdb_error + 't" where
  "raw_clear D txn db = lm_clear D txn db"

definition raw_reserve ::
  "('e, 't, 'z) lmdb_scheme \<Rightarrow> 't \<Rightarrow> string \<Rightarrow> string \<Rightarrow> nat \<Rightarrow> lmdb_error + (nat \<times> (bytes \<Rightarrow> 't))" where
  "raw_reserve D txn db key len = lm_reserve D txn db key len"

definition raw_iter ::
  "('e, 't, 'z) lmdb_scheme \<Rightarrow> 't \<Rightarrow> string \<Rightarrow> lmdb_error + (lmdb_error + (string \<times> bytes)) list" where
  "raw_iter D txn db = lm_iter D txn db"

definition raw_create :: "('e, 't, 'z) lmdb_scheme \<Rightarrow> 'e \<Rightarrow> string \<Rightarrow> lmdb_error + 'e" where
  "raw_create D env db = lm_create_db D env db"

subsection \<open>The typed database\<close>

record 'v adapter =
  ad_decode :: "bytes \<Rightarrow> 'v"
  ad_encoded_len :: "'v \<Rightarrow> nat"
  ad_encode_into :: "'v \<Rightarrow> bytes \<Rightarrow> bytes outcome"

record archived_value =
  av_data :: bytes

definition archived_build :: "bytes \<Rightarrow> archived_value" where
  "archived_build data = \<lparr>av_data = data\<rparr>"

text \<open>\<open>copy_from_slice\<close> panics when the lengths differ.\<close>

definition aligned_adapter :: "archived_value adapter" where
  "aligned_adapter =
     \<lparr>ad_decode = archived_build,
      ad_encoded_len = (\<lambda>item. length (av_data item)),
      ad_encode_into = (\<lambda>item buf. if length (av_data item) = length buf then Value (av_data item) else Panic)\<rparr>"

definition db_get ::
  "('e, 't, 'z) lmdb_scheme \<Rightarrow> 'v adapter \<Rightarrow> 't \<Rightarrow> string \<Rightarrow> string \<Rightarrow> lmdb_error + 'v option" where
  "db_get D A txn db key = map_sum (\<lambda>e. e) (map_option (ad_decode A)) (raw_get D txn db key)"

definition db_put ::
  "('e, 't, 'z) lmdb_scheme \<Rightarrow> 'v adapter \<Rightarrow> 't \<Rightarrow> string \<Rightarrow> string \<Rightarrow> 'v \<Rightarrow> (lmdb_error + 't) outcome" where
  "db_put D A txn db key value =
     (let len = ad_encoded_len A value in
      case raw_reserve D txn db key len of
        Inl e \<Rightarrow> Value (Inl e)
      | Inr (buf_len, fill) \<Rightarrow>
          if buf_len \<noteq> len then Panic
          else bind_outcome (ad_encode_into A value (replicate buf_len 0)) (\<lambda>b. Value (Inr (fill b))))"

definition db_del :: "('e, 't, 'z) lmdb_scheme \<Rightarrow> 't \<Rightarrow> string \<Rightarrow> string \<Rightarrow> lmdb_error + 't" where
  "db_del D txn db key = raw_del D txn db key"

definition db_clear :: "('e, 't, 'z) lmdb_scheme \<Rightarrow> 't \<Rightarrow> string \<Rightarrow> lmdb_error + 't" where
  "db_clear D txn db = raw_clear D txn db"

text \<open>The cursor's iterator; entries that fail to read are skipped.\<close>

definition db_get_all ::
  "('e, 't, 'z) lmdb_scheme \<Rightarrow> 'v adapter \<Rightarrow> 't \<Rightarrow> string \<Rightarrow> lmdb_error + (string \<times> 'v) list" where
  "db_get_all D A txn db =
     map_sum (\<lambda>e. e)
       (\<lambda>it. List.map_filter (\<lambda>buf. map_option (\<lambda>(k, v). (k, ad_decode A v)) (ok_of buf)) it)
       (raw_iter D txn db)"

subsection \<open>The laws of LMDB, one by one\<close>

lemma lmdb_create: "\<lbrakk>lmdb_ok D stored seen; lm_create_db D e db = Inr e'\<rbrakk> \<Longrightarrow> stored e' = stored e"
  by (simp add: lmdb_ok_def)

lemma lmdb_begin_ro: "\<lbrakk>lmdb_ok D stored seen; lm_begin_ro D e = Inr t\<rbrakk> \<Longrightarrow> seen t = stored e"
  by (simp add: lmdb_ok_def)

lemma lmdb_begin_rw: "\<lbrakk>lmdb_ok D stored seen; lm_begin_rw D e = Inr t\<rbrakk> \<Longrightarrow> seen t = stored e"
  by (simp add: lmdb_ok_def)

lemma lmdb_get: "lmdb_ok D stored seen \<Longrightarrow> lm_get D t db k = Inr v \<longleftrightarrow> seen t db k = Some v"
  by (simp add: lmdb_ok_def)

lemma lmdb_reserve:
  "\<lbrakk>lmdb_ok D stored seen; lm_reserve D t db k n = Inr (m, fill)\<rbrakk> \<Longrightarrow>
     m = n \<and> (\<forall>b. length b = n \<longrightarrow> seen (fill b) = (seen t)(db := (seen t db)(k \<mapsto> b)))"
  by (simp add: lmdb_ok_def)

lemma lmdb_del:
  "\<lbrakk>lmdb_ok D stored seen; lm_del D t db k = Inr t'\<rbrakk> \<Longrightarrow> seen t' = (seen t)(db := (seen t db)(k := None))"
  by (simp add: lmdb_ok_def)

lemma lmdb_clear:
  "\<lbrakk>lmdb_ok D stored seen; lm_clear D t db = Inr t'\<rbrakk> \<Longrightarrow> seen t' = (seen t)(db := Map.empty)"
  by (simp add: lmdb_ok_def)

lemma lmdb_iter:
  "\<lbrakk>lmdb_ok D stored seen; lm_iter D t db = Inr xs\<rbrakk> \<Longrightarrow> Inr (k, v) \<in> set xs \<longleftrightarrow> seen t db k = Some v"
  by (simp add: lmdb_ok_def)

lemma lmdb_commit: "\<lbrakk>lmdb_ok D stored seen; lm_commit D e t = Inr e'\<rbrakk> \<Longrightarrow> stored e' = seen t"
  by (simp add: lmdb_ok_def)

lemma set_map_filter_ok:
  "(k, v) \<in> set (List.map_filter (\<lambda>buf. map_option (\<lambda>(k, v). (k, f v)) (ok_of buf)) ys)
     \<longleftrightarrow> (\<exists>b. Inr (k, b) \<in> set ys \<and> f b = v)"
proof (induction ys)
  case (Cons y ys)
  then show ?case by (cases y) auto
qed simp

subsection \<open>The contract of an adapter\<close>

locale typed_db =
  fixes A :: "'v adapter"
  assumes encode_fills:
    "length buf = ad_encoded_len A v \<Longrightarrow>
       \<exists>b. ad_encode_into A v buf = Value b \<and> length b = length buf \<and> ad_decode A b = v"
begin

lemma db_put_returns:
  assumes "lmdb_ok D stored seen"
  shows "db_put D A t db k v \<noteq> Panic"
proof (cases "lm_reserve D t db k (ad_encoded_len A v)")
  case (Inr r)
  obtain m fill where r: "r = (m, fill)" by (cases r)
  with Inr have "m = ad_encoded_len A v" using lmdb_reserve [OF assms] by blast
  then show ?thesis using Inr r encode_fills [of "replicate m 0" v]
    by (auto simp: db_put_def raw_reserve_def Let_def)
qed (simp add: db_put_def raw_reserve_def Let_def)

lemma db_put_seen:
  assumes "lmdb_ok D stored seen" "db_put D A t db k v = Value (Inr t')"
  shows "\<exists>b. ad_decode A b = v \<and> seen t' = (seen t)(db := (seen t db)(k \<mapsto> b))"
proof -
  obtain m fill b where r: "lm_reserve D t db k (ad_encoded_len A v) = Inr (m, fill)"
    and m: "m = ad_encoded_len A v" and b: "ad_encode_into A v (replicate m 0) = Value b" "t' = fill b"
    using assms(2)
    by (auto simp: db_put_def raw_reserve_def Let_def outcome_simps split: sum.splits if_splits)
  obtain b' where "ad_encode_into A v (replicate m 0) = Value b'" "length b' = m" "ad_decode A b' = v"
    using encode_fills [of "replicate m 0" v] m by auto
  with b have "length b = ad_encoded_len A v" "ad_decode A b = v" using m by auto
  with lmdb_reserve [OF assms(1) r] b show ?thesis by blast
qed

lemma db_get_seen:
  assumes "lmdb_ok D stored seen"
  shows "db_get D A t db k = Inr (Some v) \<longleftrightarrow> (\<exists>b. seen t db k = Some b \<and> ad_decode A b = v)"
proof (cases "lm_get D t db k")
  case (Inl e)
  then have "seen t db k = None" using lmdb_get [OF assms] by (metis Inl_Inr_False option.exhaust)
  with Inl show ?thesis by (simp add: db_get_def raw_get_def)
next
  case (Inr b)
  then have "seen t db k = Some b" using lmdb_get [OF assms] by blast
  with Inr show ?thesis by (simp add: db_get_def raw_get_def)
qed

lemma db_get_put:
  assumes "lmdb_ok D stored seen" "db_put D A t db k v = Value (Inr t')"
  shows "db_get D A t' db k = Inr (Some v)"
    and "db' \<noteq> db \<or> k' \<noteq> k \<Longrightarrow> db_get D A t' db' k' = Inr (Some w) \<longleftrightarrow> db_get D A t db' k' = Inr (Some w)"
  using db_put_seen [OF assms] by (auto simp: db_get_seen [OF assms(1)] split: if_splits)

lemma db_get_all_seen:
  assumes "lmdb_ok D stored seen" "db_get_all D A t db = Inr xs"
  shows "(k, v) \<in> set xs \<longleftrightarrow> (\<exists>b. seen t db k = Some b \<and> ad_decode A b = v)"
proof -
  obtain ys where ys: "lm_iter D t db = Inr ys"
    and xs: "xs = List.map_filter (\<lambda>buf. map_option (\<lambda>(k, v). (k, ad_decode A v)) (ok_of buf)) ys"
    using assms(2) by (cases "lm_iter D t db") (simp_all add: db_get_all_def raw_iter_def)
  have "(k, v) \<in> set xs \<longleftrightarrow> (\<exists>b. Inr (k, b) \<in> set ys \<and> ad_decode A b = v)"
    unfolding xs by (rule set_map_filter_ok)
  then show ?thesis using lmdb_iter [OF assms(1) ys] by blast
qed

end

interpretation aligned: typed_db aligned_adapter
  by unfold_locales (simp add: aligned_adapter_def archived_build_def)

subsection \<open>A store in memory\<close>

text \<open>
  An environment is the list of its databases, each one an association list.
  Keys have 1 to 511 bytes, as in LMDB.
\<close>

type_synonym mem_env = "(string \<times> (string \<times> bytes) list) list"

definition mem_db :: "mem_env \<Rightarrow> string \<Rightarrow> (string \<times> bytes) list" where
  "mem_db e db = (case map_of e db of None \<Rightarrow> [] | Some kvs \<Rightarrow> kvs)"

definition mem_contents :: "mem_env \<Rightarrow> contents" where
  "mem_contents e db = map_of (mem_db e db)"

definition mem_key_ok :: "string \<Rightarrow> bool" where
  "mem_key_ok k \<longleftrightarrow> 0 < length k \<and> length k \<le> 511"

definition mem_lmdb :: "(mem_env, mem_env) lmdb" where
  "mem_lmdb =
     \<lparr>lm_create_db = (\<lambda>e db. Inr e),
      lm_begin_ro = Inr, lm_begin_rw = Inr,
      lm_get = (\<lambda>t db k. case map_of (mem_db t db) k of Some v \<Rightarrow> Inr v | None \<Rightarrow> Inl NotFound),
      lm_reserve = (\<lambda>t db k n. if mem_key_ok k
         then Inr (n, \<lambda>b. AList.update db (AList.update k b (mem_db t db)) t) else Inl BadValSize),
      lm_del = (\<lambda>t db k. if map_of (mem_db t db) k = None then Inl NotFound
         else Inr (AList.update db (AList.delete k (mem_db t db)) t)),
      lm_clear = (\<lambda>t db. Inr (AList.update db [] t)),
      lm_iter = (\<lambda>t db. Inr (map Inr (AList.clearjunk (mem_db t db)))),
      lm_commit = (\<lambda>e t. Inr t)\<rparr>"

lemma mem_contents_update:
  "mem_contents (AList.update db kvs t) = (mem_contents t)(db := map_of kvs)"
  by (auto simp: mem_contents_def mem_db_def update_conv' fun_eq_iff)

lemma mem_lmdb_ok: "lmdb_ok mem_lmdb mem_contents mem_contents"
proof -
  have iter: "(k, v) \<in> set (AList.clearjunk xs) \<longleftrightarrow> map_of xs k = Some v" for k v and xs :: "(string \<times> bytes) list"
    by (metis distinct_clearjunk map_of_clearjunk map_of_eq_Some_iff)
  show ?thesis
    unfolding lmdb_ok_def mem_lmdb_def
    by (auto simp: mem_contents_update update_conv' delete_conv' iter mem_contents_def
          split: option.splits if_splits)
qed

end
