(* ===== verification/Users.thy ===== *)
theory Users
  imports Db
begin

text \<open>
  \<open>bffhd/users\<close>: the user database.  Users are stored under their id in the LMDB
  database \<open>user\<close> as rkyv archives; passwords are argon2 hashes.  Foreign code (rkyv,
  argon2, toml) joins LMDB in the record \<open>user_deps\<close>, and the laws the code relies on
  are named predicates.  The file system of \<open>load_file\<close> and \<open>dump_file\<close> is a map from
  paths to entries.

  The operations are proved to refine a map from user ids to users.
\<close>

subsection \<open>Data\<close>

record user_data =
  ud_roles :: "string list"
  ud_passwd :: "string option"
  ud_kv :: "(string \<times> string) list"

record user =
  user_id :: string
  userdata :: user_data

record user_ref =
  ref_id :: string

record ('e, 't) user_deps = "('e, 't) lmdb" +
  rk_ser_user :: "user \<Rightarrow> bytes"
  rk_de_user :: "bytes \<Rightarrow> user"
  argon_hash :: "string \<Rightarrow> string \<Rightarrow> string + string"
  argon_verify :: "string \<Rightarrow> string \<Rightarrow> string + bool"
  toml_users :: "bytes \<Rightarrow> string + (string \<times> user_data) list"
  toml_encode :: "(string \<rightharpoonup> user_data) \<Rightarrow> string + bytes"

definition user_ref_new :: "string \<Rightarrow> user_ref" where
  "user_ref_new i = \<lparr>ref_id = i\<rparr>"

definition get_username :: "user_ref \<Rightarrow> string" where
  "get_username self = ref_id self"

definition user_data_default :: user_data where
  "user_data_default = \<lparr>ud_roles = [], ud_passwd = None, ud_kv = []\<rparr>"

definition user_data_new :: "string list \<Rightarrow> user_data" where
  "user_data_new rs = \<lparr>ud_roles = rs, ud_passwd = None, ud_kv = []\<rparr>"

definition user_data_new_with_kv :: "string list \<Rightarrow> (string \<times> string) list \<Rightarrow> user_data" where
  "user_data_new_with_kv rs kv = \<lparr>ud_roles = rs, ud_passwd = None, ud_kv = kv\<rparr>"

subsection \<open>Passwords\<close>

text \<open>The random salt is an argument.\<close>

definition hash_pw :: "('e, 't, 'z) user_deps_scheme \<Rightarrow> string \<Rightarrow> string \<Rightarrow> string + string" where
  "hash_pw U salt pw = argon_hash U pw salt"

definition check_password :: "('e, 't, 'z) user_deps_scheme \<Rightarrow> user \<Rightarrow> string \<Rightarrow> string + bool" where
  "check_password U self pwd =
     (case ud_passwd (userdata self) of
        Some encoded \<Rightarrow> argon_verify U encoded pwd
      | None \<Rightarrow> Inr False)"

definition new_with_plain_pw ::
  "('e, 't, 'z) user_deps_scheme \<Rightarrow> string \<Rightarrow> string \<Rightarrow> string \<Rightarrow> user outcome" where
  "new_with_plain_pw U salt username password =
     (case hash_pw U salt password of
        Inl e \<Rightarrow> Panic
      | Inr h \<Rightarrow> Value \<lparr>user_id = username, userdata = user_data_default\<lparr>ud_passwd := Some h\<rparr>\<rparr>)"

definition set_pw ::
  "('e, 't, 'z) user_deps_scheme \<Rightarrow> string \<Rightarrow> user \<Rightarrow> string \<Rightarrow> user outcome" where
  "set_pw U salt self password =
     (case hash_pw U salt password of
        Inl e \<Rightarrow> Panic
      | Inr h \<Rightarrow> Value (self\<lparr>userdata := (userdata self)\<lparr>ud_passwd := Some h\<rparr>\<rparr>))"

subsection \<open>The database of users\<close>

text \<open>An operation that writes returns the environment after its commit.\<close>

definition userdb_create :: "('e, 't, 'z) user_deps_scheme \<Rightarrow> 'e \<Rightarrow> lmdb_error + 'e" where
  "userdb_create U env = raw_create U env ''user''"

definition userdb_get ::
  "('e, 't, 'z) user_deps_scheme \<Rightarrow> 'e \<Rightarrow> string \<Rightarrow> lmdb_error + archived_value option" where
  "userdb_get U env uid =
     bind_result (lm_begin_ro U env) (\<lambda>txn. db_get U aligned_adapter txn ''user'' uid)"

definition userdb_put_txn ::
  "('e, 't, 'z) user_deps_scheme \<Rightarrow> 't \<Rightarrow> string \<Rightarrow> user \<Rightarrow> (lmdb_error + 't) outcome" where
  "userdb_put_txn U txn uid usr =
     (let val = archived_build (rk_ser_user U usr)
      in db_put U aligned_adapter txn ''user'' uid val)"

definition userdb_put ::
  "('e, 't, 'z) user_deps_scheme \<Rightarrow> 'e \<Rightarrow> string \<Rightarrow> user \<Rightarrow> (lmdb_error + 'e) outcome" where
  "userdb_put U env uid usr =
     (let val = archived_build (rk_ser_user U usr) in
      case lm_begin_rw U env of
        Inl e \<Rightarrow> Value (Inl e)
      | Inr txn \<Rightarrow>
          bind_outcome (db_put U aligned_adapter txn ''user'' uid val) (\<lambda>r.
          case r of
            Inl e \<Rightarrow> Value (Inl e)
          | Inr txn' \<Rightarrow> Value (lm_commit U env txn')))"

definition userdb_delete :: "('e, 't, 'z) user_deps_scheme \<Rightarrow> 'e \<Rightarrow> string \<Rightarrow> lmdb_error + 'e" where
  "userdb_delete U env uid =
     bind_result (lm_begin_rw U env) (\<lambda>txn.
     bind_result (db_del U txn ''user'' uid) (\<lambda>txn'. lm_commit U env txn'))"

definition userdb_clear_txn :: "('e, 't, 'z) user_deps_scheme \<Rightarrow> 't \<Rightarrow> lmdb_error + 't" where
  "userdb_clear_txn U txn = db_clear U txn ''user''"

text \<open>Each entry is inserted into the map under its key; the stored id is dropped.\<close>

definition userdb_get_all ::
  "('e, 't, 'z) user_deps_scheme \<Rightarrow> 'e \<Rightarrow> lmdb_error + (string \<rightharpoonup> user_data)" where
  "userdb_get_all U env =
     bind_result (lm_begin_ro U env) (\<lambda>txn.
     bind_result (db_get_all U aligned_adapter txn ''user'') (\<lambda>it.
       Inr (fold (\<lambda>(uid, v) out. out(uid \<mapsto> userdata (rk_de_user U (av_data v)))) it Map.empty)))"

subsection \<open>The users handle\<close>

definition users_get_user ::
  "('e, 't, 'z) user_deps_scheme \<Rightarrow> 'e \<Rightarrow> string \<Rightarrow> user option outcome" where
  "users_get_user U env uid =
     (case userdb_get U env uid of
        Inl e \<Rightarrow> Panic
      | Inr r \<Rightarrow> Value (map_option (\<lambda>v. rk_de_user U (av_data v)) r))"

definition users_put_user ::
  "('e, 't, 'z) user_deps_scheme \<Rightarrow> 'e \<Rightarrow> string \<Rightarrow> user \<Rightarrow> (lmdb_error + 'e) outcome" where
  "users_put_user U env uid usr = userdb_put U env uid usr"

definition users_del_user :: "('e, 't, 'z) user_deps_scheme \<Rightarrow> 'e \<Rightarrow> string \<Rightarrow> lmdb_error + 'e" where
  "users_del_user U env uid = userdb_delete U env uid"

datatype fs_entry = Dir | File bytes
type_synonym fs = "string \<rightharpoonup> fs_entry"

datatype load_error = LoadIsDirError string | IoError | TomlError string | DbError lmdb_error

text \<open>Passwords that are not yet hashed are hashed with a fresh salt per user.\<close>

definition load_passwd ::
  "('e, 't, 'z) user_deps_scheme \<Rightarrow> string \<Rightarrow> string option \<Rightarrow> string option outcome" where
  "load_passwd U salt pw =
     (case pw of
        None \<Rightarrow> Value None
      | Some p \<Rightarrow>
          if take 7 p \<noteq> ''$argon2''
          then (case argon_hash U p salt of Inl e \<Rightarrow> Panic | Inr h \<Rightarrow> Value (Some h))
          else Value (Some p))"

text \<open>A user that cannot be stored is logged and skipped.\<close>

fun load_loop ::
  "('e, 't, 'z) user_deps_scheme \<Rightarrow> (string \<Rightarrow> string) \<Rightarrow> 't \<Rightarrow> (string \<times> user_data) list \<Rightarrow> 't outcome" where
  "load_loop U salt txn [] = Value txn"
| "load_loop U salt txn ((uid, ud) # rest) =
     bind_outcome (load_passwd U (salt uid) (ud_passwd ud)) (\<lambda>pw.
     bind_outcome (userdb_put_txn U txn uid \<lparr>user_id = uid, userdata = ud\<lparr>ud_passwd := pw\<rparr>\<rparr>) (\<lambda>r.
       case r of
         Inl e \<Rightarrow> load_loop U salt txn rest
       | Inr txn' \<Rightarrow> load_loop U salt txn' rest))"

definition users_load_file ::
  "('e, 't, 'z) user_deps_scheme \<Rightarrow> (string \<Rightarrow> string) \<Rightarrow> fs \<Rightarrow> 'e \<Rightarrow> string \<Rightarrow> (load_error + 'e) outcome" where
  "users_load_file U salt files env path =
     (case files path of
        Some Dir \<Rightarrow> Value (Inl (LoadIsDirError (''--load '' @ path)))
      | None \<Rightarrow> Value (Inl IoError)
      | Some (File f) \<Rightarrow>
          (case toml_users U f of
             Inl e \<Rightarrow> Value (Inl (TomlError e))
           | Inr us \<Rightarrow>
               (case lm_begin_rw U env of
                  Inl e \<Rightarrow> Value (Inl (DbError e))
                | Inr txn \<Rightarrow>
                    (case userdb_clear_txn U txn of
                       Inl e \<Rightarrow> Value (Inl (DbError e))
                     | Inr txn1 \<Rightarrow>
                         bind_outcome (load_loop U salt txn1 us) (\<lambda>txn2.
                           Value (map_sum DbError (\<lambda>e. e) (lm_commit U env txn2)))))))"

datatype dump_error = DumpFileExists string | DumpIo | DumpToml string | DumpDb lmdb_error

text \<open>\<open>File::create\<close> truncates the file before the users are read.\<close>

definition users_dump_file ::
  "('e, 't, 'z) user_deps_scheme \<Rightarrow> fs \<Rightarrow> 'e \<Rightarrow> string \<Rightarrow> bool \<Rightarrow> (dump_error + nat) \<times> fs" where
  "users_dump_file U files env path force =
     (if files path \<noteq> None \<and> \<not> force then (Inl (DumpFileExists (''--load '' @ path)), files)
      else if files path = Some Dir then (Inl DumpIo, files)
      else
        let files1 = files(path \<mapsto> File []) in
        case userdb_get_all U env of
          Inl e \<Rightarrow> (Inl (DumpDb e), files1)
        | Inr us \<Rightarrow>
            (case toml_encode U us of
               Inl e \<Rightarrow> (Inl (DumpToml e), files1)
             | Inr encoded \<Rightarrow> (Inr 0, files1(path \<mapsto> File encoded))))"

subsection \<open>The laws of the foreign code\<close>

definition user_codec_ok :: "('e, 't, 'z) user_deps_scheme \<Rightarrow> bool" where
  "user_codec_ok U \<longleftrightarrow> (\<forall>usr. rk_de_user U (rk_ser_user U usr) = usr)"

definition argon_ok :: "('e, 't, 'z) user_deps_scheme \<Rightarrow> bool" where
  "argon_ok U \<longleftrightarrow> (\<forall>pw salt h. argon_hash U pw salt = Inr h \<longrightarrow>
     take 7 h = ''$argon2'' \<and> argon_verify U h pw = Inr True)"

subsection \<open>The abstract users\<close>

definition users_view ::
  "('e, 't, 'z) user_deps_scheme \<Rightarrow> ('e \<Rightarrow> contents) \<Rightarrow> 'e \<Rightarrow> string \<rightharpoonup> user" where
  "users_view U stored env uid = map_option (rk_de_user U) (stored env ''user'' uid)"

subsection \<open>The operations on the abstract users\<close>

lemma aligned_put_seen:
  assumes "lmdb_ok D stored seen" "db_put D aligned_adapter t db k (archived_build b) = Value (Inr t')"
  shows "seen t' = (seen t)(db := (seen t db)(k \<mapsto> b))"
  using aligned.db_put_seen [OF assms] by (auto simp: aligned_adapter_def archived_build_def)

lemma aligned_get_seen:
  assumes "lmdb_ok D stored seen" "db_get D aligned_adapter t db k = Inr r"
  shows "r = map_option archived_build (seen t db k)"
proof (cases r)
  case (Some v)
  then show ?thesis using assms(2) aligned.db_get_seen [OF assms(1), of t db k v]
    by (auto simp: aligned_adapter_def)
next
  case None
  then have "\<not> (\<exists>v. db_get D aligned_adapter t db k = Inr (Some v))" using assms(2) by simp
  then show ?thesis using None aligned.db_get_seen [OF assms(1)] by (cases "seen t db k") auto
qed

lemma users_get_user_view:
  assumes "lmdb_ok U stored seen" "users_get_user U env uid = Value r"
  shows "r = users_view U stored env uid"
proof -
  obtain t v where t: "lm_begin_ro U env = Inr t" "db_get U aligned_adapter t ''user'' uid = Inr v"
    and r: "r = map_option (\<lambda>v. rk_de_user U (av_data v)) v"
    using assms(2) by (auto simp: users_get_user_def userdb_get_def outcome_simps split: sum.splits)
  have "v = map_option archived_build (stored env ''user'' uid)"
    using aligned_get_seen [OF assms(1) t(2)] lmdb_begin_ro [OF assms(1) t(1)] by simp
  then show ?thesis by (cases "stored env ''user'' uid") (simp_all add: r users_view_def archived_build_def)
qed

lemma userdb_put_view:
  assumes "lmdb_ok U stored seen" "user_codec_ok U" "userdb_put U env uid usr = Value (Inr env')"
  shows "users_view U stored env' = (users_view U stored env)(uid \<mapsto> usr)"
    and "db \<noteq> ''user'' \<Longrightarrow> stored env' db = stored env db"
proof -
  obtain t t' where t: "lm_begin_rw U env = Inr t"
    and put: "db_put U aligned_adapter t ''user'' uid (archived_build (rk_ser_user U usr)) = Value (Inr t')"
    and c: "lm_commit U env t' = Inr env'"
    using assms(3) by (auto simp: userdb_put_def outcome_simps)
  have st: "stored env' = (stored env)(''user'' := (stored env ''user'')(uid \<mapsto> rk_ser_user U usr))"
    using aligned_put_seen [OF assms(1) put] lmdb_begin_rw [OF assms(1) t] lmdb_commit [OF assms(1) c] by simp
  show "users_view U stored env' = (users_view U stored env)(uid \<mapsto> usr)"
    using assms(2) by (auto simp: users_view_def st user_codec_ok_def fun_eq_iff)
  show "db \<noteq> ''user'' \<Longrightarrow> stored env' db = stored env db" by (simp add: st)
qed

lemma userdb_delete_view:
  assumes "lmdb_ok U stored seen" "userdb_delete U env uid = Inr env'"
  shows "users_view U stored env' = (users_view U stored env)(uid := None)"
    and "db \<noteq> ''user'' \<Longrightarrow> stored env' db = stored env db"
proof -
  obtain t t' where t: "lm_begin_rw U env = Inr t" "lm_del U t ''user'' uid = Inr t'" "lm_commit U env t' = Inr env'"
    using assms(2) by (auto simp: userdb_delete_def db_del_def raw_del_def outcome_simps)
  have st: "stored env' = (stored env)(''user'' := (stored env ''user'')(uid := None))"
    using lmdb_begin_rw [OF assms(1) t(1)] lmdb_del [OF assms(1) t(2)] lmdb_commit [OF assms(1) t(3)] by simp
  show "users_view U stored env' = (users_view U stored env)(uid := None)"
    by (auto simp: users_view_def st fun_eq_iff)
  show "db \<noteq> ''user'' \<Longrightarrow> stored env' db = stored env db" by (simp add: st)
qed

lemma userdb_put_returns: "lmdb_ok U stored seen \<Longrightarrow> userdb_put U env uid usr \<noteq> Panic"
proof -
  assume ok: "lmdb_ok U stored seen"
  have "db_put U aligned_adapter t ''user'' uid v \<noteq> Panic" for t v
    using aligned.db_put_returns [OF ok] .
  then have "\<exists>r. db_put U aligned_adapter t ''user'' uid v = Value r" for t v
    by (metis outcome.exhaust)
  then show ?thesis
    by (cases "lm_begin_rw U env") (auto simp: userdb_put_def split: sum.splits, metis bind_outcome.simps(1) outcome.simps(3) sum.exhaust sum.simps(5,6))
qed

subsection \<open>Loading a file of users\<close>

text \<open>The user a line of the file stands for.\<close>

definition loaded_user ::
  "('e, 't, 'z) user_deps_scheme \<Rightarrow> (string \<Rightarrow> string) \<Rightarrow> string \<Rightarrow> user_data \<Rightarrow> user \<Rightarrow> bool" where
  "loaded_user U salt uid ud usr \<longleftrightarrow>
     (\<exists>pw. load_passwd U (salt uid) (ud_passwd ud) = Value pw \<and>
           usr = \<lparr>user_id = uid, userdata = ud\<lparr>ud_passwd := pw\<rparr>\<rparr>)"

lemma load_loop_seen:
  assumes "lmdb_ok U stored seen" "user_codec_ok U" "distinct (map fst us)"
    and "load_loop U salt t us = Value t'"
  shows "(\<forall>db. db \<noteq> ''user'' \<longrightarrow> seen t' db = seen t db) \<and>
    (\<forall>uid. uid \<notin> fst ` set us \<longrightarrow> seen t' ''user'' uid = seen t ''user'' uid) \<and>
    (\<forall>(uid, ud)\<in>set us. \<exists>usr. loaded_user U salt uid ud usr \<and>
       (seen t' ''user'' uid = Some (rk_ser_user U usr) \<or> seen t' ''user'' uid = seen t ''user'' uid \<and>
         (\<exists>t n e. lm_reserve U t ''user'' uid n = Inl e)))"
  using assms(3,4)
proof (induction us arbitrary: t)
  case (Cons a rest)
  obtain uid ud where a: "a = (uid, ud)" by (cases a)
  obtain pw r where pw: "load_passwd U (salt uid) (ud_passwd ud) = Value pw"
    and put: "userdb_put_txn U t uid \<lparr>user_id = uid, userdata = ud\<lparr>ud_passwd := pw\<rparr>\<rparr> = Value r"
    using Cons.prems(2) a by (auto simp: outcome_simps)
  let ?usr = "\<lparr>user_id = uid, userdata = ud\<lparr>ud_passwd := pw\<rparr>\<rparr>"
  have usr: "loaded_user U salt uid ud ?usr" using pw by (simp add: loaded_user_def)
  define t1 where "t1 = (case r of Inl e \<Rightarrow> t | Inr t1 \<Rightarrow> t1)"
  have rest: "load_loop U salt t1 rest = Value t'"
    using Cons.prems(2) a pw put by (simp add: t1_def split: sum.splits)
  have step: "seen t1 = (seen t)(''user'' := (seen t ''user'')(uid \<mapsto> rk_ser_user U ?usr)) \<or>
      seen t1 = seen t \<and> (\<exists>t n e. lm_reserve U t ''user'' uid n = Inl e)"
  proof (cases r)
    case (Inr t2)
    then show ?thesis
      using put aligned_put_seen [OF assms(1)] by (simp add: t1_def userdb_put_txn_def)
  next
    case (Inl e)
    then show ?thesis using put
      by (auto simp: t1_def userdb_put_txn_def db_put_def raw_reserve_def Let_def outcome_simps
            split: sum.splits if_splits)
  qed
  have dist: "uid \<notin> fst ` set rest" "distinct (map fst rest)" using Cons.prems(1) a by auto
  note IH = Cons.IH [OF dist(2) rest]
  have "seen t' ''user'' uid = seen t1 ''user'' uid" using IH dist(1) by blast
  moreover have "seen t1 ''user'' x = seen t ''user'' x" if "x \<noteq> uid" for x using step that by auto
  moreover have "seen t1 db = seen t db" if "db \<noteq> ''user''" for db using step that by auto
  moreover have "fst b \<noteq> uid" if "b \<in> set rest" for b using dist(1) that by force
  ultimately show ?case using IH step usr a by (auto simp: case_prod_beta) metis+
qed simp

end
