(* ===== verification/Varint.thy ===== *)
theory Varint
  imports Prelude
begin

text \<open>
  \<open>bffhd/utils/varint.rs\<close>: the variable length unsigned integers in which object
  identifiers are stored.  A \<open>VarUInt<N>\<close> is an array of \<open>N\<close> bytes filled from its
  end; every byte but the last carries the continuation bit 0x80 and seven bits
  of the number, the most significant first.

  The two loops (macros \<open>convert_from!\<close> and \<open>convert_into!\<close>) are modelled with
  their index arithmetic and the panics it could raise.  They are proved to
  compute \<open>vlq\<close>, a reference encoding on natural numbers, and its value, for
  every array long enough for the width; the five instances of the file
  interpret that contract.
\<close>

subsection \<open>The code\<close>

record var_uint =
  vu_offset :: nat
  vu_bytes :: "u8 list"

definition var_uint_new :: "u8 list \<Rightarrow> nat \<Rightarrow> var_uint" where
  "var_uint_new bytes off = \<lparr>vu_offset = off, vu_bytes = bytes\<rparr>"

definition var_uint_as_bytes :: "var_uint \<Rightarrow> u8 list outcome" where
  "var_uint_as_bytes v = slice (vu_bytes v) (vu_offset v) (length (vu_bytes v))"

definition var_uint_into_bytes :: "var_uint \<Rightarrow> u8 list" where
  "var_uint_into_bytes v = vu_bytes v"

definition var_uint_default :: "nat \<Rightarrow> var_uint" where
  "var_uint_default N = var_uint_new (replicate N 0) N"

text \<open>The \<open>while\<close> loop of \<open>convert_from!\<close> and the write after it; \<open>idx -= 1\<close> at zero panics.\<close>

function convert_from_loop ::
  "'a::len word \<Rightarrow> u8 \<Rightarrow> nat \<Rightarrow> u8 list \<Rightarrow> (nat \<times> u8 list) outcome" where
  "convert_from_loop num cont idx bytes =
     (if num > 0x7f then
        bind_outcome (index_set bytes idx (ucast (num AND 0x7f) OR cont)) (\<lambda>bytes'.
          if idx = 0 then Panic
          else convert_from_loop (drop_bit 7 num) 0x80 (idx - 1) bytes')
      else
        bind_outcome (index_set bytes idx (ucast num OR cont)) (\<lambda>bytes'. Value (idx, bytes')))"
  by pat_completeness auto
termination by (relation "measure (\<lambda>(num, cont, idx, bytes). idx)") auto

definition convert_from :: "nat \<Rightarrow> 'a::len word \<Rightarrow> var_uint outcome" where
  "convert_from N inp =
     (let this = var_uint_default N; bytes = vu_bytes this in
      if length bytes = 0 then Panic
      else bind_outcome (convert_from_loop inp 0 (length bytes - 1) bytes)
             (\<lambda>(idx, bytes'). Value \<lparr>vu_offset = idx, vu_bytes = bytes'\<rparr>))"

text \<open>The \<open>for\<close> loop of \<open>convert_into!\<close>; a shift by the full width or more panics.\<close>

function convert_into_loop ::
  "u8 list \<Rightarrow> nat \<Rightarrow> nat \<Rightarrow> 'a::len word \<Rightarrow> 'a word outcome" where
  "convert_into_loop bytes neg shift out =
     (if neg \<le> length bytes then
        bind_outcome (index_get bytes (length bytes - neg)) (\<lambda>b.
          if LENGTH('a) \<le> shift then Panic
          else convert_into_loop bytes (neg + 1) (shift + 7)
                 (out OR push_bit shift (ucast (b AND 0x7f))))
      else Value out)"
  by pat_completeness auto
termination
  by (relation "measure (\<lambda>(bytes, neg, shift, out). length bytes + 1 - neg)") auto

definition convert_into :: "var_uint \<Rightarrow> 'a::len word outcome" where
  "convert_into v = bind_outcome (var_uint_as_bytes v) (\<lambda>bytes. convert_into_loop bytes 1 0 0)"

definition var_u8_from :: "u8 \<Rightarrow> var_uint outcome" where "var_u8_from = convert_from 2"
definition var_u16_from :: "u16 \<Rightarrow> var_uint outcome" where "var_u16_from = convert_from 3"
definition var_u32_from :: "u32 \<Rightarrow> var_uint outcome" where "var_u32_from = convert_from 5"
definition var_u64_from :: "u64 \<Rightarrow> var_uint outcome" where "var_u64_from = convert_from 10"
definition var_u128_from :: "u128 \<Rightarrow> var_uint outcome" where "var_u128_from = convert_from 19"

subsection \<open>The reference encoding\<close>

fun vlq :: "nat \<Rightarrow> u8 \<Rightarrow> u8 list" where
  "vlq n cont = (if n < 128 then [of_nat n OR cont]
                 else vlq (n div 128) 0x80 @ [of_nat (n mod 128) OR cont])"

definition vlq_value :: "u8 list \<Rightarrow> nat" where
  "vlq_value bs = foldl (\<lambda>acc b. acc * 128 + unat (b AND 0x7f)) 0 bs"

declare vlq.simps [simp del]
declare convert_from_loop.simps [simp del]
declare convert_into_loop.simps [simp del]

subsection \<open>Bytes of seven bits\<close>

lemma low7_mask: "(0x7f :: 'a::len word) = mask 7"
  by (simp add: mask_eq_exp_minus_1)

lemma and_low7: "w AND 0x7f = (take_bit 7 w :: 'a::len word)"
  by (simp add: low7_mask take_bit_eq_mask)

lemma unat_and_low7: "unat (w AND 0x7f :: 'a::len word) = unat w mod 128"
  by (simp add: and_low7 unsigned_take_bit_eq take_bit_eq_mod [where ?'a = nat])

lemma low7_of_cont: "((w :: u8) OR c) AND 0x7f = w AND 0x7f" if "c = 0 \<or> c = 0x80"
  using that by (auto simp: word_ao_dist)

lemma unat_low7_of_nat:
  assumes "n < 128" "c = 0 \<or> c = 0x80"
  shows "unat ((of_nat n OR c :: u8) AND 0x7f) = n"
  using assms by (simp add: low7_of_cont unat_and_low7 unsigned_of_nat take_bit_eq_mod)

subsection \<open>The reference encoding\<close>

lemma vlq_not_Nil [simp]: "vlq n c \<noteq> []"
  by (subst vlq.simps) simp

lemma vlq_value_snoc: "vlq_value (bs @ [b]) = vlq_value bs * 128 + unat (b AND 0x7f)"
  by (simp add: vlq_value_def)

lemma vlq_value_vlq: "c = 0 \<or> c = 0x80 \<Longrightarrow> vlq_value (vlq n c) = n"
proof (induction n c rule: vlq.induct)
  case (1 n c)
  show ?case
  proof (cases "n < 128")
    case True
    then show ?thesis using 1 by (simp add: vlq.simps [of n] vlq_value_def unat_low7_of_nat)
  next
    case False
    have "vlq_value (vlq n c) = (n div 128) * 128 + n mod 128"
      using 1 False by (simp add: vlq.simps [of n] vlq_value_snoc unat_low7_of_nat)
    then show ?thesis by simp
  qed
qed

lemma vlq_length_le: "\<lbrakk>n < 128 ^ k; 0 < k\<rbrakk> \<Longrightarrow> length (vlq n c) \<le> k"
proof (induction k arbitrary: n c)
  case (Suc k)
  show ?case
  proof (cases "n < 128")
    case False
    then have "n div 128 < 128 ^ k" "0 < k"
      using Suc.prems by (auto simp: less_mult_imp_div_less mult.commute intro!: Nat.gr0I)
    then show ?thesis using Suc.IH [of "n div 128" "0x80"] False by (simp add: vlq.simps [of n])
  qed (simp add: vlq.simps [of n])
qed simp

text \<open>No encoding is longer than needed: an encoding of \<open>k + 1\<close> bytes stands for at least \<open>128 ^ k\<close>.\<close>

lemma vlq_length_minimal: "\<lbrakk>Suc k \<le> length (vlq n c); 0 < k\<rbrakk> \<Longrightarrow> 128 ^ k \<le> n"
  using vlq_length_le [of n k c] by (meson not_le not_less_eq_eq)

text \<open>The continuation bit is set on every byte but the last one.\<close>

definition cont_shape :: "u8 list \<Rightarrow> bool" where
  "cont_shape bs \<longleftrightarrow> bs \<noteq> [] \<and> (\<forall>b\<in>set (butlast bs). b AND 0x80 = 0x80) \<and> last bs AND 0x80 = 0"

lemma of_nat_low7_no_cont: "n < 128 \<Longrightarrow> (of_nat n :: u8) AND 0x80 = 0"
proof -
  assume "n < 128"
  then have "take_bit 7 (of_nat n :: u8) = of_nat n"
    by (simp add: take_bit_of_nat take_bit_nat_eq_self)
  then have "(of_nat n :: u8) = of_nat n AND 0x7f" by (simp add: and_low7)
  then have "(of_nat n :: u8) AND 0x80 = of_nat n AND (0x7f AND 0x80)"
    by (metis and.assoc)
  then show ?thesis by simp
qed

lemma vlq_cont_bits: "b \<in> set (vlq n 0x80) \<Longrightarrow> b AND 0x80 = 0x80"
proof (induction n rule: less_induct)
  case (less n)
  have tail: "(x OR 0x80) AND 0x80 = (0x80 :: u8)" for x by simp
  show ?case using less.prems less.IH [of "n div 128"]
    by (subst (asm) vlq.simps) (auto simp: tail split: if_splits)
qed

lemma vlq_shape: "cont_shape (vlq n 0)"
  using vlq_cont_bits
  by (subst vlq.simps) (auto simp: cont_shape_def of_nat_low7_no_cont)

subsection \<open>The encoding loop computes the reference encoding\<close>

lemma unat_gt_low7: "8 \<le> LENGTH('a) \<Longrightarrow> (num :: 'a::len word) > 0x7f \<longleftrightarrow> \<not> unat num < 128"
proof -
  assume "8 \<le> LENGTH('a)"
  then have "(127::nat) < 2 ^ LENGTH('a)"
    by (rule order.strict_trans2 [rotated, OF power_increasing]) simp_all
  then have "unat (0x7f :: 'a word) = 127"
    using unat_of_nat [of 127, where ?'a = 'a] by simp
  then show ?thesis by (auto simp: word_less_nat_alt)
qed

lemma ucast_low7: "(ucast (num AND 0x7f :: 'a::len word) :: u8) = of_nat (unat num mod 128)"
  by (metis of_nat_unat unat_and_low7)

lemma convert_from_loop_vlq:
  fixes num :: "'a::len word"
  assumes "8 \<le> LENGTH('a)" "idx < length bytes" "length (vlq (unat num) c) \<le> Suc idx"
  shows "convert_from_loop num c idx bytes =
           Value (Suc idx - length (vlq (unat num) c),
                  take (Suc idx - length (vlq (unat num) c)) bytes @ vlq (unat num) c
                  @ drop (Suc idx) bytes)"
  using assms
proof (induction num c idx bytes rule: convert_from_loop.induct)
  case (1 num c idx bytes)
  show ?case
  proof (cases "unat num < 128")
    case True
    then have "(ucast num :: u8) = of_nat (unat num)" by simp
    with True show ?thesis
      using 1 by (simp add: convert_from_loop.simps [of num] vlq.simps [of "unat num"]
                    unat_gt_low7 upd_conv_take_nth_drop)
  next
    case False
    have div: "unat (drop_bit 7 num) = unat num div 128" by (simp add: unat_drop_bit_eq drop_bit_eq_div [where ?'a = nat])
    let ?v = "vlq (unat num div 128) 0x80"
    let ?b = "of_nat (unat num mod 128) OR c :: u8"
    have v: "vlq (unat num) c = ?v @ [?b]" using False by (simp add: vlq.simps [of "unat num"])
    have len: "0 < length ?v" "length ?v \<le> idx" using 1 v by auto
    then have pos: "idx \<noteq> 0" by linarith
    have gt: "num > 0x7f" using False 1 by (simp add: unat_gt_low7)
    have "convert_from_loop num c idx bytes =
            convert_from_loop (drop_bit 7 num) 0x80 (idx - 1) (bytes[idx := ?b])"
      using gt pos 1 by (simp add: convert_from_loop.simps [of num] ucast_low7)
    also have "\<dots> = Value (idx - length ?v,
                 take (idx - length ?v) (bytes[idx := ?b]) @ ?v @ drop idx (bytes[idx := ?b]))"
      using 1(1) [OF gt, of "bytes[idx := ?b]"] pos len 1 by (simp add: div ucast_low7)
    finally show ?thesis
      using pos len 1 v by (simp add: drop_update_swap Cons_nth_drop_Suc [symmetric] flip: Cons_nth_drop_Suc)
  qed
qed

lemma convert_from_vlq:
  fixes num :: "'a::len word"
  assumes "8 \<le> LENGTH('a)" "LENGTH('a) \<le> 7 * N"
  shows "convert_from N num =
           Value \<lparr>vu_offset = N - length (vlq (unat num) 0),
                  vu_bytes = replicate (N - length (vlq (unat num) 0)) 0 @ vlq (unat num) 0\<rparr>"
    and "length (vlq (unat num) 0) \<le> N"
proof -
  have "0 < N" using assms by (cases N) auto
  have "unat num < 2 ^ LENGTH('a)" by (rule unsigned_less)
  also have "\<dots> \<le> 2 ^ (7 * N)" using assms by (intro power_increasing) auto
  also have "\<dots> = 128 ^ N" by (simp add: power_mult)
  finally show le: "length (vlq (unat num) 0) \<le> N" using \<open>0 < N\<close> by (rule vlq_length_le)
  show "convert_from N num =
           Value \<lparr>vu_offset = N - length (vlq (unat num) 0),
                  vu_bytes = replicate (N - length (vlq (unat num) 0)) 0 @ vlq (unat num) 0\<rparr>"
    using le \<open>0 < N\<close> convert_from_loop_vlq [of "N - 1" "replicate N 0" num 0] assms
    by (simp add: convert_from_def var_uint_default_def var_uint_new_def Let_def)
qed

subsection \<open>The decoding loop computes the value\<close>

lemma vlq_value_snoc_induct:
  "foldl (\<lambda>acc b. acc * 128 + unat (b AND 0x7f)) a bs = a * 128 ^ length bs + vlq_value (bs :: u8 list)"
proof (induction bs arbitrary: a)
  case (Cons b bs)
  show ?case
    using Cons.IH [of "a * 128 + unat (b AND 0x7f)"] Cons.IH [of "unat (b AND 0x7f)"]
    by (simp add: vlq_value_def algebra_simps)
qed (simp add: vlq_value_def)

lemma vlq_value_Cons: "vlq_value (b # bs) = unat (b AND 0x7f) * 128 ^ length bs + vlq_value bs"
  using vlq_value_snoc_induct [of "unat (b AND 0x7f)" bs] by (simp add: vlq_value_def)

lemma vlq_value_less: "vlq_value bs < 128 ^ length bs"
proof (induction bs)
  case (Cons b bs)
  have "unat (b AND 0x7f) < 128" by (simp add: unat_and_low7)
  then have "Suc (unat (b AND 0x7f)) * 128 ^ length bs \<le> 128 * 128 ^ length bs"
    by (intro mult_right_mono) auto
  then show ?case using Cons.IH by (simp only: vlq_value_Cons power_Suc length_Cons mult_Suc)
qed (simp add: vlq_value_def)

text \<open>Or-ing in seven bits above the bits already read adds them.\<close>

lemma or_push_bit_add:
  fixes x :: "'b::len word"
  assumes "v < 2 ^ s"
  shows "(of_nat v :: 'a::len word) OR push_bit s (ucast x) = of_nat (unat x * 2 ^ s + v)"
proof -
  have "take_bit s (of_nat v :: 'a word) = of_nat v"
    using assms by (simp add: take_bit_of_nat take_bit_nat_eq_self)
  then have low: "bit (of_nat v :: 'a word) n \<Longrightarrow> n < s" for n by (metis bit_take_bit_iff)
  have "(of_nat v :: 'a word) OR push_bit s (ucast x) = of_nat v + push_bit s (ucast x)"
    by (intro disjunctive_add [symmetric]) (auto simp: bit_push_bit_iff dest: low)
  also have "\<dots> = of_nat (unat x * 2 ^ s + v)"
    by (simp add: push_bit_eq_mult add.commute)
  finally show ?thesis .
qed

lemma convert_into_loop_value:
  assumes "7 * (length bytes - 1) < LENGTH('a::len)" "k \<le> length bytes"
  shows "convert_into_loop bytes (Suc k) (7 * k)
           (of_nat (vlq_value (drop (length bytes - k) bytes)) :: 'a word) =
         Value (of_nat (vlq_value bytes))"
  using assms
proof (induction "length bytes - k" arbitrary: k)
  case 0
  then show ?case by (simp add: convert_into_loop.simps [of bytes "Suc k"])
next
  case (Suc m)
  then have k: "k < length bytes" "7 * k < LENGTH('a)" by auto
  let ?i = "length bytes - Suc k"
  have i: "?i < length bytes" "Suc ?i = length bytes - k" using k by auto
  have drop: "drop ?i bytes = bytes ! ?i # drop (length bytes - k) bytes"
    using i by (metis Cons_nth_drop_Suc)
  have "vlq_value (drop (length bytes - k) bytes) < 2 ^ (7 * k)"
    using vlq_value_less [of "drop (length bytes - k) bytes"] k by (simp add: power_mult)
  then have "(of_nat (vlq_value (drop (length bytes - k) bytes)) :: 'a word)
               OR push_bit (7 * k) (ucast (bytes ! ?i AND 0x7f)) =
             of_nat (vlq_value (drop ?i bytes))"
    using k by (simp add: or_push_bit_add drop vlq_value_Cons power_mult)
  then show ?case
    using Suc.hyps(1) [of "Suc k"] Suc k i
    by (simp add: convert_into_loop.simps [of bytes "Suc k"] add.commute [of "7 * k" 7])
qed

lemma convert_into_value:
  assumes "vu_offset v \<le> length (vu_bytes v)"
    and "7 * (length (vu_bytes v) - vu_offset v - 1) < LENGTH('a::len)"
  shows "convert_into v = Value (of_nat (vlq_value (drop (vu_offset v) (vu_bytes v))) :: 'a word)"
  using assms convert_into_loop_value [of "drop (vu_offset v) (vu_bytes v)" 0, where ?'a = 'a]
  by (simp add: convert_into_def var_uint_as_bytes_def slice_in vlq_value_def)

subsection \<open>The five instances\<close>

text \<open>
  \<open>impl_convert_from_to!\<close> pairs a width with an array length.  The contract asks that
  the array holds every number of the width and that no shift of the decoder reaches it.
\<close>

locale var_uint_instance =
  fixes N :: nat and width :: "'a::len itself"
  assumes byte_wide: "8 \<le> LENGTH('a)"
    and long_enough: "LENGTH('a) \<le> 7 * N"
    and no_shift_overflow: "7 * (N - 1) < LENGTH('a)"
begin

lemma encode_returns:
  "\<exists>v. convert_from N (x :: 'a word) = Value v \<and> length (vu_bytes v) = N \<and>
       var_uint_as_bytes v = Value (vlq (unat x) 0)"
  using convert_from_vlq [OF byte_wide long_enough, of x]
  by (simp add: var_uint_as_bytes_def slice_in)

lemma decode_encode: "bind_outcome (convert_from N (x :: 'a word)) convert_into = Value x"
proof -
  let ?k = "length (vlq (unat x) 0)"
  have "?k \<le> N" using byte_wide long_enough by (rule convert_from_vlq)
  then have "7 * (?k - 1) < LENGTH('a)" using no_shift_overflow by linarith
  with \<open>?k \<le> N\<close> show ?thesis
    by (simp add: convert_from_vlq [OF byte_wide long_enough] convert_into_value vlq_value_vlq)
qed

lemma encode_bytes_minimal:
  assumes "convert_from N (x :: 'a word) = Value v" "var_uint_as_bytes v = Value bs"
  shows "cont_shape bs \<and> vlq_value bs = unat x \<and> (\<forall>k>0. length bs = Suc k \<longrightarrow> 128 ^ k \<le> unat x)"
proof -
  have bs: "bs = vlq (unat x) 0" using encode_returns [of x] assms by auto
  then show ?thesis using vlq_length_minimal [of _ "unat x" 0] by (auto simp: vlq_shape vlq_value_vlq)
qed

end

interpretation var_u8: var_uint_instance 2 "TYPE(8)" by unfold_locales simp_all
interpretation var_u16: var_uint_instance 3 "TYPE(16)" by unfold_locales simp_all
interpretation var_u32: var_uint_instance 5 "TYPE(32)" by unfold_locales simp_all
interpretation var_u64: var_uint_instance 10 "TYPE(64)" by unfold_locales simp_all
interpretation var_u128: var_uint_instance 19 "TYPE(128)" by unfold_locales simp_all

lemmas var_uint_decode_encode =
  var_u8.decode_encode var_u16.decode_encode var_u32.decode_encode
  var_u64.decode_encode var_u128.decode_encode

subsection \<open>Properties\<close>

text \<open>C37. Encoding a number of any of the five widths never panics (no index leaves the
  array, no index underflows) and decoding the result returns the number.\<close>

theorem var_uint_round_trip:
  "bind_outcome (var_u8_from a) convert_into = Value a \<and>
   bind_outcome (var_u16_from b) convert_into = Value b \<and>
   bind_outcome (var_u32_from c) convert_into = Value c \<and>
   bind_outcome (var_u64_from d) convert_into = Value d \<and>
   bind_outcome (var_u128_from e) convert_into = Value e"
  by (simp add: var_u8_from_def var_u16_from_def var_u32_from_def var_u64_from_def
        var_u128_from_def var_uint_decode_encode)

end
