(* ===== verification/Oid.thy ===== *)
theory Oid
  imports Varint
begin

text \<open>
  \<open>bffhd/utils/oid.rs\<close>: object identifiers, the keys of the resource state types.
  An identifier is one byte for the root and its first child followed by the
  remaining nodes as variable length integers.  Modelled are the constructors
  \<open>build\<close>, \<open>from_box\<close> and \<open>from_str\<close>, the accessors and the printer
  \<open>convert_to_string\<close> with the panic of the \<open>expect\<close> around it.

  The lemmas characterise the scanners on every encoded list of children: both
  accept exactly the children below \<open>2 ^ 128 - 128\<close>.
\<close>

subsection \<open>The code\<close>

datatype object_identifier_root = ItuT | Iso | JointIsoItuT

fun root_as_u8 :: "object_identifier_root \<Rightarrow> u8" where
  "root_as_u8 ItuT = 0"
| "root_as_u8 Iso = 1"
| "root_as_u8 JointIsoItuT = 2"

datatype object_identifier_error =
  IllegalRootNode | IllegalFirstChildNode | IllegalChildNodeValue

definition root_into_string :: "object_identifier_root \<Rightarrow> string" where
  "root_into_string r = show_nat (unat (root_as_u8 r))"

definition root_try_from :: "u8 \<Rightarrow> object_identifier_error + object_identifier_root" where
  "root_try_from value =
     (if value = 0 then Inr ItuT else if value = 1 then Inr Iso
      else if value = 2 then Inr JointIsoItuT else Inl IllegalRootNode)"

record object_identifier =
  oid_nodes :: "u8 list"

definition new_unchecked :: "u8 list \<Rightarrow> object_identifier" where
  "new_unchecked nodes = \<lparr>oid_nodes = nodes\<rparr>"

text \<open>The \<open>for\<close> loop of \<open>from_box\<close> over the bytes after the first.\<close>

fun from_box_loop :: "u8 list \<Rightarrow> bool \<Rightarrow> u128 \<Rightarrow> object_identifier_error + unit" where
  "from_box_loop [] parsing_big_int big_int = Inr ()"
| "from_box_loop (b # bs) parsing_big_int big_int =
     (if \<not> parsing_big_int \<and> b < 128 then
        from_box_loop bs parsing_big_int
          (if big_int > 0 \<and> \<not> parsing_big_int then 0 else big_int)
      else if big_int > 0 \<and> big_int \<ge> drop_bit 7 (- 1) then Inl IllegalChildNodeValue
      else
        let shifted = (if big_int > 0 then push_bit 7 big_int else big_int);
            big_int' = shifted OR ucast (b AND NOT 0x80);
            parsing' = (b AND 0x80 \<noteq> 0)
        in from_box_loop bs parsing' (if big_int' > 0 \<and> \<not> parsing' then 0 else big_int'))"

definition from_box :: "u8 list \<Rightarrow> object_identifier_error + object_identifier" where
  "from_box nodes =
     (case nodes of [] \<Rightarrow> Inl IllegalRootNode
      | b # bs \<Rightarrow>
          bind_result (root_try_from (b div 40)) (\<lambda>_.
          bind_result (from_box_loop bs False 0) (\<lambda>_. Inr \<lparr>oid_nodes = nodes\<rparr>)))"

text \<open>\<open>for child in children\<close>: each one becomes a \<open>VarNode\<close> and its bytes are appended.\<close>

fun build_loop :: "u128 list \<Rightarrow> u8 list \<Rightarrow> u8 list outcome" where
  "build_loop [] vec = Value vec"
| "build_loop (child # children) vec =
     bind_outcome (var_u128_from child) (\<lambda>var.
     bind_outcome (var_uint_as_bytes var) (\<lambda>bytes. build_loop children (vec @ bytes)))"

definition build ::
  "object_identifier_root \<Rightarrow> u8 \<Rightarrow> u128 list
     \<Rightarrow> (object_identifier_error + object_identifier) outcome" where
  "build root first children =
     (if first > 40 then Value (Inl IllegalFirstChildNode)
      else bind_outcome (build_loop children [root_as_u8 root * 40 + first])
             (\<lambda>vec. Value (Inr \<lparr>oid_nodes = vec\<rparr>)))"

definition oid_root :: "object_identifier \<Rightarrow> (object_identifier_error + object_identifier_root) outcome" where
  "oid_root self = bind_outcome (index_get (oid_nodes self) 0) (\<lambda>b. Value (root_try_from (b div 40)))"

definition first_node :: "object_identifier \<Rightarrow> u8 outcome" where
  "first_node self = bind_outcome (index_get (oid_nodes self) 0) (\<lambda>b. Value (b mod 40))"

definition child_nodes :: "object_identifier \<Rightarrow> u8 list outcome" where
  "child_nodes self = slice (oid_nodes self) 1 (length (oid_nodes self))"

definition oid_as_bytes :: "object_identifier \<Rightarrow> u8 list" where
  "oid_as_bytes self = oid_nodes self"

definition parse_u8 :: "string \<Rightarrow> u8 option" where
  "parse_u8 s = map_option of_nat (parse_uint 255 s)"

definition parse_u128 :: "string \<Rightarrow> u128 option" where
  "parse_u128 s = map_option of_nat (parse_uint (2 ^ 128 - 1) s)"

definition parse_string_first_node :: "string \<Rightarrow> object_identifier_error + u8" where
  "parse_string_first_node s =
     (case parse_u8 s of None \<Rightarrow> Inl IllegalFirstChildNode
      | Some n \<Rightarrow> if n > 39 then Inl IllegalFirstChildNode else Inr n)"

fun parse_children :: "string list \<Rightarrow> u128 list \<Rightarrow> object_identifier_error + u128 list" where
  "parse_children [] children = Inr children"
| "parse_children (n # ns) children =
     (case parse_u128 n of Some c \<Rightarrow> parse_children ns (children @ [c])
      | None \<Rightarrow> Inl IllegalChildNodeValue)"

definition oid_from_str :: "string \<Rightarrow> (object_identifier_error + object_identifier) outcome" where
  "oid_from_str value =
     (let nodes = split_on CHR ''.'' value in
      case Option.bind (parse_u8 (hd nodes)) (\<lambda>n. ok_of (root_try_from n)) of
        None \<Rightarrow> Value (Inl IllegalRootNode)
      | Some root \<Rightarrow>
          (case tl nodes of
             [] \<Rightarrow> Value (Inl IllegalFirstChildNode)
           | n # ns \<Rightarrow>
               (case ok_of (parse_string_first_node n) of
                  None \<Rightarrow> Value (Inl IllegalFirstChildNode)
                | Some first \<Rightarrow>
                    (case parse_children ns [] of
                       Inl e \<Rightarrow> Value (Inl e)
                     | Inr children \<Rightarrow> build root first children))))"

text \<open>
  The \<open>for\<close> loop of \<open>convert_to_string\<close>.  The sum stays in range: after the shift the
  seven low bits of \<open>big_int\<close> are zero.
\<close>

fun convert_to_string_loop ::
  "u8 list \<Rightarrow> bool \<Rightarrow> u128 \<Rightarrow> string \<Rightarrow> object_identifier_error + string" where
  "convert_to_string_loop [] parsing_big_int big_int out = Inr out"
| "convert_to_string_loop (b # bs) parsing_big_int big_int out =
     (if \<not> parsing_big_int \<and> b < 128 then
        let out' = out @ ''.'' @ show_nat (unat b) in
        if big_int > 0 \<and> \<not> parsing_big_int
        then convert_to_string_loop bs parsing_big_int 0 (out' @ ''.'' @ show_nat (unat big_int))
        else convert_to_string_loop bs parsing_big_int big_int out'
      else if big_int > 0 \<and> big_int \<ge> drop_bit 7 (- 1) then Inl IllegalChildNodeValue
      else
        let shifted = (if big_int > 0 then push_bit 7 big_int else big_int);
            big_int' = shifted + ucast (b AND NOT 0x80);
            parsing' = (b AND 0x80 \<noteq> 0)
        in if big_int' > 0 \<and> \<not> parsing'
           then convert_to_string_loop bs parsing' 0 (out @ ''.'' @ show_nat (unat big_int'))
           else convert_to_string_loop bs parsing' big_int' out)"

definition convert_to_string :: "u8 list \<Rightarrow> (object_identifier_error + string) outcome" where
  "convert_to_string nodes =
     (case nodes of [] \<Rightarrow> Panic
      | b # bs \<Rightarrow>
          Value (convert_to_string_loop bs False 0
                   (show_nat (unat (b div 40)) @ ''.'' @ show_nat (unat (b mod 40)))))"

text \<open>\<open>Into<String>\<close>: \<open>expect\<close> panics when the conversion fails.\<close>

definition oid_into_string :: "object_identifier \<Rightarrow> string outcome" where
  "oid_into_string self =
     bind_outcome (convert_to_string (oid_nodes self))
       (\<lambda>r. case r of Inr s \<Rightarrow> Value s | Inl e \<Rightarrow> Panic)"

text \<open>
  Serde: the human readable form is the text, the other form the bytes.  A
  visitor error names what was unexpected and what was expected.
\<close>

fun oid_error_text :: "object_identifier_error \<Rightarrow> string" where
  "oid_error_text IllegalRootNode = ''illegal root node''"
| "oid_error_text IllegalFirstChildNode = ''illegal first child node''"
| "oid_error_text IllegalChildNodeValue = ''illegal child node value''"

definition oid_visit_bytes :: "u8 list \<Rightarrow> (string \<times> string) + object_identifier" where
  "oid_visit_bytes v =
     map_sum (\<lambda>err. (oid_error_text err, ''a valid buffer representing an OID'')) (\<lambda>oid. oid) (from_box v)"

definition oid_visit_str :: "string \<Rightarrow> ((string \<times> string) + object_identifier) outcome" where
  "oid_visit_str v = bind_outcome (oid_from_str v) (\<lambda>r.
     Value (map_sum (\<lambda>err. (oid_error_text err, ''a string representing an OID'')) (\<lambda>oid. oid) r))"

definition oid_serialize :: "bool \<Rightarrow> object_identifier \<Rightarrow> (string + u8 list) outcome" where
  "oid_serialize is_human_readable self =
     (if is_human_readable then bind_outcome (oid_into_string self) (\<lambda>encoded. Value (Inl encoded))
      else Value (Inr (oid_as_bytes self)))"

text \<open>Reading asks the format which of the two forms it has.\<close>

definition oid_deserialize :: "string + u8 list \<Rightarrow> ((string \<times> string) + object_identifier) outcome" where
  "oid_deserialize data = (case data of Inl v \<Rightarrow> oid_visit_str v | Inr v \<Rightarrow> Value (oid_visit_bytes v))"

definition oid_display :: "object_identifier \<Rightarrow> string outcome" where
  "oid_display self = oid_into_string self"

text \<open>The conversions from texts and from bytes, and back to bytes.\<close>

definition oid_from_string :: "string \<Rightarrow> (object_identifier_error + object_identifier) outcome" where
  "oid_from_string value = oid_from_str value"

definition oid_try_from_bytes :: "u8 list \<Rightarrow> object_identifier_error + object_identifier" where
  "oid_try_from_bytes value = from_box value"

definition oid_into_vec :: "object_identifier \<Rightarrow> u8 list" where
  "oid_into_vec self = oid_nodes self"

text \<open>An archived identifier is the vector of its bytes, which nothing checks when it is read.\<close>

fun oid_error_debug :: "object_identifier_error \<Rightarrow> string" where
  "oid_error_debug IllegalRootNode = ''IllegalRootNode''"
| "oid_error_debug IllegalFirstChildNode = ''IllegalFirstChildNode''"
| "oid_error_debug IllegalChildNodeValue = ''IllegalChildNodeValue''"

definition oid_resolve :: "object_identifier \<Rightarrow> u8 list" where
  "oid_resolve self = oid_nodes self"

definition archived_oid_debug :: "u8 list \<Rightarrow> string outcome" where
  "archived_oid_debug archived =
     bind_outcome (convert_to_string archived) (\<lambda>r.
       Value (case r of Inr s \<Rightarrow> s | Inl e \<Rightarrow> ''Invalid OID: '' @ oid_error_debug e))"

definition archived_oid_serialize :: "bool \<Rightarrow> u8 list \<Rightarrow> (string + u8 list) outcome" where
  "archived_oid_serialize is_human_readable archived =
     (if is_human_readable
      then bind_outcome (convert_to_string archived) (\<lambda>r. case r of Inr encoded \<Rightarrow> Value (Inl encoded) | Inl e \<Rightarrow> Panic)
      else Value (Inr archived))"

declare convert_to_string_loop.simps(2) [simp del] from_box_loop.simps(2) [simp del]

subsection \<open>Bytes\<close>

lemma not_cont [simp]: "(- 129 :: u8) = 0x7f"
  by simp

lemma cont_byte:
  assumes "k < 128"
  shows "\<not> (of_nat k OR 0x80 :: u8) < 128"
    and "(of_nat k OR 0x80 :: u8) AND 0x80 \<noteq> 0"
    and "ucast ((of_nat k OR 0x80 :: u8) AND 0x7f) = (of_nat k :: 'a::len word)"
proof -
  have "(of_nat k OR 0x80 :: u8) AND 0x80 = 0x80" by simp
  then have "(0x80 :: u8) \<le> of_nat k OR 0x80" by (metis word_and_le2)
  then show "\<not> (of_nat k OR 0x80 :: u8) < 128" by simp
  show "(of_nat k OR 0x80 :: u8) AND 0x80 \<noteq> 0" by simp
  show "ucast ((of_nat k OR 0x80 :: u8) AND 0x7f) = (of_nat k :: 'a word)"
    by (metis assms of_nat_unat unat_low7_of_nat)
qed

lemma last_byte:
  assumes "k < 128"
  shows "(of_nat k :: u8) < 128" and "(of_nat k :: u8) AND 0x80 = 0"
    and "ucast ((of_nat k :: u8) AND 0x7f) = (of_nat k :: 'a::len word)"
    and "unat (of_nat k :: u8) = k"
proof -
  show "unat (of_nat k :: u8) = k" using assms by (simp add: unat_of_nat)
  then show "(of_nat k :: u8) < 128" using assms by (simp add: word_less_nat_alt)
  show "(of_nat k :: u8) AND 0x80 = 0" using assms by (rule of_nat_low7_no_cont)
  show "ucast ((of_nat k :: u8) AND 0x7f) = (of_nat k :: 'a word)"
    using unat_low7_of_nat [OF assms, of 0] by (metis of_nat_unat or.right_neutral)
qed

lemma big_int_facts:
  assumes "m < 2 ^ 121"
  shows "(of_nat m :: u128) > 0 \<longleftrightarrow> 0 < m"
    and "(of_nat m :: u128) \<ge> drop_bit 7 (- 1) \<longleftrightarrow> 2 ^ 121 - 1 \<le> m"
    and "push_bit 7 (of_nat m :: u128) = of_nat (m * 128)"
proof -
  have m: "unat (of_nat m :: u128) = m" using assms by (simp add: unat_of_nat)
  then show "(of_nat m :: u128) > 0 \<longleftrightarrow> 0 < m" by (simp add: word_less_nat_alt)
  have "unat (drop_bit 7 (- 1) :: u128) = 2 ^ 121 - 1"
    by (simp add: unat_drop_bit_eq unsigned_minus_1_eq_mask drop_bit_mask_eq mask_eq_exp_minus_1)
  with m show "(of_nat m :: u128) \<ge> drop_bit 7 (- 1) \<longleftrightarrow> 2 ^ 121 - 1 \<le> m"
    by (simp only: word_le_nat_alt)
  show "push_bit 7 (of_nat m :: u128) = of_nat (m * 128)" by (simp add: push_bit_eq_mult)
qed

subsection \<open>The scanners on encoded children\<close>

lemma to_string_cont_byte:
  assumes "k < 128" "m < 2 ^ 121 - 1"
  shows "convert_to_string_loop ((of_nat k OR 0x80) # bs) p (of_nat m) out =
         convert_to_string_loop bs True (of_nat (m * 128 + k)) out"
  using assms cont_byte(1,2) [OF assms(1)] cont_byte(3) [OF assms(1), where ?'a = 128] big_int_facts [of m]
  by (cases "m = 0") (simp_all add: convert_to_string_loop.simps(2) Let_def)

lemma to_string_last_byte:
  assumes "k < 128" "0 < m" "m < 2 ^ 121"
  shows "convert_to_string_loop (of_nat k # bs) True (of_nat m) out =
         (if m < 2 ^ 121 - 1
          then convert_to_string_loop bs False 0 (out @ ''.'' @ show_nat (m * 128 + k))
          else Inl IllegalChildNodeValue)"
proof -
  have "m * 128 + k < 2 ^ 128" using assms by simp
  then have n: "unat (of_nat (m * 128 + k) :: u128) = m * 128 + k" by (simp only: unat_of_nat) simp
  then have "(of_nat (m * 128 + k) :: u128) > 0" using assms by (simp only: word_less_nat_alt) simp
  with n show ?thesis
    using assms last_byte(1,2,4) [OF assms(1)] last_byte(3) [OF assms(1), where ?'a = 128]
      big_int_facts [OF assms(3)]
    by (simp add: convert_to_string_loop.simps(2) Let_def)
qed

lemma to_string_prefix:
  "n < 2 ^ 121 \<Longrightarrow> convert_to_string_loop (vlq n 0x80 @ bs) False 0 out =
                 convert_to_string_loop bs True (of_nat n) out"
proof (induction n arbitrary: bs rule: less_induct)
  case (less n)
  show ?case
  proof (cases "n < 128")
    case True
    then show ?thesis using to_string_cont_byte [of n 0] by (simp add: vlq.simps [of n])
  next
    case False
    then have "n div 128 < n" "n div 128 < 2 ^ 121 - 1" using less.prems by auto
    then show ?thesis
      using less.IH [of "n div 128"] to_string_cont_byte [of "n mod 128" "n div 128"] False
      by (simp add: vlq.simps [of n])
  qed
qed

text \<open>The first child value the scanners refuse.\<close>

definition child_limit :: nat where
  "child_limit = 2 ^ 128 - 128"

lemma to_string_child:
  assumes "c < 2 ^ 128"
  shows "convert_to_string_loop (vlq c 0 @ bs) False 0 out =
         (if c < child_limit then convert_to_string_loop bs False 0 (out @ ''.'' @ show_nat c)
          else Inl IllegalChildNodeValue)"
proof (cases "c < 128")
  case True
  then show ?thesis
    using last_byte [OF True] by (simp add: vlq.simps [of c] child_limit_def convert_to_string_loop.simps(2))
next
  case False
  let ?m = "c div 128"
  have m: "0 < ?m" "?m < 2 ^ 121" "?m < 2 ^ 121 - 1 \<longleftrightarrow> c < child_limit"
    using False assms by (auto simp: child_limit_def)
  have "convert_to_string_loop (vlq c 0 @ bs) False 0 out =
        convert_to_string_loop (of_nat (c mod 128) # bs) True (of_nat ?m) out"
    using False to_string_prefix [OF m(2)] by (simp add: vlq.simps [of c])
  also have "\<dots> = (if c < child_limit
                  then convert_to_string_loop bs False 0 (out @ ''.'' @ show_nat c)
                  else Inl IllegalChildNodeValue)"
    using to_string_last_byte [of "c mod 128" ?m] m by simp
  finally show ?thesis .
qed

lemma to_string_children:
  "\<forall>c\<in>set cs. c < child_limit \<Longrightarrow>
   convert_to_string_loop (concat (map (\<lambda>c. vlq c 0) cs)) False 0 out =
   Inr (out @ concat (map (\<lambda>c. ''.'' @ show_nat c) cs))"
proof (induction cs arbitrary: out)
  case (Cons c cs)
  then have "c < 2 ^ 128" by (simp add: child_limit_def)
  then show ?case using Cons to_string_child [of c] by simp
qed simp

lemma to_string_children_reject:
  "\<lbrakk>\<forall>c\<in>set cs. c < 2 ^ 128; \<exists>c\<in>set cs. child_limit \<le> c\<rbrakk> \<Longrightarrow>
   convert_to_string_loop (concat (map (\<lambda>c. vlq c 0) cs)) False 0 out = Inl IllegalChildNodeValue"
  by (induction cs arbitrary: out) (auto simp: to_string_child)

text \<open>\<open>from_box\<close> scans the bytes as the printer does and accepts exactly what it can print.\<close>

lemma shifted_or_low:
  "push_bit 7 big OR ucast (b AND 0x7f :: u8) = push_bit 7 big + (ucast (b AND 0x7f) :: u128)"
proof -
  have low: "n < 7" if "bit (ucast (b AND 0x7f) :: u128) n" for n
    using that by (auto simp: and_low7 bit_simps)
  show ?thesis by (intro disjunctive_add [symmetric]) (auto simp: bit_push_bit_iff dest: low)
qed

lemma from_box_loop_to_string:
  "map_sum (\<lambda>e. e) (\<lambda>_. ()) (convert_to_string_loop bs p big out) = from_box_loop bs p big"
proof (induction bs arbitrary: p big out)
  case (Cons b bs)
  show ?case
    by (cases "big = 0")
       (simp_all add: from_box_loop.simps(2) convert_to_string_loop.simps(2) Let_def
          shifted_or_low Cons.IH word_gt_0)
qed simp

subsection \<open>Building, printing and parsing\<close>

definition oid_text :: "object_identifier_root \<Rightarrow> u8 \<Rightarrow> u128 list \<Rightarrow> string" where
  "oid_text root first children =
     join_with CHR ''.'' (root_into_string root # show_nat (unat first) # map (show_nat \<circ> unat) children)"

lemma build_loop_vlq:
  "build_loop cs vec = Value (vec @ concat (map (\<lambda>c. vlq (unat c) 0) cs))"
proof (induction cs arbitrary: vec)
  case (Cons c cs)
  obtain v where "var_u128_from c = Value v" "var_uint_as_bytes v = Value (vlq (unat c) 0)"
    using var_u128.encode_returns [of c] by (auto simp: var_u128_from_def)
  then show ?case using Cons.IH by simp
qed simp

lemma build_nodes:
  "first \<le> 40 \<Longrightarrow> build root first cs =
     Value (Inr \<lparr>oid_nodes = (root_as_u8 root * 40 + first) # concat (map (\<lambda>c. vlq c 0) (map unat cs))\<rparr>)"
  by (simp add: build_def build_loop_vlq comp_def not_less [symmetric])

lemma join_with_concat: "join_with s (p # ps) = p @ concat (map (\<lambda>q. s # q) ps)"
  by (induction ps arbitrary: p) (auto simp: join_with_Cons)

lemma head_byte:
  assumes "first \<le> 39"
  shows "(root_as_u8 root * 40 + first) div 40 = root_as_u8 root"
    and "(root_as_u8 root * 40 + first) mod 40 = first"
proof -
  have f: "unat first \<le> 39" using assms by (simp add: word_le_nat_alt)
  have r: "unat (root_as_u8 root) \<le> 2" by (cases root) simp_all
  have "unat (root_as_u8 root * 40 + first) = unat (root_as_u8 root) * 40 + unat first"
    using f r by (simp add: unat_word_ariths)
  with f show "(root_as_u8 root * 40 + first) div 40 = root_as_u8 root"
    and "(root_as_u8 root * 40 + first) mod 40 = first"
    by (simp_all add: word_unat_eq_iff unat_div unat_mod)
qed

lemma root_try_from_as_u8 [simp]: "root_try_from (root_as_u8 root) = Inr root"
  by (cases root) (simp_all add: root_try_from_def)

lemma unat_u8_le: "unat (x :: u8) \<le> 255"
proof -
  have "unat x < 2 ^ LENGTH(8)" by (rule unsigned_less)
  then show ?thesis by simp
qed

lemma unat_u128_less: "unat (x :: u128) < 2 ^ 128"
proof -
  have "unat x < 2 ^ LENGTH(128)" by (rule unsigned_less)
  then show ?thesis by simp
qed

lemma unat_u128_le: "unat (x :: u128) \<le> 2 ^ 128 - 1"
  using unat_u128_less [of x] by simp

lemma parse_u8_show [simp]: "parse_u8 (show_nat (unat x)) = Some x"
  by (simp add: parse_u8_def parse_uint_show [OF unat_u8_le])

lemma parse_u128_show [simp]: "parse_u128 (show_nat (unat x)) = Some x"
  unfolding parse_u128_def by (subst parse_uint_show [OF unat_u128_le]) simp

lemma parse_children_show: "parse_children (map (show_nat \<circ> unat) cs) acc = Inr (acc @ cs)"
  by (induction cs arbitrary: acc) simp_all

lemma from_str_text: "first \<le> 39 \<Longrightarrow> oid_from_str (oid_text root first cs) = build root first cs"
proof -
  assume "first \<le> 39"
  moreover have "split_on CHR ''.'' (oid_text root first cs) =
      root_into_string root # show_nat (unat first) # map (show_nat \<circ> unat) cs"
    unfolding oid_text_def by (rule split_join) (auto simp: root_into_string_def)
  ultimately show ?thesis
    by (simp add: oid_from_str_def root_into_string_def parse_string_first_node_def
          parse_children_show not_less [symmetric])
qed

lemma from_box_built:
  fixes cs :: "u128 list" and root :: object_identifier_root
  assumes "first \<le> 39"
  defines "nodes \<equiv> (root_as_u8 root * 40 + first) # concat (map (\<lambda>c. vlq c 0) (map unat cs))"
  shows "from_box nodes = (if \<forall>c\<in>set cs. unat c < child_limit then Inr \<lparr>oid_nodes = nodes\<rparr>
                           else Inl IllegalChildNodeValue)" (is ?box)
    and "oid_into_string \<lparr>oid_nodes = nodes\<rparr> =
           (if \<forall>c\<in>set cs. unat c < child_limit then Value (oid_text root first cs) else Panic)" (is ?str)
proof -
  let ?tail = "concat (map (\<lambda>c. vlq c 0) (map unat cs))"
  let ?ok = "\<forall>c\<in>set (map unat cs). c < child_limit"
  have le: "\<forall>c\<in>set (map unat cs). c < 2 ^ 128"
    using unat_u128_less by auto
  have str: "convert_to_string_loop ?tail False 0 out =
      (if ?ok then Inr (out @ concat (map (\<lambda>c. ''.'' @ show_nat c) (map unat cs)))
       else Inl IllegalChildNodeValue)" for out
    using to_string_children [of "map unat cs" out] to_string_children_reject [OF le, of out]
    by (auto simp del: map_map simp: not_less)
  have box: "from_box_loop ?tail False 0 = (if ?ok then Inr () else Inl IllegalChildNodeValue)"
    by (subst from_box_loop_to_string [symmetric, of _ _ _ "[]"], subst str) simp
  show ?box using head_byte [OF assms(1), of root] box by (simp add: nodes_def from_box_def)
  show ?str using head_byte [OF assms(1), of root] str
    by (simp add: nodes_def oid_into_string_def convert_to_string_def oid_text_def join_with_concat
          root_into_string_def comp_def)
qed

subsection \<open>Properties\<close>



text \<open>An identifier that \<open>from_box\<close> accepts can always be printed: the \<open>expect\<close> of the
  conversion to a string does not fire on it.\<close>

theorem from_box_printable:
  "from_box nodes = Inr oid \<Longrightarrow> oid_nodes oid = nodes \<and> (\<exists>s. oid_into_string oid = Value s)"
proof -
  assume ok: "from_box nodes = Inr oid"
  then obtain b bs where n: "nodes = b # bs" "from_box_loop bs False 0 = Inr ()" "oid_nodes oid = nodes"
    by (cases nodes) (auto simp: from_box_def outcome_simps)
  let ?out = "show_nat (unat (b div 40)) @ ''.'' @ show_nat (unat (b mod 40))"
  obtain s where "convert_to_string_loop bs False 0 ?out = Inr s"
    using from_box_loop_to_string [of bs False 0 ?out] n(2)
    by (cases "convert_to_string_loop bs False 0 ?out") auto
  then show ?thesis using n by (simp add: oid_into_string_def convert_to_string_def)
qed

theorem from_box_printable_witness:
  "\<exists>s. oid_into_string \<lparr>oid_nodes = [43, 0x81, 0x00, 5]\<rparr> = Value s"
proof -
  have "from_box [43, 0x81, 0x00, 5] = Inr \<lparr>oid_nodes = [43, 0x81, 0x00, 5]\<rparr>" by code_simp
  from from_box_printable [OF this] show ?thesis by blast
qed

text \<open>At the top of the range the constructors and the scanners disagree: a dotted text with a
  child of \<open>2 ^ 128 - 128\<close> or more parses to an identifier that \<open>from_box\<close> refuses and whose
  conversion to a string panics.\<close>

theorem oid_top_children_panic:
  assumes "first \<le> 39" "\<exists>c\<in>set children. child_limit \<le> unat c"
  shows "\<exists>oid. oid_from_str (oid_text root first children) = Value (Inr oid) \<and>
    from_box (oid_nodes oid) = Inl IllegalChildNodeValue \<and> oid_into_string oid = Panic"
proof -
  have "first \<le> 40" using assms(1) by (rule order_trans) simp
  then show ?thesis
    using assms from_box_built [OF assms(1), of root children]
    by (auto simp: from_str_text build_nodes not_less [symmetric])
qed

theorem oid_top_children_panic_witness:
  "\<exists>oid. oid_from_str (oid_text Iso 3 [0xffffffffffffffffffffffffffffffff]) = Value (Inr oid) \<and> oid_into_string oid = Panic"
  using oid_top_children_panic [of 3 "[0xffffffffffffffffffffffffffffffff]" Iso] by (auto simp: child_limit_def)

text \<open>\<open>build\<close> accepts a first node of 40, which is the encoding of the next root.\<close>

lemma first_node_40_collides: "build ItuT 40 cs = build Iso 0 cs \<and> build Iso 40 cs = build JointIsoItuT 0 cs"
  by (simp add: build_nodes)

text \<open>Serde: both forms of a built identifier read back to it, and its archived form is written as it is itself.\<close>

lemma oid_serde_round_trip:
  assumes "first \<le> 39" "\<forall>c\<in>set children. unat c < child_limit" "build root first children = Value (Inr oid)"
  shows "\<exists>data. oid_serialize human oid = Value data \<and> archived_oid_serialize human (oid_resolve oid) = Value data \<and>
    oid_deserialize data = Value (Inr oid)"
proof -
  have "first \<le> 40" using assms(1) by (rule order_trans) simp
  then have "from_box (oid_nodes oid) = Inr oid" "oid_into_string oid = Value (oid_text root first children)"
      "oid_from_str (oid_text root first children) = Value (Inr oid)"
    using assms from_box_built [OF assms(1), of root children] by (auto simp: from_str_text build_nodes)
  moreover from this(2) have "convert_to_string (oid_nodes oid) = Value (Inr (oid_text root first children))"
    by (cases "convert_to_string (oid_nodes oid)") (auto simp: oid_into_string_def split: sum.splits)
  ultimately show ?thesis
    by (cases human) (simp_all add: oid_serialize_def archived_oid_serialize_def oid_resolve_def oid_deserialize_def
        oid_visit_str_def oid_visit_bytes_def oid_as_bytes_def)
qed

text \<open>Showing an archived identifier for debugging reports bytes that are none, except that an empty vector panics.\<close>

lemma archived_oid_debug_total: "archived_oid_debug archived = Panic \<longleftrightarrow> archived = []"
  by (cases archived) (simp_all add: archived_oid_debug_def convert_to_string_def)

end
