(* ===== verification/Permissions.thy ===== *)
theory Permissions
  imports Prelude
begin

text \<open>
  \<open>bffhd/authorization/permissions.rs\<close>: permission strings, their partial order and
  the permission rules of the roles.  A permission is a path with dots between
  its parts; the order compares two paths part by part and a path is greater
  than every path below it.

  \<open>rust_partial_ord\<close> is the contract of \<open>std::cmp::PartialOrd\<close>; \<open>partial_cmp\<close> of
  permissions interprets it.  The rules are shown to match exactly the paths
  their documentation names, and the two printers and the parser are compared.
\<close>

subsection \<open>The code\<close>

definition is_sep_char :: "char \<Rightarrow> bool" where
  "is_sep_char c \<longleftrightarrow> c = CHR ''.''"

type_synonym permission = string

record permission_buf =
  inner :: string

record privileges_buf =
  priv_disclose :: permission_buf
  priv_read :: permission_buf
  priv_write :: permission_buf
  priv_manage :: permission_buf

definition permission_buf_new :: permission_buf where
  "permission_buf_new = \<lparr>inner = []\<rparr>"

definition from_string_unchecked :: "string \<Rightarrow> permission_buf" where
  "from_string_unchecked s = \<lparr>inner = s\<rparr>"

definition from_perm :: "permission \<Rightarrow> permission_buf" where
  "from_perm perm = \<lparr>inner = perm\<rparr>"

definition into_string :: "permission_buf \<Rightarrow> string" where
  "into_string self = inner self"

definition perm_is_empty :: "permission_buf \<Rightarrow> bool" where
  "perm_is_empty self \<longleftrightarrow> inner self = []"

definition as_permission :: "permission_buf \<Rightarrow> permission" where
  "as_permission self = inner self"

definition perm_push :: "permission_buf \<Rightarrow> permission \<Rightarrow> permission_buf" where
  "perm_push self perm =
     (let need_sep = (case rev (inner self) of [] \<Rightarrow> False | c # _ \<Rightarrow> \<not> is_sep_char c);
          s = (if need_sep then inner self @ ''.'' else inner self)
      in \<lparr>inner = s @ perm\<rparr>)"

definition perm_iter :: "permission \<Rightarrow> string list" where
  "perm_iter self = split_on CHR ''.'' self"

datatype ordering = Less | Equal | Greater

text \<open>The loop over both part iterators and the match on what is left of them.\<close>

fun partial_cmp_parts :: "string list \<Rightarrow> string list \<Rightarrow> ordering option" where
  "partial_cmp_parts (l # i) (r # j) = (if l \<noteq> r then None else partial_cmp_parts i j)"
| "partial_cmp_parts [] [] = Some Equal"
| "partial_cmp_parts (l # i) [] = Some Less"
| "partial_cmp_parts [] (r # j) = Some Greater"

definition perm_partial_cmp :: "permission \<Rightarrow> permission \<Rightarrow> ordering option" where
  "perm_partial_cmp self other = partial_cmp_parts (perm_iter self) (perm_iter other)"

definition permission_buf_partial_cmp :: "permission_buf \<Rightarrow> permission_buf \<Rightarrow> ordering option" where
  "permission_buf_partial_cmp self other = perm_partial_cmp (as_permission self) (as_permission other)"

text \<open>The operators \<open>>\<close> and \<open>>=\<close> that \<open>PartialOrd\<close> derives from \<open>partial_cmp\<close>.\<close>

definition perm_gt :: "permission \<Rightarrow> permission \<Rightarrow> bool" where
  "perm_gt a b \<longleftrightarrow> perm_partial_cmp a b = Some Greater"

definition perm_ge :: "permission \<Rightarrow> permission \<Rightarrow> bool" where
  "perm_ge a b \<longleftrightarrow> perm_partial_cmp a b \<in> {Some Greater, Some Equal}"

datatype perm_rule = Base permission_buf | Children permission_buf | Subtree permission_buf

fun match_perm :: "perm_rule \<Rightarrow> permission \<Rightarrow> bool" where
  "match_perm (Base base) perm \<longleftrightarrow> as_permission base = perm"
| "match_perm (Children parent) perm \<longleftrightarrow> perm_gt (as_permission parent) perm"
| "match_perm (Subtree parent) perm \<longleftrightarrow> perm_ge (as_permission parent) perm"

fun perm_rule_fmt :: "perm_rule \<Rightarrow> string" where
  "perm_rule_fmt (Base perm) = inner perm"
| "perm_rule_fmt (Children parent) = inner parent @ ''.+''"
| "perm_rule_fmt (Subtree parent) = inner parent @ ''.*''"

fun perm_rule_into_string :: "perm_rule \<Rightarrow> string" where
  "perm_rule_into_string (Base perm) = into_string perm"
| "perm_rule_into_string (Children perm) = into_string (perm_push perm ''+'')"
| "perm_rule_into_string (Subtree perm) = into_string (perm_push perm ''+'')"

definition perm_rule_try_from :: "string \<Rightarrow> (string + perm_rule) outcome" where
  "perm_rule_try_from input =
     (let len = length input in
      if len \<le> 2 then Value (Inl ''Input string for PermRule is too short'')
      else bind_outcome (str_slice input (len - 2) len) (\<lambda>tail.
        if tail = ''.+'' then Value (Inr (Children (from_string_unchecked (take (len - 2) input))))
        else if tail = ''.*'' then Value (Inr (Subtree (from_string_unchecked (take (len - 2) input))))
        else Value (Inr (Base (from_string_unchecked input)))))"

subsection \<open>The contract of a partial order\<close>

locale rust_partial_ord =
  fixes cmp :: "'a \<Rightarrow> 'a \<Rightarrow> ordering option"
  assumes cmp_eq: "cmp a b = Some Equal \<longleftrightarrow> a = b"
    and cmp_dual: "cmp a b = Some Less \<longleftrightarrow> cmp b a = Some Greater"
    and cmp_trans: "\<lbrakk>cmp a b = Some Greater; cmp b c = Some Greater\<rbrakk> \<Longrightarrow> cmp a c = Some Greater"
begin

lemma cmp_irrefl: "cmp a a \<noteq> Some Greater"
  using cmp_eq [of a a] by simp

lemma cmp_asym: "cmp a b = Some Greater \<Longrightarrow> cmp b a \<noteq> Some Greater"
  using cmp_trans cmp_irrefl by blast

lemma ge_antisym:
  "\<lbrakk>cmp a b \<in> {Some Greater, Some Equal}; cmp b a \<in> {Some Greater, Some Equal}\<rbrakk> \<Longrightarrow> a = b"
  using cmp_asym cmp_eq by auto

lemma ge_trans:
  "\<lbrakk>cmp a b \<in> {Some Greater, Some Equal}; cmp b c \<in> {Some Greater, Some Equal}\<rbrakk>
     \<Longrightarrow> cmp a c \<in> {Some Greater, Some Equal}"
  using cmp_trans cmp_eq by (metis insert_iff singleton_iff)

end

subsection \<open>The order on paths\<close>

lemma partial_cmp_parts_Greater:
  "partial_cmp_parts xs ys = Some Greater \<longleftrightarrow> (\<exists>ts. ts \<noteq> [] \<and> ys = xs @ ts)"
  by (induction xs ys rule: partial_cmp_parts.induct) auto

lemma partial_cmp_parts_Equal: "partial_cmp_parts xs ys = Some Equal \<longleftrightarrow> xs = ys"
  by (induction xs ys rule: partial_cmp_parts.induct) auto

lemma partial_cmp_parts_Less: "partial_cmp_parts xs ys = Some Less \<longleftrightarrow> partial_cmp_parts ys xs = Some Greater"
  by (induction xs ys rule: partial_cmp_parts.induct) auto

lemma perm_partial_cmp_Greater:
  "perm_partial_cmp p q = Some Greater \<longleftrightarrow> (\<exists>r. q = p @ CHR ''.'' # r)"
  unfolding perm_partial_cmp_def perm_iter_def partial_cmp_parts_Greater split_on_prefix_iff ..

lemma perm_partial_cmp_Equal: "perm_partial_cmp p q = Some Equal \<longleftrightarrow> p = q"
  by (simp add: perm_partial_cmp_def perm_iter_def partial_cmp_parts_Equal split_on_inj)

lemma perm_partial_cmp_Less: "perm_partial_cmp p q = Some Less \<longleftrightarrow> perm_partial_cmp q p = Some Greater"
  by (simp add: perm_partial_cmp_def partial_cmp_parts_Less)

interpretation perm_ord: rust_partial_ord perm_partial_cmp
  by unfold_locales (auto simp: perm_partial_cmp_Equal perm_partial_cmp_Less perm_partial_cmp_Greater)

lemmas perm_order_defs = perm_gt_def perm_ge_def perm_partial_cmp_Greater perm_partial_cmp_Equal

lemma match_perm_Base [simp]: "match_perm (Base p) q \<longleftrightarrow> q = inner p"
  by (auto simp: as_permission_def)

lemma match_perm_Children [simp]: "match_perm (Children p) q \<longleftrightarrow> (\<exists>r. q = inner p @ CHR ''.'' # r)"
  by (simp add: perm_order_defs as_permission_def)

lemma match_perm_Subtree [simp]:
  "match_perm (Subtree p) q \<longleftrightarrow> q = inner p \<or> (\<exists>r. q = inner p @ CHR ''.'' # r)"
  by (auto simp: perm_order_defs as_permission_def)

declare match_perm.simps [simp del]

subsection \<open>Printing and parsing\<close>

lemma boundary_before_ascii:
  "(of_char c :: nat) < 128 \<Longrightarrow> is_char_boundary (p @ [c, d]) (length p)"
  by (simp add: is_char_boundary_def nth_append)

lemma try_from_suffix:
  "p \<noteq> [] \<Longrightarrow> perm_rule_try_from (p @ [CHR ''.'', d]) =
     Value (Inr (if d = CHR ''+'' then Children (from_string_unchecked p)
                 else if d = CHR ''*'' then Subtree (from_string_unchecked p)
                 else Base (from_string_unchecked (p @ [CHR ''.'', d]))))"
  by (cases p) (simp_all add: perm_rule_try_from_def str_slice_def slice_in boundary_before_ascii
                  is_char_boundary_def nth_append)

lemma into_string_push:
  "\<lbrakk>p \<noteq> []; last p \<noteq> CHR ''.''\<rbrakk> \<Longrightarrow> into_string (perm_push \<lparr>inner = p\<rparr> s) = p @ ''.'' @ s"
  by (cases p rule: rev_cases) (auto simp: into_string_def perm_push_def is_sep_char_def)

text \<open>The rules a text can denote: the parser takes a suffix for a rule and refuses short texts.\<close>

fun rule_ok :: "perm_rule \<Rightarrow> bool" where
  "rule_ok (Base p) \<longleftrightarrow> 2 < length (inner p) \<and> is_char_boundary (inner p) (length (inner p) - 2) \<and>
     drop (length (inner p) - 2) (inner p) \<notin> {''.+'', ''.*''}"
| "rule_ok (Children p) \<longleftrightarrow> inner p \<noteq> []"
| "rule_ok (Subtree p) \<longleftrightarrow> inner p \<noteq> []"

lemma str_slice_tail:
  "2 \<le> length s \<Longrightarrow> str_slice s (length s - 2) (length s) =
     (if is_char_boundary s (length s - 2) then Value (drop (length s - 2) s) else Panic)"
  by (simp add: str_slice_def slice_in) (simp add: is_char_boundary_def)

lemma append_tail: "drop n s = t \<Longrightarrow> take n s @ t = s"
  by (metis append_take_drop_id)

lemma try_from_base: "rule_ok (Base p) \<Longrightarrow> perm_rule_try_from (inner p) = Value (Inr (Base p))"
  by (auto simp: perm_rule_try_from_def str_slice_tail Let_def from_string_unchecked_def)

subsection \<open>Properties\<close>

text \<open>C9. A rule grants exactly the permissions its documentation names: \<open>Base\<close> the path itself,
  \<open>Children\<close> the paths strictly below it, \<open>Subtree\<close> both.  Strictly below means that the parts
  of the path are a proper prefix of the parts of the permission.\<close>

theorem match_perm_grants:
  "(match_perm (Base p) q \<longleftrightarrow> q = inner p) \<and>
   (match_perm (Children p) q \<longleftrightarrow> (\<exists>ts. ts \<noteq> [] \<and> perm_iter q = perm_iter (inner p) @ ts)) \<and>
   (match_perm (Subtree p) q \<longleftrightarrow> (\<exists>ts. perm_iter q = perm_iter (inner p) @ ts))"
proof -
  have ch: "match_perm (Children p) q \<longleftrightarrow> (\<exists>ts. ts \<noteq> [] \<and> perm_iter q = perm_iter (inner p) @ ts)"
    by (simp add: perm_iter_def split_on_prefix_iff)
  have "match_perm (Subtree p) q \<longleftrightarrow> q = inner p \<or> match_perm (Children p) q" by simp
  moreover have "q = inner p \<longleftrightarrow> perm_iter q = perm_iter (inner p)"
    by (simp add: perm_iter_def split_on_inj)
  ultimately have "match_perm (Subtree p) q \<longleftrightarrow> (\<exists>ts. perm_iter q = perm_iter (inner p) @ ts)"
    using ch by (metis append_Nil2)
  with ch show ?thesis by simp
qed

text \<open>Comparing permissions is a partial order: \<open>>=\<close> is reflexive, antisymmetric and
  transitive, and \<open>>\<close> is its strict part.\<close>

theorem permission_order:
  "perm_ge p p \<and> (perm_ge p q \<and> perm_ge q p \<longleftrightarrow> p = q) \<and>
   (perm_gt p q \<longleftrightarrow> perm_ge p q \<and> p \<noteq> q) \<and> {r. perm_ge q r} \<subseteq> {r. perm_ge p r} = perm_ge p q"
proof -
  have refl: "perm_ge p p" for p by (simp add: perm_ge_def perm_partial_cmp_Equal)
  have "perm_ge p q \<and> perm_ge q p \<longleftrightarrow> p = q"
    unfolding perm_ge_def using perm_ord.ge_antisym perm_partial_cmp_Equal by blast
  moreover have "perm_gt p q \<longleftrightarrow> perm_ge p q \<and> p \<noteq> q"
    unfolding perm_gt_def perm_ge_def using perm_ord.cmp_irrefl perm_partial_cmp_Equal by auto
  moreover have "perm_ge p q \<Longrightarrow> perm_ge q r \<Longrightarrow> perm_ge p r" for r
    unfolding perm_ge_def by (rule perm_ord.ge_trans)
  ultimately show ?thesis using refl by blast
qed

text \<open>C38. Parsing inverts \<open>Display\<close> on every rule a text can denote, and printing a parsed rule
  gives the text back.\<close>

theorem perm_rule_display_round_trip:
  "(rule_ok r \<longrightarrow> perm_rule_try_from (perm_rule_fmt r) = Value (Inr r)) \<and>
   (perm_rule_try_from s = Value (Inr r') \<longrightarrow> perm_rule_fmt r' = s)"
proof
  show "rule_ok r \<longrightarrow> perm_rule_try_from (perm_rule_fmt r) = Value (Inr r)"
    by (cases r) (simp_all add: try_from_suffix from_string_unchecked_def try_from_base)
  show "perm_rule_try_from s = Value (Inr r') \<longrightarrow> perm_rule_fmt r' = s"
    by (auto simp: perm_rule_try_from_def Let_def str_slice_tail from_string_unchecked_def
          split: if_splits intro: append_tail)
qed

theorem perm_rule_display_round_trip_witness:
  "perm_rule_try_from ''bffh.perm.*'' = Value (Inr (Subtree \<lparr>inner = ''bffh.perm''\<rparr>)) \<and>
   perm_rule_fmt (Subtree \<lparr>inner = ''bffh.perm''\<rparr>) = ''bffh.perm.*''"
  using perm_rule_display_round_trip
    [of "Subtree \<lparr>inner = ''bffh.perm''\<rparr>" "''bffh.perm.*''" "Subtree \<lparr>inner = ''bffh.perm''\<rparr>"]
  by simp

text \<open>C40. The serialised form of a subtree rule reads back as a children rule: the conversion into
  a string that serde uses appends a plus sign to both, so the rule no longer grants its own path.\<close>

theorem subtree_serialises_as_children:
  assumes "inner p \<noteq> []" "last (inner p) \<noteq> CHR ''.''"
  shows "perm_rule_try_from (perm_rule_into_string (Subtree p)) = Value (Inr (Children p)) \<and>
    match_perm (Subtree p) (inner p) \<and> \<not> match_perm (Children p) (inner p)"
  using assms into_string_push [of "inner p" "''+''"]
  by (cases p) (simp add: try_from_suffix from_string_unchecked_def)

theorem subtree_serialises_as_children_witness:
  "perm_rule_try_from (perm_rule_into_string (Subtree \<lparr>inner = ''lab.laser''\<rparr>)) =
     Value (Inr (Children \<lparr>inner = ''lab.laser''\<rparr>))"
  using subtree_serialises_as_children [of "\<lparr>inner = ''lab.laser''\<rparr>"] by simp

text \<open>Parsing a rule panics exactly when the text is longer than two bytes and its second but
  last byte continues a character: the slice is taken at a byte offset.\<close>

theorem perm_rule_try_from_panics:
  "perm_rule_try_from s = Panic \<longleftrightarrow>
     2 < length s \<and> 128 \<le> (of_char (s ! (length s - 2)) :: nat) \<and> (of_char (s ! (length s - 2)) :: nat) < 192"
proof (cases "2 < length s")
  case True
  then have "perm_rule_try_from s = Panic \<longleftrightarrow> \<not> is_char_boundary s (length s - 2)"
    by (auto simp: perm_rule_try_from_def Let_def str_slice_tail)
  with True show ?thesis by (auto simp: is_char_boundary_def)
qed (simp add: perm_rule_try_from_def Let_def)

end
