(* ===== verification/Roles.thy ===== *)
theory Roles
  imports Permissions
begin

text \<open>
  \<open>bffhd/authorization/roles.rs\<close>: the role table and the permission check of every
  request.  The check walks the roles of a user and their parents depth first and
  keeps a set of the roles already examined.

  A role enters that set only after its parents were walked, so the recursion is
  bounded by the table only when no role is its own ancestor.  The walk is
  modelled with the stack depth as fuel: \<open>None\<close> is an exhausted stack.  It is
  proved that the answer, when there is one, is whether some ancestor grants the
  permission; that a table without cycles always gives one; and that a
  user with a role on a cycle never gets a refusal.
\<close>

subsection \<open>The code\<close>

record role =
  parents :: "string list"
  permissions :: "perm_rule list"

definition role_new :: "string list \<Rightarrow> perm_rule list \<Rightarrow> role" where
  "role_new ps rules = \<lparr>parents = ps, permissions = rules\<rparr>"

type_synonym roles = "string \<rightharpoonup> role"

text \<open>\<open>Roles::new\<close> on the process wide cell: the first table stays.\<close>

definition roles_new :: "roles option \<Rightarrow> roles \<Rightarrow> roles option \<times> roles" where
  "roles_new cell table = (case cell of None \<Rightarrow> (Some table, table) | Some t \<Rightarrow> (Some t, t))"

definition roles_get :: "roles \<Rightarrow> string \<Rightarrow> role option" where
  "roles_get self roleid = self roleid"

definition roles_list :: "roles \<Rightarrow> string set" where
  "roles_list self = dom self"

fun tally_role :: "nat \<Rightarrow> roles \<Rightarrow> roles \<Rightarrow> string \<Rightarrow> roles option"
  and tally_parents :: "nat \<Rightarrow> roles \<Rightarrow> roles \<Rightarrow> string list \<Rightarrow> roles option" where
  "tally_role 0 self roles role_id = None"
| "tally_role (Suc n) self roles role_id =
     (case roles_get self role_id of
        None \<Rightarrow> Some roles
      | Some role \<Rightarrow>
          if roles role_id \<noteq> None then Some roles
          else map_option (\<lambda>roles'. roles'(role_id \<mapsto> role)) (tally_parents n self roles (parents role)))"
| "tally_parents n self roles [] = Some roles"
| "tally_parents n self roles (parent # ps) =
     Option.bind (tally_role n self roles parent) (\<lambda>roles'. tally_parents n self roles' ps)"

text \<open>\<open>collect_permrules\<close>: the map is iterated in no particular order, hence a set of rules.\<close>

definition collect_permrules :: "nat \<Rightarrow> roles \<Rightarrow> string list \<Rightarrow> perm_rule set option" where
  "collect_permrules n self user_roles =
     map_option (\<lambda>roleset. \<Union>role\<in>ran roleset. set (permissions role))
       (tally_parents n self Map.empty user_roles)"

fun permitted_tally :: "nat \<Rightarrow> roles \<Rightarrow> string set \<Rightarrow> string \<Rightarrow> permission \<Rightarrow> (bool \<times> string set) option"
  and permitted_parents ::
    "nat \<Rightarrow> roles \<Rightarrow> string set \<Rightarrow> string list \<Rightarrow> permission \<Rightarrow> (bool \<times> string set) option" where
  "permitted_tally 0 self roles role_id perm = None"
| "permitted_tally (Suc n) self roles role_id perm =
     (case roles_get self role_id of
        None \<Rightarrow> Some (False, roles)
      | Some role \<Rightarrow>
          if role_id \<in> roles then Some (False, roles)
          else if \<exists>perm_rule\<in>set (permissions role). match_perm perm_rule perm then Some (True, roles)
          else (case permitted_parents n self roles (parents role) perm of
                  None \<Rightarrow> None
                | Some (granted, roles') \<Rightarrow>
                    if granted then Some (True, roles') else Some (False, insert role_id roles')))"
| "permitted_parents n self roles [] perm = Some (False, roles)"
| "permitted_parents n self roles (parent # ps) perm =
     (case permitted_tally n self roles parent perm of
        None \<Rightarrow> None
      | Some (granted, roles') \<Rightarrow>
          if granted then Some (True, roles') else permitted_parents n self roles' ps perm)"

text \<open>\<open>is_permitted\<close> loops over the roles of the user exactly as the walk loops over parents.\<close>

definition is_permitted :: "nat \<Rightarrow> roles \<Rightarrow> string list \<Rightarrow> permission \<Rightarrow> bool option" where
  "is_permitted n self user_roles perm = map_option fst (permitted_parents n self {} user_roles perm)"

fun role_fmt :: "role \<Rightarrow> string" where
  "role_fmt self =
     ''parents:'' @ (if parents self = [] then '' []'' @ [CHR 0x0a]
       else CHR 0x0a # concat (map (\<lambda>p. ''  - '' @ p @ [CHR 0x0a]) (parents self)))
     @ ''permissions:'' @ (if permissions self = [] then '' []'' @ [CHR 0x0a]
       else CHR 0x0a # concat (map (\<lambda>p. ''  - '' @ perm_rule_fmt p @ [CHR 0x0a]) (permissions self)))"

subsection \<open>The specification\<close>

definition parent_rel :: "roles \<Rightarrow> (string \<times> string) set" where
  "parent_rel self = {(p, r). \<exists>role. self r = Some role \<and> p \<in> set (parents role)}"

text \<open>The permission is granted to a role when it or an ancestor has a matching rule.\<close>

inductive grants :: "roles \<Rightarrow> permission \<Rightarrow> string \<Rightarrow> bool" for self perm where
  direct: "\<lbrakk>self r = Some role; rule \<in> set (permissions role); match_perm rule perm\<rbrakk> \<Longrightarrow> grants self perm r"
| inherited: "\<lbrakk>self r = Some role; p \<in> set (parents role); grants self perm p\<rbrakk> \<Longrightarrow> grants self perm r"

inductive_simps grants_iff: "grants self perm r"

lemma roles_get_simp [simp]: "roles_get self r = self r"
  by (simp add: roles_get_def)

subsection \<open>An answer is the right answer\<close>

lemma permitted_correct:
  "\<lbrakk>permitted_tally n self seen r perm = Some (b, seen'); \<forall>x\<in>seen. \<not> grants self perm x\<rbrakk> \<Longrightarrow>
     (b \<longleftrightarrow> grants self perm r) \<and> (\<not> b \<longrightarrow> (\<forall>x\<in>seen'. \<not> grants self perm x))"
  "\<lbrakk>permitted_parents n self seen ps perm = Some (b, seen'); \<forall>x\<in>seen. \<not> grants self perm x\<rbrakk> \<Longrightarrow>
     (b \<longleftrightarrow> (\<exists>p\<in>set ps. grants self perm p)) \<and> (\<not> b \<longrightarrow> (\<forall>x\<in>seen'. \<not> grants self perm x))"
proof (induction n self seen r perm and n self seen ps perm arbitrary: b seen' and b seen'
       rule: permitted_tally_permitted_parents.induct)
  case (2 n self seen r perm)
  show ?case
  proof (cases "self r")
    case None
    then show ?thesis using 2(2,3) by (auto simp: grants_iff [of _ _ r])
  next
    case (Some role)
    show ?thesis
    proof (cases "r \<in> seen \<or> (\<exists>rule\<in>set (permissions role). match_perm rule perm)")
      case True
      then have "r \<in> seen \<and> \<not> b \<and> seen' = seen \<or> b \<and> grants self perm r"
        using 2(2) Some by (simp split: if_splits) (blast intro: grants.direct)
      then show ?thesis using 2(3) by blast
    next
      case False
      then obtain c s where ps: "permitted_parents n self seen (parents role) perm = Some (c, s)"
        and b: "b = c" "\<not> c \<longrightarrow> seen' = insert r s"
        using 2(2) Some by (auto split: option.splits if_splits)
      have r: "grants self perm r \<longleftrightarrow> (\<exists>p\<in>set (parents role). grants self perm p)"
        using False Some by (auto simp: grants_iff [of _ _ r])
      have "(c \<longleftrightarrow> (\<exists>p\<in>set (parents role). grants self perm p)) \<and> (\<not> c \<longrightarrow> (\<forall>x\<in>s. \<not> grants self perm x))"
        by (rule 2(1) [OF _ _ _ ps 2(3)]) (use Some False in auto)
      then show ?thesis using r b by (cases c) simp_all
    qed
  qed
next
  case (4 n self seen p ps perm)
  then obtain c s where t: "permitted_tally n self seen p perm = Some (c, s)"
    by (auto split: option.splits)
  have p: "c \<longleftrightarrow> grants self perm p" "\<not> c \<Longrightarrow> \<forall>x\<in>s. \<not> grants self perm x" using 4(1) [OF t 4(4)] by auto
  show ?case
  proof (cases c)
    case False
    then have "permitted_parents n self s ps perm = Some (b, seen')" using 4(3) t by simp
    note IH = 4(2) [OF t refl False this p(2) [OF False]]
    have "\<not> grants self perm p" using p(1) False by blast
    then show ?thesis using IH by (simp only: list.set insert_iff) blast
  next
    case True
    then have "b \<and> grants self perm p" using 4(3) t p(1) by simp
    then show ?thesis by simp
  qed
qed simp_all

lemma is_permitted_correct:
  "is_permitted n self rs perm = Some b \<Longrightarrow> b \<longleftrightarrow> (\<exists>r\<in>set rs. grants self perm r)"
proof -
  assume "is_permitted n self rs perm = Some b"
  then obtain s where "permitted_parents n self {} rs perm = Some (b, s)" by (auto simp: is_permitted_def)
  from permitted_correct(2) [OF this] show ?thesis by blast
qed

subsection \<open>The walk ends on tables without cycles\<close>

text \<open>A ranking of the table bounds the depth of the walk.\<close>

lemma permitted_enough_stack:
  assumes "\<And>p r. (p, r) \<in> parent_rel self \<Longrightarrow> rank p < (rank r :: nat)"
  shows "rank r < n \<Longrightarrow> permitted_tally n self seen r perm \<noteq> None"
    and "\<forall>p\<in>set ps. rank p < n \<Longrightarrow> permitted_parents n self seen ps perm \<noteq> None"
  using assms
proof (induction n self seen r perm and n self seen ps perm rule: permitted_tally_permitted_parents.induct)
  case (2 n self seen r perm)
  have "rank p < n" if "self r = Some role" "p \<in> set (parents role)" for p role
  proof -
    have "rank p < rank r" using that 2(3) by (auto simp: parent_rel_def)
    then show ?thesis using 2(2) by simp
  qed
  then have "permitted_parents n self seen (parents role) perm \<noteq> None"
    if "self r = Some role" "r \<notin> seen" "\<not> (\<exists>rule\<in>set (permissions role). match_perm rule perm)" for role
    using 2(1) [of role] 2(3) that by simp
  then show ?case
    by (cases "self r"; cases "r \<in> seen"; cases "\<exists>rule\<in>set (permissions (the (self r))). match_perm rule perm")
       (auto split: option.splits)
qed (auto split: option.splits)

lemma finite_parent_rel: "finite (dom self) \<Longrightarrow> finite (parent_rel self)"
proof -
  assume "finite (dom self)"
  moreover have "parent_rel self \<subseteq> (\<Union>r\<in>dom self. set (parents (the (self r))) \<times> {r})"
    by (force simp: parent_rel_def)
  ultimately show ?thesis by (auto intro: finite_subset)
qed

text \<open>The number of ancestors is a ranking, and no ranking exceeds the roles the table mentions.\<close>

definition ancestors :: "roles \<Rightarrow> string \<Rightarrow> string set" where
  "ancestors self r = {a. (a, r) \<in> (parent_rel self)\<^sup>+}"

lemma ancestors_subset: "ancestors self r \<subseteq> Field (parent_rel self)"
  unfolding ancestors_def by (auto dest!: trancl_domain [THEN equalityD1, THEN subsetD] DomainI simp: Field_def)

lemma finite_Field_parent_rel: "finite (dom self) \<Longrightarrow> finite (Field (parent_rel self))"
  by (simp add: finite_Field finite_parent_rel)

lemma ancestors_less:
  assumes "finite (dom self)" "acyclic (parent_rel self)" "(p, r) \<in> parent_rel self"
  shows "card (ancestors self p) < card (ancestors self r)"
proof (rule psubset_card_mono)
  show "finite (ancestors self r)"
    using ancestors_subset finite_Field_parent_rel [OF assms(1)] by (rule finite_subset)
  have "p \<notin> ancestors self p" using assms(2) by (auto simp: ancestors_def acyclic_def)
  moreover have "p \<in> ancestors self r" using assms(3) by (auto simp: ancestors_def)
  moreover have "ancestors self p \<subseteq> ancestors self r"
    using assms(3) by (auto simp: ancestors_def intro: trancl_into_trancl)
  ultimately show "ancestors self p \<subset> ancestors self r" by blast
qed

text \<open>The stack depth that suffices for a table.\<close>

definition stack_bound :: "roles \<Rightarrow> nat" where
  "stack_bound self = Suc (card (Field (parent_rel self)))"

lemma is_permitted_total:
  assumes "finite (dom self)" "acyclic (parent_rel self)" "stack_bound self \<le> n"
  shows "is_permitted n self rs perm = Some (\<exists>r\<in>set rs. grants self perm r)"
proof -
  have "card (ancestors self r) < n" for r
    using card_mono [OF finite_Field_parent_rel [OF assms(1)] ancestors_subset [of self r]] assms(3)
    by (simp add: stack_bound_def)
  then have "permitted_parents n self {} rs perm \<noteq> None"
    by (intro permitted_enough_stack(2) [where rank = "\<lambda>r. card (ancestors self r)"])
       (simp_all add: ancestors_less assms)
  then obtain b where b: "is_permitted n self rs perm = Some b" by (auto simp: is_permitted_def)
  from b is_permitted_correct [OF b] show ?thesis by simp
qed

subsection \<open>The walk on cycles\<close>

text \<open>A role for which the walk comes back empty has no infinite chain of parents above it.\<close>

lemma refusal_accessible:
  "\<lbrakk>permitted_tally n self seen r perm = Some (b, seen'); \<not> b; seen \<subseteq> Wellfounded.acc (parent_rel self)\<rbrakk> \<Longrightarrow>
     r \<in> Wellfounded.acc (parent_rel self) \<and> seen' \<subseteq> Wellfounded.acc (parent_rel self)"
  "\<lbrakk>permitted_parents n self seen ps perm = Some (b, seen'); \<not> b; seen \<subseteq> Wellfounded.acc (parent_rel self)\<rbrakk> \<Longrightarrow>
     set ps \<subseteq> Wellfounded.acc (parent_rel self) \<and> seen' \<subseteq> Wellfounded.acc (parent_rel self)"
proof (induction n self seen r perm and n self seen ps perm arbitrary: b seen' and b seen'
       rule: permitted_tally_permitted_parents.induct)
  case (2 n self seen r perm)
  show ?case
  proof (cases "self r")
    case None
    then have "(p, r) \<notin> parent_rel self" for p by (simp add: parent_rel_def)
    then have "r \<in> Wellfounded.acc (parent_rel self)" by (blast intro: acc.intros)
    then show ?thesis using 2(2,4) None by auto
  next
    case (Some role)
    show ?thesis
    proof (cases "r \<in> seen")
      case False
      then obtain s where ps: "permitted_parents n self seen (parents role) perm = Some (False, s)"
        and s: "seen' = insert r s" and nm: "\<not> (\<exists>rule\<in>set (permissions role). match_perm rule perm)"
        using 2(2,3) Some by (auto split: option.splits if_splits)
      have "set (parents role) \<subseteq> Wellfounded.acc (parent_rel self) \<and> s \<subseteq> Wellfounded.acc (parent_rel self)"
        by (rule 2(1) [OF _ _ _ ps _ 2(4)]) (use Some False nm in auto)
      then have acc: "set (parents role) \<subseteq> Wellfounded.acc (parent_rel self)"
        "s \<subseteq> Wellfounded.acc (parent_rel self)" by auto
      moreover have "p \<in> set (parents role)" if "(p, r) \<in> parent_rel self" for p
        using that Some by (simp add: parent_rel_def)
      ultimately have "r \<in> Wellfounded.acc (parent_rel self)" by (blast intro: acc.intros)
      with acc s show ?thesis by simp
    qed (use 2(2,4) Some in auto)
  qed
next
  case (4 n self seen p ps perm)
  then obtain s where t: "permitted_tally n self seen p perm = Some (False, s)"
    by (auto split: option.splits if_splits)
  show ?case using 4(1) [OF t _ 4(5)] 4(2) [OF t refl] 4(3,4) t by auto
qed auto

lemma cycle_not_accessible: "r \<in> Wellfounded.acc (parent_rel self) \<Longrightarrow> (r, r) \<notin> (parent_rel self)\<^sup>+"
proof (induction r rule: acc.induct)
  case (accI r)
  show ?case
  proof
    assume "(r, r) \<in> (parent_rel self)\<^sup>+"
    then obtain p where "(r, p) \<in> (parent_rel self)\<^sup>*" "(p, r) \<in> parent_rel self"
      by (auto dest: tranclD2)
    then have "(p, p) \<in> (parent_rel self)\<^sup>+" by (meson rtrancl_into_trancl2)
    with accI \<open>(p, r) \<in> parent_rel self\<close> show False by blast
  qed
qed

subsection \<open>The collected rules\<close>

text \<open>A tallied table agrees with the role table and holds the parents of its roles.\<close>

definition tally_closed :: "roles \<Rightarrow> roles \<Rightarrow> bool" where
  "tally_closed self acc \<longleftrightarrow>
     (\<forall>x role. acc x = Some role \<longrightarrow> self x = Some role \<and> (\<forall>p\<in>set (parents role). p \<in> dom self \<longrightarrow> p \<in> dom acc))"

lemma tally_closed_insert:
  "\<lbrakk>tally_closed self acc; self r = Some role; \<forall>p\<in>set (parents role). p \<in> dom self \<longrightarrow> p \<in> dom acc\<rbrakk>
     \<Longrightarrow> tally_closed self (acc(r \<mapsto> role))"
  by (auto simp: tally_closed_def)

lemma tally_role_spec:
  "\<lbrakk>tally_role n self acc r = Some acc'; tally_closed self acc\<rbrakk> \<Longrightarrow>
     tally_closed self acc' \<and> dom acc \<subseteq> dom acc' \<and> (r \<in> dom self \<longrightarrow> r \<in> dom acc') \<and>
     (\<forall>x\<in>dom acc' - dom acc. (x, r) \<in> (parent_rel self)\<^sup>*)"
  "\<lbrakk>tally_parents n self acc ps = Some acc'; tally_closed self acc\<rbrakk> \<Longrightarrow>
     tally_closed self acc' \<and> dom acc \<subseteq> dom acc' \<and> (\<forall>p\<in>set ps. p \<in> dom self \<longrightarrow> p \<in> dom acc') \<and>
     (\<forall>x\<in>dom acc' - dom acc. \<exists>p\<in>set ps. (x, p) \<in> (parent_rel self)\<^sup>*)"
proof (induction n self acc r and n self acc ps arbitrary: acc' and acc'
       rule: tally_role_tally_parents.induct)
  case (2 n self acc r)
  show ?case
  proof (cases "self r = None \<or> acc r \<noteq> None")
    case True
    then have "acc' = acc" "r \<in> dom self \<longrightarrow> r \<in> dom acc" using 2(2) by (auto split: option.splits)
    then show ?thesis using 2(3) by simp
  next
    case False
    then obtain role acc1 where role: "self r = Some role" "acc r = None"
      and ps: "tally_parents n self acc (parents role) = Some acc1" and acc': "acc' = acc1(r \<mapsto> role)"
      using 2(2) by auto
    have IH: "tally_closed self acc1 \<and> dom acc \<subseteq> dom acc1 \<and>
        (\<forall>p\<in>set (parents role). p \<in> dom self \<longrightarrow> p \<in> dom acc1) \<and>
        (\<forall>x\<in>dom acc1 - dom acc. \<exists>p\<in>set (parents role). (x, p) \<in> (parent_rel self)\<^sup>*)"
      by (rule 2(1) [OF _ _ ps 2(3)]) (use role in auto)
    have "(x, r) \<in> (parent_rel self)\<^sup>*" if x: "x \<in> dom acc1 - dom acc" for x
    proof -
      obtain p where "p \<in> set (parents role)" "(x, p) \<in> (parent_rel self)\<^sup>*" using IH x by blast
      moreover from this have "(p, r) \<in> parent_rel self" using role by (auto simp: parent_rel_def)
      ultimately show ?thesis by simp
    qed
    moreover have "tally_closed self acc'"
      unfolding acc' using tally_closed_insert [of self acc1 r role] IH role(1) by blast
    moreover have "dom acc' = insert r (dom acc1)" by (simp add: acc')
    ultimately show ?thesis using IH by simp blast
  qed
next
  case (4 n self acc p ps)
  obtain acc1 where t: "tally_role n self acc p = Some acc1"
    and u: "tally_parents n self acc1 ps = Some acc'" using 4(3) by (auto simp: bind_eq_Some_conv)
  note IH1 = 4(1) [OF t 4(4)]
  note IH2 = 4(2) [OF t u] IH1
  show ?case using IH1 IH2 by simp blast
qed auto

lemma grants_rtrancl: "\<lbrakk>(x, r) \<in> (parent_rel self)\<^sup>*; grants self perm x\<rbrakk> \<Longrightarrow> grants self perm r"
  by (induction rule: rtrancl_induct) (auto simp: parent_rel_def intro: grants.inherited)

lemma closed_grants:
  "\<lbrakk>grants self perm r; tally_closed self acc; r \<in> dom acc\<rbrakk>
     \<Longrightarrow> \<exists>role\<in>ran acc. \<exists>rule\<in>set (permissions role). match_perm rule perm"
proof (induction rule: grants.induct)
  case (direct r role rule)
  then have "acc r = Some role" by (auto simp: tally_closed_def)
  then show ?case using direct by (auto simp: ran_def)
next
  case (inherited r role p)
  then have "p \<in> dom self" by (auto simp: grants_iff [of _ _ p])
  moreover from inherited obtain role' where "acc r = Some role'" by blast
  moreover from this inherited have "role' = role" by (simp add: tally_closed_def)
  ultimately have "p \<in> dom acc" using inherited.hyps inherited.prems by (simp add: tally_closed_def)
  then show ?case using inherited by blast
qed

lemma collect_permrules_grants:
  assumes "collect_permrules n self rs = Some rules"
  shows "(\<exists>rule\<in>rules. match_perm rule perm) \<longleftrightarrow> (\<exists>r\<in>set rs. grants self perm r)"
proof -
  obtain acc where t: "tally_parents n self Map.empty rs = Some acc"
    and rules: "rules = (\<Union>role\<in>ran acc. set (permissions role))"
    using assms by (auto simp: collect_permrules_def)
  have spec: "tally_closed self acc" "\<forall>p\<in>set rs. p \<in> dom self \<longrightarrow> p \<in> dom acc"
    "\<forall>x\<in>dom acc. \<exists>p\<in>set rs. (x, p) \<in> (parent_rel self)\<^sup>*"
    using tally_role_spec(2) [OF t] by (auto simp: tally_closed_def)
  show ?thesis
  proof
    assume "\<exists>rule\<in>rules. match_perm rule perm"
    then obtain x role rule where "acc x = Some role" "rule \<in> set (permissions role)" "match_perm rule perm"
      using rules by (auto simp: ran_def)
    then have "grants self perm x" "x \<in> dom acc" using spec(1) by (auto simp: tally_closed_def intro: grants.direct)
    then show "\<exists>r\<in>set rs. grants self perm r" using spec(3) grants_rtrancl by blast
  next
    assume "\<exists>r\<in>set rs. grants self perm r"
    then obtain r where "r \<in> set rs" "grants self perm r" by blast
    moreover from this have "r \<in> dom acc" using spec(2) by (auto simp: grants_iff [of _ _ r])
    ultimately show "\<exists>rule\<in>rules. match_perm rule perm"
      using closed_grants [OF _ spec(1)] unfolding rules by blast
  qed
qed

subsection \<open>Properties\<close>

text \<open>C2. The permission check decides whether a role of the user or one of its ancestors has a
  rule matching the permission, and on a finite table without cyclic parents it returns that answer
  as soon as the stack has room for the roles of the table.\<close>

theorem is_permitted_decides:
  assumes "finite (dom self)" "acyclic (parent_rel self)" "stack_bound self \<le> n"
  shows "is_permitted n self rs perm = Some (\<exists>r\<in>set rs. grants self perm r)"
  using assms by (rule is_permitted_total)

definition sample_roles :: roles where
  "sample_roles = [''lab/user'' \<mapsto> role_new [] [Children \<lparr>inner = ''lab.printer.write''\<rparr>],
                   ''lab/admin'' \<mapsto> role_new [''lab/user''] [Base \<lparr>inner = ''lab.manage''\<rparr>]]"

lemma sample_parent_rel: "parent_rel sample_roles = {(''lab/user'', ''lab/admin'')}"
  by (auto simp: parent_rel_def sample_roles_def role_new_def split: if_splits)

lemma sample_acyclic: "finite (dom sample_roles) \<and> acyclic (parent_rel sample_roles)"
proof
  show "finite (dom sample_roles)" by (simp add: sample_roles_def)
  show "acyclic (parent_rel sample_roles)" by (simp add: sample_parent_rel wf_acyclic)
qed

theorem is_permitted_decides_witness:
  "is_permitted 3 sample_roles [''lab/admin''] ''lab.printer.write.big'' = Some True"
proof -
  have "stack_bound sample_roles \<le> 3" by (simp add: stack_bound_def sample_parent_rel Field_def)
  moreover have "grants sample_roles ''lab.printer.write.big'' ''lab/user''"
    by (rule grants.direct) (auto simp: sample_roles_def role_new_def)
  then have "grants sample_roles ''lab.printer.write.big'' ''lab/admin''"
    by (rule grants.inherited [rotated 2]) (auto simp: sample_roles_def role_new_def)
  ultimately show ?thesis
    using is_permitted_decides [of sample_roles 3 "[''lab/admin'']" "''lab.printer.write.big''"] sample_acyclic
    by simp
qed

text \<open>A user holding a role that is its own ancestor never gets a refusal: when no role grants
  the permission the walk exhausts every stack, because a role is marked as seen only after its
  parents.\<close>

theorem cyclic_roles_exhaust_stack:
  assumes "r \<in> set rs" "(r, r) \<in> (parent_rel self)\<^sup>+" "\<not> (\<exists>x\<in>set rs. grants self perm x)"
  shows "is_permitted n self rs perm = None"
proof (rule ccontr)
  assume "is_permitted n self rs perm \<noteq> None"
  then obtain s where "permitted_parents n self {} rs perm = Some (False, s)"
    using is_permitted_correct [of n self rs perm] assms(3) by (auto simp: is_permitted_def)
  from refusal_accessible(2) [OF this] have "r \<in> Wellfounded.acc (parent_rel self)" using assms(1) by auto
  with assms(2) show False by (simp add: cycle_not_accessible)
qed

theorem cyclic_roles_exhaust_stack_witness:
  "is_permitted 1000 [''a'' \<mapsto> role_new [''a''] []] [''a''] ''lab.manage'' = None"
proof (rule cyclic_roles_exhaust_stack [where r = "''a''"])
  let ?t = "[''a'' \<mapsto> role_new [''a''] []] :: roles"
  show "(''a'', ''a'') \<in> (parent_rel ?t)\<^sup>+" by (auto simp: parent_rel_def role_new_def)
  have "grants ?t ''lab.manage'' x \<Longrightarrow> False" for x
    by (induction rule: grants.induct) (auto simp: role_new_def split: if_splits)
  then show "\<not> (\<exists>x\<in>set [''a'']. grants ?t ''lab.manage'' x)" by blast
qed simp



end
