(* ===== verification/Machine_State.thy ===== *)
theory Machine_State
  imports Users Oid Roles
begin

text \<open>
  \<open>bffhd/resources/modules/fabaccess.rs\<close>, \<open>resources/state/mod.rs\<close> and the machine
  description of \<open>config/dhall.rs\<close>: the status of a machine, its stored state and the
  map form of the state keyed by an object identifier.
\<close>

subsection \<open>The code\<close>

datatype status =
  Free | InUse user_ref | ToCheck user_ref | Blocked user_ref | Disabled | Reserved user_ref

record machine_state =
  ms_state :: status
  ms_previous :: "user_ref option"

record state =
  st_inner :: machine_state

fun machine_state_fmt :: "machine_state \<Rightarrow> string" where
  "machine_state_fmt self =
     (case ms_state self of
        Free \<Rightarrow> ''free''
      | InUse u \<Rightarrow> ''inuse '' @ ref_id u
      | ToCheck u \<Rightarrow> ''tocheck '' @ ref_id u
      | Blocked u \<Rightarrow> ''blocked '' @ ref_id u
      | Disabled \<Rightarrow> ''disabled''
      | Reserved u \<Rightarrow> ''reserved '' @ ref_id u)"

definition machine_state_new :: machine_state where
  "machine_state_new = \<lparr>ms_state = Free, ms_previous = None\<rparr>"

definition machine_state_from :: "state \<Rightarrow> machine_state" where
  "machine_state_from dbstate = st_inner dbstate"

definition to_state :: "machine_state \<Rightarrow> state" where
  "to_state self = \<lparr>st_inner = self\<rparr>"

definition machine_free :: "user_ref option \<Rightarrow> machine_state" where
  "machine_free prev = \<lparr>ms_state = Free, ms_previous = prev\<rparr>"

definition machine_used :: "user_ref \<Rightarrow> user_ref option \<Rightarrow> machine_state" where
  "machine_used u prev = \<lparr>ms_state = InUse u, ms_previous = prev\<rparr>"

definition machine_blocked :: "user_ref \<Rightarrow> user_ref option \<Rightarrow> machine_state" where
  "machine_blocked u prev = \<lparr>ms_state = Blocked u, ms_previous = prev\<rparr>"

definition machine_disabled :: "user_ref option \<Rightarrow> machine_state" where
  "machine_disabled prev = \<lparr>ms_state = Disabled, ms_previous = prev\<rparr>"

definition machine_reserved :: "user_ref \<Rightarrow> user_ref option \<Rightarrow> machine_state" where
  "machine_reserved u prev = \<lparr>ms_state = Reserved u, ms_previous = prev\<rparr>"

definition machine_check :: "user_ref \<Rightarrow> machine_state" where
  "machine_check u = \<lparr>ms_state = ToCheck u, ms_previous = Some u\<rparr>"

text \<open>The lazily initialised identifiers; \<open>unwrap\<close> panics on a parse error.\<close>

definition oid_static :: "string \<Rightarrow> object_identifier outcome" where
  "oid_static s = bind_outcome (oid_from_str s) (\<lambda>r. case r of Inr oid \<Rightarrow> Value oid | Inl e \<Rightarrow> Panic)"

definition OID_TYPE :: "object_identifier outcome" where
  "OID_TYPE = oid_static ''1.3.6.1.4.1.48398.612.1.14''"

definition OID_VALUE :: "object_identifier outcome" where
  "OID_VALUE = oid_static ''1.3.6.1.4.1.48398.612.2.4''"

text \<open>The map form: one entry keyed by the identifier of the value.\<close>

definition state_serialize :: "state \<Rightarrow> (object_identifier \<times> machine_state) list outcome" where
  "state_serialize self = bind_outcome OID_VALUE (\<lambda>oid. Value [(oid, st_inner self)])"

definition state_visit_map :: "(object_identifier \<times> machine_state) list \<Rightarrow> (string + state) outcome" where
  "state_visit_map entries =
     (case entries of
        [] \<Rightarrow> Value (Inl ''oid'')
      | (oid, val) # _ \<Rightarrow>
          bind_outcome OID_VALUE (\<lambda>value_oid.
            if oid \<noteq> value_oid then Value (Inl ''Unknown OID'') else Value (Inr \<lparr>st_inner = val\<rparr>)))"

record machine_description =
  md_name :: string
  md_description :: "string option"
  md_wiki :: "string option"
  md_category :: "string option"
  md_privs :: privileges_buf

subsection \<open>The identifiers\<close>

lemma oid_static_text:
  "first \<le> 39 \<Longrightarrow> oid_static (oid_text root first cs) =
     Value \<lparr>oid_nodes = (root_as_u8 root * 40 + first) # concat (map (\<lambda>c. vlq c 0) (map unat cs))\<rparr>"
  by (simp add: oid_static_def from_str_text build_nodes word_le_nat_alt)

lemma OID_VALUE_ok: "\<exists>oid. OID_VALUE = Value oid"
proof -
  have "oid_text Iso 3 [6, 1, 4, 1, 48398, 612, 2, 4] = ''1.3.6.1.4.1.48398.612.2.4''"
    by (simp add: oid_text_def root_into_string_def show_nat.simps)
  then show ?thesis unfolding OID_VALUE_def using oid_static_text [of 3 Iso "[6, 1, 4, 1, 48398, 612, 2, 4]"] by simp
qed

end
