(* ===== verification/Resources.thy ===== *)
theory Resources
  imports Machine_State
begin

text \<open>
  \<open>bffhd/session\<close>, \<open>bffhd/resources/mod.rs\<close>, \<open>resources/search.rs\<close>,
  \<open>resources/state/db.rs\<close> and \<open>audit.rs\<close>: sessions, resources with their stored
  state, and the rules by which a session changes the status of a machine.

  The state the server keeps is a \<open>world\<close>: the LMDB environment with users and
  resource states, the lines of the audit log, the value of each resource's
  signal and the clock.  Operations pass it explicitly.  \<open>server\<close> extends the
  foreign code of the user database by the state archives, the writer of the
  audit log, the role table and the stack depth available to the permission
  check.

  A panic is modelled as the end of the operation; the thread that panics
  reports nothing and its caller fails.
\<close>

subsection \<open>State\<close>

record audit_line =
  al_timestamp :: int
  al_machine :: string
  al_state :: string

datatype write_result = Written | LineFailed | NewlineFailed

record ('e, 't) server = "('e, 't) user_deps" +
  rk_ser_state :: "machine_state \<Rightarrow> bytes"
  rk_de_state :: "bytes \<Rightarrow> machine_state"
  audit_write :: "audit_line list \<Rightarrow> audit_line \<Rightarrow> write_result"
  sv_roles :: roles
  sv_stack :: nat

record 'e world =
  w_env :: 'e
  w_audit :: "audit_line list option"
  w_signals :: "string \<rightharpoonup> archived_value"
  w_now :: int

record resource =
  res_id :: string
  res_desc :: machine_description

record session =
  se_user :: user_ref

subsection \<open>The state database and the audit log\<close>

datatype statedb_error = OpenEnv lmdb_error | Open lmdb_error | Create lmdb_error

definition statedb_create :: "('e, 't, 'z) server_scheme \<Rightarrow> 'e \<Rightarrow> statedb_error + 'e" where
  "statedb_create S env = map_sum Create (\<lambda>e. e) (raw_create S env ''state'')"

definition statedb_get ::
  "('e, 't, 'z) server_scheme \<Rightarrow> 'e \<Rightarrow> string \<Rightarrow> lmdb_error + archived_value option" where
  "statedb_get S env key =
     bind_result (lm_begin_ro S env) (\<lambda>txn. db_get S aligned_adapter txn ''state'' key)"

definition statedb_put ::
  "('e, 't, 'z) server_scheme \<Rightarrow> 'e \<Rightarrow> string \<Rightarrow> archived_value \<Rightarrow> (lmdb_error + 'e) outcome" where
  "statedb_put S env key val =
     (case lm_begin_rw S env of
        Inl e \<Rightarrow> Value (Inl e)
      | Inr txn \<Rightarrow>
          bind_outcome (db_put S aligned_adapter txn ''state'' key val) (\<lambda>r.
          case r of
            Inl e \<Rightarrow> Value (Inl e)
          | Inr txn' \<Rightarrow> Value (lm_commit S env txn')))"

definition statedb_get_all ::
  "('e, 't, 'z) server_scheme \<Rightarrow> 't \<Rightarrow> lmdb_error + (string \<times> archived_value) list" where
  "statedb_get_all S txn = db_get_all S aligned_adapter txn ''state''"

text \<open>
  \<open>AuditLog::log\<close>: failing to write the line panics in \<open>expect\<close>, failing to write
  the newline is an error that the caller only reports.
\<close>

definition audit_log ::
  "('e, 't, 'z) server_scheme \<Rightarrow> int \<Rightarrow> audit_line list \<Rightarrow> string \<Rightarrow> string
     \<Rightarrow> ((unit + unit) \<times> audit_line list) outcome" where
  "audit_log S now lines machine st =
     (let line = \<lparr>al_timestamp = now, al_machine = machine, al_state = st\<rparr> in
      case audit_write S lines line of
        Written \<Rightarrow> Value (Inr (), lines @ [line])
      | LineFailed \<Rightarrow> Panic
      | NewlineFailed \<Rightarrow> Value (Inl (), lines @ [line]))"

subsection \<open>Resources\<close>

definition archive_state :: "('e, 't, 'z) server_scheme \<Rightarrow> machine_state \<Rightarrow> archived_value" where
  "archive_state S st = archived_build (rk_ser_state S st)"

definition archived_state :: "('e, 't, 'z) server_scheme \<Rightarrow> archived_value \<Rightarrow> machine_state" where
  "archived_state S v = rk_de_state S (av_data v)"

text \<open>\<open>Inner::new\<close>: the stored state of a known resource, a stored free state for a new one.\<close>

definition inner_new :: "('e, 't, 'z) server_scheme \<Rightarrow> 'e world \<Rightarrow> string \<Rightarrow> 'e world outcome" where
  "inner_new S w i =
     (case statedb_get S (w_env w) i of
        Inl e \<Rightarrow> Panic
      | Inr (Some prev) \<Rightarrow> Value (w\<lparr>w_signals := (w_signals w)(i \<mapsto> prev)\<rparr>)
      | Inr None \<Rightarrow>
          let val = archive_state S (machine_free None) in
          bind_outcome (statedb_put S (w_env w) i val) (\<lambda>r.
          case r of
            Inl e \<Rightarrow> Panic
          | Inr env' \<Rightarrow> Value (w\<lparr>w_env := env', w_signals := (w_signals w)(i \<mapsto> val)\<rparr>)))"

definition get_state :: "('e, 't, 'z) server_scheme \<Rightarrow> 'e world \<Rightarrow> resource \<Rightarrow> archived_value outcome" where
  "get_state S w self =
     (case statedb_get S (w_env w) (res_id self) of
        Inr (Some v) \<Rightarrow> Value v
      | _ \<Rightarrow> Panic)"

definition get_state_ref :: "'e world \<Rightarrow> resource \<Rightarrow> archived_value outcome" where
  "get_state_ref w self = (case w_signals w (res_id self) of Some v \<Rightarrow> Value v | None \<Rightarrow> Panic)"

definition inner_set_state ::
  "('e, 't, 'z) server_scheme \<Rightarrow> 'e world \<Rightarrow> resource \<Rightarrow> archived_value \<Rightarrow> 'e world outcome" where
  "inner_set_state S w self val =
     bind_outcome (statedb_put S (w_env w) (res_id self) val) (\<lambda>r.
     case r of
       Inl e \<Rightarrow> Panic
     | Inr env' \<Rightarrow>
         (case w_audit w of
            None \<Rightarrow> Panic
          | Some lines \<Rightarrow>
              bind_outcome
                (audit_log S (w_now w) lines (res_id self) (machine_state_fmt (archived_state S val)))
                (\<lambda>(res, lines'). Value (w\<lparr>w_env := env', w_audit := Some lines',
                                          w_signals := (w_signals w)(res_id self \<mapsto> val)\<rparr>))))"

definition get_required_privs :: "resource \<Rightarrow> privileges_buf" where
  "get_required_privs self = md_privs (res_desc self)"

fun status_user :: "status \<Rightarrow> user_ref option" where
  "status_user (Blocked u) = Some u"
| "status_user (InUse u) = Some u"
| "status_user (Reserved u) = Some u"
| "status_user (ToCheck u) = Some u"
| "status_user Free = None"
| "status_user Disabled = None"

definition get_current_user ::
  "('e, 't, 'z) server_scheme \<Rightarrow> 'e world \<Rightarrow> resource \<Rightarrow> user_ref option outcome" where
  "get_current_user S w self =
     bind_outcome (get_state_ref w self) (\<lambda>v. Value (status_user (ms_state (archived_state S v))))"

definition get_previous_user ::
  "('e, 't, 'z) server_scheme \<Rightarrow> 'e world \<Rightarrow> resource \<Rightarrow> user_ref option outcome" where
  "get_previous_user S w self =
     bind_outcome (get_state_ref w self) (\<lambda>v. Value (ms_previous (archived_state S v)))"

definition set_state ::
  "('e, 't, 'z) server_scheme \<Rightarrow> 'e world \<Rightarrow> resource \<Rightarrow> machine_state \<Rightarrow> 'e world outcome" where
  "set_state S w self st = inner_set_state S w self (archive_state S st)"

definition set_status ::
  "('e, 't, 'z) server_scheme \<Rightarrow> 'e world \<Rightarrow> resource \<Rightarrow> status \<Rightarrow> 'e world outcome" where
  "set_status S w self st =
     bind_outcome (get_state S w self) (\<lambda>old.
       set_state S w self \<lparr>ms_state = st, ms_previous = ms_previous (archived_state S old)\<rparr>)"

subsection \<open>Sessions\<close>

definition session_open :: "user \<Rightarrow> session" where
  "session_open u = \<lparr>se_user = user_ref_new (user_id u)\<rparr>"

definition session_try_open ::
  "('e, 't, 'z) server_scheme \<Rightarrow> 'e world \<Rightarrow> string \<Rightarrow> session option outcome" where
  "session_try_open S w uid =
     bind_outcome (users_get_user S (w_env w) uid) (\<lambda>usr.
       Value (map_option session_open usr))"

definition get_user_ref :: "session \<Rightarrow> user_ref" where
  "get_user_ref ss = se_user ss"

definition session_get_user :: "('e, 't, 'z) server_scheme \<Rightarrow> 'e world \<Rightarrow> session \<Rightarrow> user outcome" where
  "session_get_user S w ss =
     bind_outcome (users_get_user S (w_env w) (get_username (se_user ss))) (\<lambda>u.
       case u of Some usr \<Rightarrow> Value usr | None \<Rightarrow> Panic)"

text \<open>The check on the user's current roles; an exhausted stack ends it.\<close>

definition has_perm ::
  "('e, 't, 'z) server_scheme \<Rightarrow> 'e world \<Rightarrow> session \<Rightarrow> permission \<Rightarrow> bool outcome" where
  "has_perm S w ss perm =
     bind_outcome (users_get_user S (w_env w) (get_username (se_user ss))) (\<lambda>u.
       case u of
         Some usr \<Rightarrow>
           (case is_permitted (sv_stack S) (sv_roles S) (ud_roles (userdata usr)) perm of
              Some b \<Rightarrow> Value b
            | None \<Rightarrow> Panic)
       | None \<Rightarrow> Value False)"

definition has_disclose :: "('e, 't, 'z) server_scheme \<Rightarrow> 'e world \<Rightarrow> session \<Rightarrow> resource \<Rightarrow> bool outcome" where
  "has_disclose S w ss r = has_perm S w ss (inner (priv_disclose (get_required_privs r)))"

definition has_read :: "('e, 't, 'z) server_scheme \<Rightarrow> 'e world \<Rightarrow> session \<Rightarrow> resource \<Rightarrow> bool outcome" where
  "has_read S w ss r = has_perm S w ss (inner (priv_read (get_required_privs r)))"

definition has_write :: "('e, 't, 'z) server_scheme \<Rightarrow> 'e world \<Rightarrow> session \<Rightarrow> resource \<Rightarrow> bool outcome" where
  "has_write S w ss r = has_perm S w ss (inner (priv_write (get_required_privs r)))"

definition has_manage :: "('e, 't, 'z) server_scheme \<Rightarrow> 'e world \<Rightarrow> session \<Rightarrow> resource \<Rightarrow> bool outcome" where
  "has_manage S w ss r = has_perm S w ss (inner (priv_manage (get_required_privs r)))"

subsection \<open>Changing the status\<close>

text \<open>The decision tree for writers.\<close>

fun writer_may :: "user_ref \<Rightarrow> status \<Rightarrow> status \<Rightarrow> bool" where
  "writer_may usr Free (InUse who) \<longleftrightarrow> who = usr"
| "writer_may usr Free (Reserved whom) \<longleftrightarrow> usr = whom"
| "writer_may usr (InUse who) Free \<longleftrightarrow> who = usr"
| "writer_may usr (InUse who) (ToCheck _) \<longleftrightarrow> who = usr"
| "writer_may usr (Reserved whom) Free \<longleftrightarrow> whom = usr"
| "writer_may usr (Reserved whom) (InUse who) \<longleftrightarrow> whom = usr \<and> who = whom"
| "writer_may usr _ _ \<longleftrightarrow> False"

text \<open>What everybody may do.\<close>

fun everybody_may :: "user_ref \<Rightarrow> status \<Rightarrow> status \<Rightarrow> bool" where
  "everybody_may usr (InUse who) Free \<longleftrightarrow> who = usr"
| "everybody_may usr (InUse who) (ToCheck _) \<longleftrightarrow> who = usr"
| "everybody_may usr (Reserved whom) Free \<longleftrightarrow> whom = usr"
| "everybody_may usr _ _ \<longleftrightarrow> False"

definition try_update ::
  "('e, 't, 'z) server_scheme \<Rightarrow> 'e world \<Rightarrow> resource \<Rightarrow> session \<Rightarrow> status \<Rightarrow> 'e world outcome" where
  "try_update S w self ss new =
     bind_outcome (get_state S w self) (\<lambda>v.
       let old = ms_state (archived_state S v); usr = get_user_ref ss in
       bind_outcome (has_manage S w ss self) (\<lambda>mng.
       bind_outcome (if mng then Value True
                     else bind_outcome (has_write S w ss self) (\<lambda>wr. Value (wr \<and> writer_may usr old new)))
         (\<lambda>ok. if ok \<or> everybody_may usr old new then set_status S w self new else Value w)))"

definition give_back ::
  "('e, 't, 'z) server_scheme \<Rightarrow> 'e world \<Rightarrow> resource \<Rightarrow> session \<Rightarrow> 'e world outcome" where
  "give_back S w self ss =
     bind_outcome (get_state S w self) (\<lambda>v.
       case ms_state (archived_state S v) of
         InUse usr \<Rightarrow>
           let current = get_user_ref ss in
           if usr = current then set_state S w self (machine_free (Some current)) else Value w
       | _ \<Rightarrow> Value w)"

definition force_set ::
  "('e, 't, 'z) server_scheme \<Rightarrow> 'e world \<Rightarrow> resource \<Rightarrow> status \<Rightarrow> 'e world outcome" where
  "force_set S w self new = set_status S w self new"

definition is_owned_by ::
  "('e, 't, 'z) server_scheme \<Rightarrow> 'e world \<Rightarrow> resource \<Rightarrow> user_ref \<Rightarrow> bool outcome" where
  "is_owned_by S w self owner =
     bind_outcome (get_state S w self) (\<lambda>v. Value (status_user (ms_state (archived_state S v)) = Some owner))"

definition visible ::
  "('e, 't, 'z) server_scheme \<Rightarrow> 'e world \<Rightarrow> resource \<Rightarrow> session \<Rightarrow> bool outcome" where
  "visible S w self ss =
     bind_outcome (has_disclose S w ss self) (\<lambda>d.
       if d then Value True else is_owned_by S w self (get_user_ref ss))"

subsection \<open>The table of resources\<close>

text \<open>Two resources with one id fail the assertion.\<close>

fun resources_new :: "resource list \<Rightarrow> (string \<rightharpoonup> resource) \<Rightarrow> (string \<rightharpoonup> resource) outcome" where
  "resources_new [] ids = Value ids"
| "resources_new (r # rs) ids =
     (if ids (res_id r) \<noteq> None then Panic else resources_new rs (ids(res_id r \<mapsto> r)))"

definition get_by_id :: "(string \<rightharpoonup> resource) \<Rightarrow> string \<Rightarrow> resource option" where
  "get_by_id self i = self i"

definition list_all_resources :: "(string \<rightharpoonup> resource) \<Rightarrow> resource set" where
  "list_all_resources self = ran self"

fun nth_part :: "string list \<Rightarrow> nat \<Rightarrow> string option" where
  "nth_part ps n = (if n < length ps then Some (ps ! n) else None)"

definition get_by_urn :: "(string \<rightharpoonup> resource) \<Rightarrow> string \<Rightarrow> resource option" where
  "get_by_urn self urn =
     (let ps = split_terminator CHR '':'' urn in
      if nth_part ps 0 = Some ''urn'' \<and> nth_part ps 1 = Some ''fabaccess'' \<and> nth_part ps 2 = Some ''resource''
      then Option.bind (nth_part ps 3) (get_by_id self)
      else None)"

end
