(* ===== verification/Modules.thy ===== *)
theory Modules
  imports Resources
begin

text \<open>
  What actors and initiators share: the parts of the configuration in \<open>config/dhall.rs\<close> that name
  them, and connecting them to resources by name.  A hash map that is iterated is the list of
  its entries in the order of the iteration.
\<close>

subsection \<open>Whitespace\<close>

text \<open>The length in bytes of the white space character that starts a text, or zero.\<close>

definition white_space :: "nat list \<Rightarrow> nat" where
  "white_space codes =
     (case codes of
        [] \<Rightarrow> 0
      | a # r \<Rightarrow>
          if (9 \<le> a \<and> a \<le> 13) \<or> a = 32 then 1
          else (case r of
            [] \<Rightarrow> 0
          | b # r2 \<Rightarrow>
              if a = 0xc2 \<and> (b = 0x85 \<or> b = 0xa0) then 2
              else (case r2 of
                [] \<Rightarrow> 0
              | c # r3 \<Rightarrow>
                  if (a = 0xe1 \<and> b = 0x9a \<and> c = 0x80) \<or>
                     (a = 0xe2 \<and> b = 0x80 \<and> ((0x80 \<le> c \<and> c \<le> 0x8a) \<or> c = 0xa8 \<or> c = 0xa9 \<or> c = 0xaf)) \<or>
                     (a = 0xe2 \<and> b = 0x81 \<and> c = 0x9f) \<or> (a = 0xe3 \<and> b = 0x80 \<and> c = 0x80)
                  then 3 else 0)))"

definition white_at :: "string \<Rightarrow> nat" where
  "white_at s = white_space (map of_char s)"

lemma white_at_Nil [simp]: "white_at [] = 0"
  by (simp add: white_at_def white_space_def)

text \<open>\<open>str::trim\<close> of a text is empty exactly when it is all white space.\<close>

function all_white :: "string \<Rightarrow> bool" where
  "all_white s = (if s = [] then True else if white_at s = 0 then False else all_white (drop (white_at s) s))"
  by pat_completeness auto
termination by (relation "measure length") auto

text \<open>\<open>str::split_whitespace\<close>, with the word read so far.\<close>

function split_white :: "string \<Rightarrow> string \<Rightarrow> string list" where
  "split_white word s =
     (if s = [] then (if word = [] then [] else [word])
      else if white_at s = 0 then split_white (word @ [hd s]) (tl s)
      else (if word = [] then [] else [word]) @ split_white [] (drop (white_at s) s))"
  by pat_completeness auto
termination by (relation "measure (\<lambda>(w, s). length s)") auto

definition split_whitespace :: "string \<Rightarrow> string list" where
  "split_whitespace s = split_white [] s"

declare all_white.simps [simp del] split_white.simps [simp del]

subsection \<open>Configuration\<close>

type_synonym params = "string \<rightharpoonup> string"

record module_config =
  mc_module :: string
  mc_params :: params

text \<open>The arguments that a process actor or initiator is configured with.\<close>

definition process_args :: "params \<Rightarrow> string list" where
  "process_args ps = (case ps ''args'' of Some argv \<Rightarrow> split_whitespace argv | None \<Rightarrow> [])"

text \<open>Collecting the connections into a hash map: unknown machines are skipped and a later connection
  replaces an earlier one of the same name.\<close>

fun connect :: "(string \<rightharpoonup> resource) \<Rightarrow> (string \<times> string) list \<Rightarrow> (string \<rightharpoonup> resource) \<Rightarrow> (string \<rightharpoonup> resource)" where
  "connect rs [] m = m"
| "connect rs ((k, v) # cs) m =
     (case get_by_id rs v of Some r \<Rightarrow> connect rs cs (m(k \<mapsto> r)) | None \<Rightarrow> connect rs cs m)"

text \<open>Going through the configured modules: each takes its connection out of the map.\<close>

fun load_modules ::
  "(string \<Rightarrow> module_config \<Rightarrow> resource \<Rightarrow> 'd option) \<Rightarrow> (string \<times> module_config) list \<Rightarrow> (string \<rightharpoonup> resource)
     \<Rightarrow> (string \<times> resource \<times> 'd) list" where
  "load_modules single [] m = []"
| "load_modules single ((name, cfg) # ms) m =
     (case m name of
        None \<Rightarrow> load_modules single ms m
      | Some r \<Rightarrow>
          (case single name cfg r of
             Some d \<Rightarrow> (name, r, d) # load_modules single ms (m(name := None))
           | None \<Rightarrow> load_modules single ms (m(name := None))))"

text \<open>The last connection of a name to a machine that exists.\<close>

definition connection :: "(string \<rightharpoonup> resource) \<Rightarrow> (string \<times> string) list \<Rightarrow> string \<Rightarrow> resource option" where
  "connection rs cs k =
     (case filter (\<lambda>(k', v). k' = k \<and> rs v \<noteq> None) (rev cs) of [] \<Rightarrow> None | (_, v) # _ \<Rightarrow> rs v)"

lemma connection_Nil [simp]: "connection rs [] = Map.empty"
  by (simp add: connection_def fun_eq_iff)

lemma connection_snoc:
  "connection rs (cs @ [(k', v)]) k = (if k' = k \<and> rs v \<noteq> None then rs v else connection rs cs k)"
  by (auto simp: connection_def)

lemma connect_append: "connect rs (cs @ ds) m = connect rs ds (connect rs cs m)"
  by (induction cs arbitrary: m) (auto split: option.splits)

lemma connect_connection: "connect rs cs Map.empty = connection rs cs"
proof (induction cs rule: rev_induct)
  case Nil
  then show ?case by simp
next
  case (snoc c cs)
  obtain k v where "c = (k, v)" by (cases c)
  then show ?case
    using snoc by (cases "rs v") (auto simp: connect_append get_by_id_def connection_snoc fun_eq_iff)
qed

lemma load_modules_set:
  assumes "distinct (map fst ms)"
  shows "(name, r, d) \<in> set (load_modules single ms m) \<longleftrightarrow>
    (\<exists>cfg. (name, cfg) \<in> set ms \<and> m name = Some r \<and> single name cfg r = Some d)"
  using assms
proof (induction ms arbitrary: m)
  case (Cons e ms)
  obtain nm cfg where e: "e = (nm, cfg)" by (cases e)
  have fresh: "\<forall>cfg. (nm, cfg) \<notin> set ms" using Cons.prems e by (auto simp: image_iff)
  show ?case
  proof (cases "m nm")
    case None
    then show ?thesis using Cons e by auto
  next
    case (Some r')
    then show ?thesis using Cons e fresh by (cases "single nm cfg r'") auto
  qed
qed simp

text \<open>The default configuration.\<close>

record module_names =
  cf_actors :: "(string \<times> module_config) list"
  cf_initiators :: "(string \<times> module_config) list"
  cf_actor_connections :: "(string \<times> string) list"
  cf_init_connections :: "(string \<times> string) list"
  cf_mqtt_url :: string

definition config_default :: module_names where
  "config_default =
     \<lparr>cf_actors = [(''Actor'', \<lparr>mc_module = ''Shelly'', mc_params = Map.empty\<rparr>)],
      cf_initiators = [(''Initiator'', \<lparr>mc_module = ''TCP-Listen'', mc_params = Map.empty\<rparr>)],
      cf_actor_connections = [(''Testmachine'', ''Actor'')],
      cf_init_connections = [(''Initiator'', ''Testmachine'')],
      cf_mqtt_url = ''tcp://localhost:1883''\<rparr>"

text \<open>The connection of the default actor is the wrong way round: whatever the machines are, nothing is
  connected to it.\<close>

lemma default_actor_unconnected: "connection rs (cf_actor_connections config_default) ''Actor'' = None"
  by (simp add: connection_def config_default_def)

end
