(* ===== verification/Line_Buffer.thy ===== *)
theory Line_Buffer
  imports Prelude
begin

text \<open>
  \<open>utils/linebuffer.rs\<close>: a growing buffer that is filled at its end and consumed from its front.
  The bytes that the allocator happens to provide behind the buffer are an argument of the
  operation that grows it.  The interface \<open>byte_queue\<close> is what a reader of lines relies on: the
  buffer is a queue of bytes.  Lengths are those of memory and do not overflow.
\<close>

record line_buffer =
  lb_buffer :: string
  lb_valid :: nat

definition lb_new :: line_buffer where
  "lb_new = \<lparr>lb_buffer = [], lb_valid = 0\<rparr>"

text \<open>\<open>reserve\<close> and \<open>set_len\<close> to the capacity: \<open>fresh\<close> is what lies between the old and the new end.\<close>

definition lb_resize :: "line_buffer \<Rightarrow> string \<Rightarrow> line_buffer" where
  "lb_resize self fresh = self\<lparr>lb_buffer := lb_buffer self @ fresh\<rparr>"

text \<open>Returns the buffer and the size of the writeable slice behind the valid bytes.\<close>

definition get_mut_write :: "line_buffer \<Rightarrow> string \<Rightarrow> nat \<Rightarrow> (line_buffer \<times> nat) outcome" where
  "get_mut_write self fresh atleast =
     (if lb_valid self > length (lb_buffer self) then Panic
      else
        let avail = length (lb_buffer self) - lb_valid self;
            self' = (if avail < atleast then lb_resize self fresh else self) in
        Value (self', length (lb_buffer self') - lb_valid self'))"

text \<open>What a reader does with the slice: it writes bytes at its start.\<close>

definition lb_write :: "line_buffer \<Rightarrow> string \<Rightarrow> line_buffer" where
  "lb_write self bytes =
     self\<lparr>lb_buffer := take (lb_valid self) (lb_buffer self) @ bytes @ drop (lb_valid self + length bytes) (lb_buffer self)\<rparr>"

definition advance_valid :: "line_buffer \<Rightarrow> nat \<Rightarrow> line_buffer" where
  "advance_valid self amount = self\<lparr>lb_valid := lb_valid self + amount\<rparr>"

definition lb_consume :: "line_buffer \<Rightarrow> nat \<Rightarrow> line_buffer outcome" where
  "lb_consume self amount =
     (if amount \<le> lb_valid self then
        if amount < lb_valid self then
          bind_outcome (slice (lb_buffer self) amount (lb_valid self)) (\<lambda>moved.
            Value \<lparr>lb_buffer = moved @ drop (length moved) (lb_buffer self), lb_valid = lb_valid self - amount\<rparr>)
        else Value (self\<lparr>lb_valid := lb_valid self - amount\<rparr>)
      else Panic)"

definition lb_deref :: "line_buffer \<Rightarrow> string outcome" where
  "lb_deref self = slice (lb_buffer self) 0 (lb_valid self)"

text \<open>One successful read: a slice of at least \<open>atleast\<close> bytes, the bytes read, the new end.  The reader
  never gets more bytes than the slice holds.\<close>

definition lb_read :: "nat \<Rightarrow> line_buffer \<Rightarrow> string \<Rightarrow> string \<Rightarrow> line_buffer outcome" where
  "lb_read atleast self fresh bytes =
     bind_outcome (get_mut_write self fresh atleast) (\<lambda>(self', room).
       Value (advance_valid (lb_write self' (take room bytes)) (length (take room bytes))))"

subsection \<open>A queue of bytes\<close>

definition lb_ok :: "line_buffer \<Rightarrow> bool" where
  "lb_ok self \<longleftrightarrow> lb_valid self \<le> length (lb_buffer self)"

definition lb_abs :: "line_buffer \<Rightarrow> string" where
  "lb_abs self = take (lb_valid self) (lb_buffer self)"

text \<open>The contract of a byte queue, with what follows for any alternation of reading and consuming.\<close>

locale byte_queue =
  fixes ok :: "'q \<Rightarrow> bool" and content :: "'q \<Rightarrow> string"
    and start :: 'q
    and push :: "'q \<Rightarrow> string \<Rightarrow> string \<Rightarrow> 'q outcome"
    and pop :: "'q \<Rightarrow> nat \<Rightarrow> 'q outcome"
    and contents :: "'q \<Rightarrow> string outcome"
    and fits :: "'q \<Rightarrow> string \<Rightarrow> string \<Rightarrow> bool"
  assumes start_ok: "ok start" "content start = []"
    and push_ok: "\<lbrakk>ok q; fits q fresh bytes\<rbrakk> \<Longrightarrow> \<exists>q'. push q fresh bytes = Value q' \<and> ok q' \<and> content q' = content q @ bytes"
    and pop_ok: "\<lbrakk>ok q; n \<le> length (content q)\<rbrakk> \<Longrightarrow> \<exists>q'. pop q n = Value q' \<and> ok q' \<and> content q' = drop n (content q)"
    and pop_panics: "\<lbrakk>ok q; n > length (content q)\<rbrakk> \<Longrightarrow> pop q n = Panic"
    and contents_ok: "ok q \<Longrightarrow> contents q = Value (content q)"
begin

lemma pop_iff: "ok q \<Longrightarrow> pop q n = Panic \<longleftrightarrow> length (content q) < n"
  using pop_ok [of q n] pop_panics [of q n] by (cases "n \<le> length (content q)") auto

lemma push_then_pop:
  assumes "ok q" "fits q fresh bytes" "n \<le> length (content q) + length bytes"
  shows "\<exists>q'. bind_outcome (push q fresh bytes) (\<lambda>q1. pop q1 n) = Value q' \<and> ok q' \<and> content q' = drop n (content q @ bytes)"
proof -
  obtain q1 where "push q fresh bytes = Value q1" "ok q1" "content q1 = content q @ bytes" using push_ok assms by blast
  then show ?thesis using pop_ok [of q1 n] assms(3) by auto
qed

end

text \<open>The reader asks for 512 bytes at a time and the allocator grows the buffer by at least what is missing.\<close>

definition lb_fits :: "nat \<Rightarrow> line_buffer \<Rightarrow> string \<Rightarrow> string \<Rightarrow> bool" where
  "lb_fits atleast self fresh bytes \<longleftrightarrow>
     length bytes \<le> atleast \<and> atleast \<le> length (lb_buffer self) - lb_valid self + length fresh"

lemma get_mut_write_ok:
  assumes "lb_ok self" "atleast \<le> length (lb_buffer self) - lb_valid self + length fresh"
  shows "\<exists>self' room. get_mut_write self fresh atleast = Value (self', room) \<and> lb_ok self' \<and> lb_abs self' = lb_abs self \<and>
    atleast \<le> room \<and> room = length (lb_buffer self') - lb_valid self'"
  using assms by (auto simp: get_mut_write_def lb_ok_def lb_abs_def lb_resize_def Let_def)

lemma lb_write_ok:
  assumes "lb_ok self" "length bytes \<le> length (lb_buffer self) - lb_valid self"
  shows "lb_ok (advance_valid (lb_write self bytes) (length bytes))"
    "lb_abs (advance_valid (lb_write self bytes) (length bytes)) = lb_abs self @ bytes"
  using assms by (simp_all add: advance_valid_def lb_write_def lb_ok_def lb_abs_def)

lemma lb_read_ok:
  assumes "lb_ok q" "lb_fits atleast q fresh bytes"
  shows "\<exists>q'. lb_read atleast q fresh bytes = Value q' \<and> lb_ok q' \<and> lb_abs q' = lb_abs q @ bytes"
proof -
  have room: "atleast \<le> length (lb_buffer q) - lb_valid q + length fresh" "length bytes \<le> atleast"
    using assms(2) by (simp_all add: lb_fits_def)
  obtain q1 room where q1: "get_mut_write q fresh atleast = Value (q1, room)" "lb_ok q1" "lb_abs q1 = lb_abs q"
      "atleast \<le> room" "room = length (lb_buffer q1) - lb_valid q1" using get_mut_write_ok [OF assms(1) room(1)] by blast
  have "take room bytes = bytes" using room(2) q1(4) by simp
  then show ?thesis using q1 room(2) lb_write_ok [of q1 bytes] by (auto simp: lb_read_def)
qed

lemma lb_consume_ok:
  assumes "lb_ok q"
  shows "n \<le> length (lb_abs q) \<Longrightarrow> \<exists>q'. lb_consume q n = Value q' \<and> lb_ok q' \<and> lb_abs q' = drop n (lb_abs q)"
    and "length (lb_abs q) < n \<Longrightarrow> lb_consume q n = Panic"
  using assms by (auto simp: lb_consume_def lb_ok_def lb_abs_def slice_def)

interpretation lines: byte_queue lb_ok lb_abs lb_new "lb_read 512" lb_consume lb_deref "lb_fits 512"
proof
  show "lb_ok lb_new" "lb_abs lb_new = []" by (simp_all add: lb_ok_def lb_abs_def lb_new_def)
  show "lb_deref q = Value (lb_abs q)" if "lb_ok q" for q
    using that by (simp add: lb_deref_def slice_def lb_ok_def lb_abs_def)
qed (simp_all add: lb_read_ok lb_consume_ok)

end
