(* ===== verification/Initiators.thy ===== *)
theory Initiators
  imports Modules Line_Buffer
begin

text \<open>
  \<open>initiators\<close>: modules that change the state of a machine from outside.  The process initiator
  reads lines from a child process and sets the status they carry; the dummy initiator flips a
  machine between free and in use.  The child, its pipes, serde\_json and timers are answers
  that the operations are given; running out of answers means that the code still loops, so
  a loop that does not come to an end has no result (\<open>None\<close>).
\<close>

subsection \<open>Lines of the process initiator\<close>

abbreviation newline :: char where
  "newline \<equiv> CHR 0x0A"

text \<open>\<open>iter().position(|b| *b == b'\n')\<close>.\<close>

fun newline_at :: "string \<Rightarrow> nat option" where
  "newline_at [] = None"
| "newline_at (c # cs) = (if c = newline then Some 0 else map_option Suc (newline_at cs))"

text \<open>The loop over the lines of the buffer, which both users of it share: the position it has reached and
  a state that handling a line changes.  The fuel bounds the rounds.\<close>

fun scan_lines :: "('s \<Rightarrow> string \<Rightarrow> 's outcome) \<Rightarrow> nat \<Rightarrow> string \<Rightarrow> nat \<Rightarrow> 's \<Rightarrow> (nat \<times> 's) outcome option" where
  "scan_lines line_fn 0 buf pos s = None"
| "scan_lines line_fn (Suc n) buf pos s =
     (if pos > length buf then Some Panic
      else case newline_at (drop pos buf) of
        None \<Rightarrow> Some (Value (pos, s))
      | Some idx \<Rightarrow>
          if idx = 0 then scan_lines line_fn n buf (pos + 1) s
          else (case bind_outcome (slice buf pos (pos + idx)) (line_fn s) of
                  Panic \<Rightarrow> Some Panic
                | Value s' \<Rightarrow> scan_lines line_fn n buf idx s'))"

definition process_line ::
  "('e, 't, 'z) server_scheme \<Rightarrow> (string \<Rightarrow> status option) \<Rightarrow> resource \<Rightarrow> 'e world \<Rightarrow> string \<Rightarrow> 'e world outcome" where
  "process_line S json self w line =
     (if line = [] then Value w
      else if \<not> from_utf8_ok line then Value w
      else if all_white line then Value w
      else case json line of Some st \<Rightarrow> set_status S w self st | None \<Rightarrow> Value w)"

definition try_process ::
  "('e, 't, 'z) server_scheme \<Rightarrow> (string \<Rightarrow> status option) \<Rightarrow> resource \<Rightarrow> nat \<Rightarrow> string \<Rightarrow> 'e world
     \<Rightarrow> (nat \<times> 'e world) outcome option" where
  "try_process S json self fuel buf w = scan_lines (process_line S json self) fuel buf 0 w"

subsection \<open>Polling the process initiator\<close>

datatype read_answer = ReadPending | ReadOk string string | ReadErr

datatype read_end = ReadLater | ReadFailed

text \<open>Reading until the pipe has nothing more: \<open>ReadOk fresh bytes\<close> gives the bytes and what the allocator
  provides.  The end of the file is a read of no bytes, after which the loop goes on.\<close>

fun read_loop :: "read_answer list \<Rightarrow> line_buffer \<Rightarrow> (line_buffer \<times> read_end) outcome option" where
  "read_loop [] buf = None"
| "read_loop (ReadPending # rs) buf = Some (Value (buf, ReadLater))"
| "read_loop (ReadErr # rs) buf = Some (Value (buf, ReadFailed))"
| "read_loop (ReadOk fresh bytes # rs) buf =
     (case lb_read 512 buf fresh bytes of Panic \<Rightarrow> Some Panic | Value buf' \<Rightarrow> read_loop rs buf')"

datatype child_status = StatusError | Exited | Alive

record process_init =
  pi_attached :: bool
  pi_stderr_closed :: bool
  pi_buffer :: line_buffer
  pi_err_buffer :: line_buffer

fun bind_loop :: "'a outcome option \<Rightarrow> ('a \<Rightarrow> 'b outcome option) \<Rightarrow> 'b outcome option" where
  "bind_loop None f = None"
| "bind_loop (Some Panic) f = Some Panic"
| "bind_loop (Some (Value x)) f = f x"

text \<open>The result says whether the future is ready.  The lines of the error output are only logged.\<close>

definition process_poll ::
  "('e, 't, 'z) server_scheme \<Rightarrow> (string \<Rightarrow> status option) \<Rightarrow> resource \<Rightarrow> nat \<Rightarrow> child_status
     \<Rightarrow> read_answer list \<Rightarrow> read_answer list \<Rightarrow> process_init \<Rightarrow> 'e world
     \<Rightarrow> (bool \<times> process_init \<times> 'e world) outcome option" where
  "process_poll S json res fuel status outs errs self w =
     (if \<not> pi_attached self then Some (Value (True, self, w))
      else if status \<noteq> Alive then Some (Value (True, self, w))
      else bind_loop (read_loop outs (pi_buffer self)) (\<lambda>(buf, e).
        if e = ReadFailed then Some (Value (True, self\<lparr>pi_buffer := buf\<rparr>, w))
        else
          bind_loop (Some (lb_deref buf)) (\<lambda>bytes.
          bind_loop (try_process S json res fuel bytes w) (\<lambda>(processed, w').
          bind_loop (Some (lb_consume buf processed)) (\<lambda>buf'.
          bind_loop (if pi_stderr_closed self then Some (Value (pi_err_buffer self, ReadFailed))
                     else read_loop errs (pi_err_buffer self)) (\<lambda>(err, e').
          bind_loop (Some (lb_deref buf')) (\<lambda>bytes'.
          bind_loop (scan_lines (\<lambda>u line. Value u) fuel bytes' 0 ()) (\<lambda>(consumed, u).
          bind_loop (Some (lb_consume err consumed)) (\<lambda>err'.
            Some (Value (False,
              self\<lparr>pi_stderr_closed := (e' = ReadFailed), pi_buffer := buf', pi_err_buffer := err'\<rparr>, w')))))))))))"

definition process_new :: "params \<Rightarrow> (string \<Rightarrow> string list \<Rightarrow> bool) \<Rightarrow> process_init option" where
  "process_new ps spawns =
     (case ps ''cmd'' of
        None \<Rightarrow> None
      | Some cmd \<Rightarrow>
          if spawns cmd (process_args ps)
          then Some \<lparr>pi_attached = True, pi_stderr_closed = False, pi_buffer = lb_new, pi_err_buffer = lb_new\<rparr>
          else None)"

subsection \<open>The dummy initiator\<close>

datatype dummy_state = DummyEmpty | Sleeping "status option" | Updating status

record dummy_init =
  di_session :: session
  di_state :: dummy_state

text \<open>The update that \<open>flip\<close> builds, with the status for the next time.\<close>

definition flip_next :: "session \<Rightarrow> status \<Rightarrow> status" where
  "flip_next ss st = (case st of Free \<Rightarrow> InUse (get_user_ref ss) | InUse _ \<Rightarrow> Free | _ \<Rightarrow> Free)"

fun dummy_rank :: "dummy_state \<Rightarrow> nat" where
  "dummy_rank DummyEmpty = 1"
| "dummy_rank (Sleeping st) = 0"
| "dummy_rank (Updating st) = 1"

text \<open>Polling with the answers of the timers, whether each has fired; the update itself never waits.  The
  updates that were tried are returned as well.\<close>

function dummy_poll ::
  "('e, 't, 'z) server_scheme \<Rightarrow> resource \<Rightarrow> bool list \<Rightarrow> dummy_init \<Rightarrow> 'e world \<Rightarrow> status list
     \<Rightarrow> (dummy_init \<times> 'e world \<times> status list) outcome" where
  "dummy_poll S res timers self w tried =
     (case di_state self of
        DummyEmpty \<Rightarrow> dummy_poll S res timers (self\<lparr>di_state := Sleeping (Some Free)\<rparr>) w tried
      | Sleeping next_st \<Rightarrow>
          (case timers of
             [] \<Rightarrow> Value (self, w, tried)
           | fired # ts \<Rightarrow>
               if \<not> fired then Value (self, w, tried)
               else (case next_st of
                       None \<Rightarrow> Panic
                     | Some st \<Rightarrow> dummy_poll S res ts (self\<lparr>di_state := Updating st\<rparr>) w tried))
      | Updating st \<Rightarrow>
          bind_outcome (try_update S w res (di_session self) st) (\<lambda>w'.
            dummy_poll S res timers (self\<lparr>di_state := Sleeping (Some (flip_next (di_session self) st))\<rparr>) w' (tried @ [st])))"
  by pat_completeness auto

termination
  by (relation "measure (\<lambda>(S, res, timers, self, w, tried). 2 * length timers + dummy_rank (di_state self))") auto

declare dummy_poll.simps [simp del]

definition dummy_new ::
  "('e, 't, 'z) server_scheme \<Rightarrow> 'e world \<Rightarrow> params \<Rightarrow> dummy_init option outcome" where
  "dummy_new S w ps =
     (case ps ''uid'' of
        None \<Rightarrow> Value None
      | Some uid \<Rightarrow>
          bind_outcome (session_try_open S w uid) (\<lambda>ss.
            Value (map_option (\<lambda>s. \<lparr>di_session = s, di_state = DummyEmpty\<rparr>) ss)))"

subsection \<open>The driver\<close>

text \<open>What an initiator may do with its machine: try an update for a session, set the status, open a session.\<close>

record initiator_callbacks =
  ic_resource :: resource

definition callbacks_try_update ::
  "('e, 't, 'z) server_scheme \<Rightarrow> 'e world \<Rightarrow> initiator_callbacks \<Rightarrow> session \<Rightarrow> status \<Rightarrow> 'e world outcome" where
  "callbacks_try_update S w self ss st = try_update S w (ic_resource self) ss st"

definition callbacks_set_status ::
  "('e, 't, 'z) server_scheme \<Rightarrow> 'e world \<Rightarrow> initiator_callbacks \<Rightarrow> status \<Rightarrow> 'e world outcome" where
  "callbacks_set_status S w self st = set_status S w (ic_resource self) st"

definition callbacks_open_session ::
  "('e, 't, 'z) server_scheme \<Rightarrow> 'e world \<Rightarrow> initiator_callbacks \<Rightarrow> string \<Rightarrow> session option outcome" where
  "callbacks_open_session S w self uid = session_try_open S w uid"

text \<open>A driver is ready when its initiator is, which none of the initiators is meant to be.\<close>

definition initiator_driver_poll :: "('i \<Rightarrow> (bool \<times> 'i)) \<Rightarrow> string \<times> 'i \<Rightarrow> (bool \<times> string list) \<times> string \<times> 'i" where
  "initiator_driver_poll poll self =
     (case self of (name, i) \<Rightarrow>
        let (ready, i') = poll i in
        ((ready, if ready then [name @ '': initiator module ran to completion!''] else []), name, i'))"

subsection \<open>Loading\<close>

datatype initiator = DummyInitiator dummy_init | ProcessInitiator process_init

text \<open>A module that cannot be configured or is unknown is no initiator.  The world is read only.\<close>

definition initiator_single ::
  "('e, 't, 'z) server_scheme \<Rightarrow> 'e world \<Rightarrow> (string \<Rightarrow> string list \<Rightarrow> bool) \<Rightarrow> module_config \<Rightarrow> initiator option outcome" where
  "initiator_single S w spawns cfg =
     (if mc_module cfg = ''Dummy'' then
        bind_outcome (dummy_new S w (mc_params cfg)) (\<lambda>d. Value (map_option DummyInitiator d))
      else if mc_module cfg = ''Process'' then Value (map_option ProcessInitiator (process_new (mc_params cfg) spawns))
      else Value None)"

fun initiators_spawn ::
  "(module_config \<Rightarrow> initiator option outcome) \<Rightarrow> (string \<times> module_config) list \<Rightarrow> (string \<rightharpoonup> resource)
     \<Rightarrow> (string \<times> resource \<times> initiator) list outcome" where
  "initiators_spawn single [] m = Value []"
| "initiators_spawn single ((name, cfg) # ms) m =
     (case m name of
        None \<Rightarrow> initiators_spawn single ms m
      | Some r \<Rightarrow>
          bind_outcome (single cfg) (\<lambda>d.
          bind_outcome (initiators_spawn single ms (m(name := None))) (\<lambda>rest.
            Value (case d of Some i \<Rightarrow> (name, r, i) # rest | None \<Rightarrow> rest))))"

definition initiators_load ::
  "('e, 't, 'z) server_scheme \<Rightarrow> 'e world \<Rightarrow> (string \<Rightarrow> string list \<Rightarrow> bool) \<Rightarrow> module_names \<Rightarrow> (string \<rightharpoonup> resource)
     \<Rightarrow> (string \<times> resource \<times> initiator) list outcome" where
  "initiators_load S w spawns config resources =
     initiators_spawn (initiator_single S w spawns) (cf_initiators config)
       (connect resources (cf_init_connections config) Map.empty)"

end
