(* ===== verification/Actors.thy ===== *)
theory Actors
  imports Modules
begin

text \<open>
  \<open>actors\<close>: modules that act on the changes of a machine.  A driver applies each state that the
  signal of its machine delivers, one at a time.  MQTT, URL parsing, processes and signals are
  foreign: their answers are arguments.
\<close>

subsection \<open>Actors\<close>

datatype actor =
    DummyActor string params
  | ProcessActor string string "string list"
  | ShellyActor string string

text \<open>What applying a state does: a message to the broker, a command with its arguments, or nothing but a log
  line.\<close>

datatype deed = Publish string string | RunCommand string "string list" | LogOnly

definition shelly_new :: "string \<Rightarrow> params \<Rightarrow> actor" where
  "shelly_new name ps =
     ShellyActor name (case ps ''topic'' of
        Some topic \<Rightarrow> ''shellies/'' @ topic @ ''/relay/0/command''
      | None \<Rightarrow> ''shellies/'' @ name @ ''/relay/0/command'')"

definition process_actor_new :: "string \<Rightarrow> params \<Rightarrow> actor option" where
  "process_actor_new name ps = (case ps ''cmd'' of Some cmd \<Rightarrow> Some (ProcessActor name cmd (process_args ps)) | None \<Rightarrow> None)"

definition shelly_payload :: "status \<Rightarrow> string" where
  "shelly_payload st = (case st of InUse _ \<Rightarrow> ''on'' | _ \<Rightarrow> ''off'')"

fun status_args :: "status \<Rightarrow> string list" where
  "status_args Free = [''free'']"
| "status_args (InUse by) = [''inuse'', get_username by]"
| "status_args (ToCheck by) = [''tocheck'', get_username by]"
| "status_args (Blocked by) = [''blocked'', get_username by]"
| "status_args Disabled = [''disabled'']"
| "status_args (Reserved by) = [''reserved'', get_username by]"

fun actor_apply :: "actor \<Rightarrow> status \<Rightarrow> deed" where
  "actor_apply (DummyActor name ps) st = LogOnly"
| "actor_apply (ProcessActor name cmd args) st = RunCommand cmd (args @ [name] @ status_args st)"
| "actor_apply (ShellyActor name topic) st = Publish topic (shelly_payload st)"

definition actor_single :: "string \<Rightarrow> module_config \<Rightarrow> actor option" where
  "actor_single name cfg =
     (if mc_module cfg = ''Dummy'' then Some (DummyActor name (mc_params cfg))
      else if mc_module cfg = ''Process'' then process_actor_new name (mc_params cfg)
      else if mc_module cfg = ''Shelly'' then Some (shelly_new name (mc_params cfg))
      else None)"

subsection \<open>The driver\<close>

datatype 's change = ChangePending | ChangeEnd | Change 's

text \<open>The state whose application is running, and what was started and finished so far.\<close>

record 's driver =
  dr_future :: "'s option"
  dr_applied :: "'s list"
  dr_done :: "'s list"

definition driver_new :: "'s driver" where
  "driver_new = \<lparr>dr_future = None, dr_applied = [], dr_done = []\<rparr>"

datatype why_pending = FutureBlocks | SignalBlocks

text \<open>A poll with the answers of the running future, whether it is ready, and of the signal.  Without an
  answer either is pending.  The result is the reason for being pending, or none when the
  driver ends, with the answers that are left.\<close>

fun driver_poll ::
  "'s driver \<Rightarrow> bool list \<Rightarrow> 's change list \<Rightarrow> why_pending option \<times> 's driver \<times> bool list \<times> 's change list" where
  "driver_poll self futs sigs =
     (let (blocked, self1, futs1) =
        (case dr_future self of
           None \<Rightarrow> (False, self, futs)
         | Some s \<Rightarrow>
             (case futs of
                True # fs \<Rightarrow> (False, self\<lparr>dr_future := None, dr_done := dr_done self @ [s]\<rparr>, fs)
              | False # fs \<Rightarrow> (True, self, fs)
              | [] \<Rightarrow> (True, self, [])))
      in if blocked then (Some FutureBlocks, self1, futs1, sigs)
         else (case sigs of
                 [] \<Rightarrow> (Some SignalBlocks, self1, futs1, [])
               | ChangePending # ss \<Rightarrow> (Some SignalBlocks, self1, futs1, ss)
               | ChangeEnd # ss \<Rightarrow> (None, self1, futs1, ss)
               | Change s # ss \<Rightarrow>
                   driver_poll (self1\<lparr>dr_future := Some s, dr_applied := dr_applied self1 @ [s]\<rparr>) futs1 ss))"

declare driver_poll.simps [simp del]

subsection \<open>The broker\<close>

record mqtt_url =
  url_scheme :: string
  url_host :: "string option"
  url_port :: "nat option"
  url_username :: string
  url_password :: "string option"

datatype transport = Tls | Tcp

record mqtt_options =
  mo_transport :: transport
  mo_host :: string
  mo_port :: nat
  mo_credentials :: "(string \<times> string) option"

datatype actor_error = UrlParseError | InvalidConfig | ConnectionFailed

definition mqtt_options_of :: "(string \<Rightarrow> mqtt_url option) \<Rightarrow> string \<Rightarrow> actor_error + mqtt_options" where
  "mqtt_options_of parse text_url =
     (case parse text_url of
        None \<Rightarrow> Inl UrlParseError
      | Some url \<Rightarrow>
          bind_result
            (if url_scheme url = ''mqtts'' \<or> url_scheme url = ''ssl'' then Inr (Tls, 8883)
             else if url_scheme url = ''mqtt'' \<or> url_scheme url = ''tcp'' then Inr (Tcp, 1883)
             else Inl InvalidConfig) (\<lambda>(transport, default_port).
          case url_host url of
            None \<Rightarrow> Inl InvalidConfig
          | Some host \<Rightarrow>
              Inr \<lparr>mo_transport = transport, mo_host = host,
                   mo_port = (case url_port url of Some p \<Rightarrow> p | None \<Rightarrow> default_port),
                   mo_credentials = (if url_username url \<noteq> [] then Some (url_username url, case url_password url of Some p \<Rightarrow> p | None \<Rightarrow> [])
                                     else None)\<rparr>))"

text \<open>What the event loop of the client reports.\<close>

datatype mqtt_error = MqttCancel | MqttStreamDone | MqttRequestsDone | MqttTimeout | MqttIo | MqttOther

datatype mqtt_state = MqttRunning bool | MqttStopped

text \<open>The task that keeps the client going; its flag is set by an I/O error.\<close>

fun mqtt_event :: "mqtt_state \<Rightarrow> mqtt_error + unit \<Rightarrow> mqtt_state" where
  "mqtt_event MqttStopped r = MqttStopped"
| "mqtt_event (MqttRunning fault) (Inr ()) = MqttRunning False"
| "mqtt_event (MqttRunning fault) (Inl MqttCancel) = MqttStopped"
| "mqtt_event (MqttRunning fault) (Inl MqttStreamDone) = MqttStopped"
| "mqtt_event (MqttRunning fault) (Inl MqttRequestsDone) = MqttStopped"
| "mqtt_event (MqttRunning fault) (Inl MqttTimeout) = MqttRunning fault"
| "mqtt_event (MqttRunning fault) (Inl MqttIo) = (if fault then MqttStopped else MqttRunning True)"
| "mqtt_event (MqttRunning fault) (Inl MqttOther) = MqttStopped"

definition mqtt_client :: "(mqtt_error + unit) list \<Rightarrow> mqtt_state" where
  "mqtt_client events = foldl mqtt_event (MqttRunning False) events"

subsection \<open>Loading\<close>

text \<open>The first event of the client must not be an error.  Then every configured actor with a machine and a
  known module gets a driver.\<close>

definition actors_load ::
  "(string \<Rightarrow> mqtt_url option) \<Rightarrow> mqtt_error + unit \<Rightarrow> module_names \<Rightarrow> (string \<rightharpoonup> resource)
     \<Rightarrow> actor_error + (mqtt_options \<times> (string \<times> resource \<times> actor) list)" where
  "actors_load parse first config resources =
     bind_result (mqtt_options_of parse (cf_mqtt_url config)) (\<lambda>options.
     case first of
       Inl e \<Rightarrow> Inl ConnectionFailed
     | Inr u \<Rightarrow>
         Inr (options, load_modules (\<lambda>name cfg r. actor_single name cfg) (cf_actors config)
                         (connect resources (cf_actor_connections config) Map.empty)))"

subsection \<open>Sequential application\<close>

text \<open>Everything started is finished, except at most the one that is running.\<close>

definition driver_ok :: "'s driver \<Rightarrow> bool" where
  "driver_ok self \<longleftrightarrow> dr_applied self = dr_done self @ (case dr_future self of None \<Rightarrow> [] | Some s \<Rightarrow> [s])"

fun delivered :: "'s change list \<Rightarrow> 's list" where
  "delivered [] = []"
| "delivered (Change s # ss) = s # delivered ss"
| "delivered (ChangePending # ss) = delivered ss"
| "delivered (ChangeEnd # ss) = delivered ss"

lemma delivered_append [simp]: "delivered (xs @ ys) = delivered xs @ delivered ys"
  by (induction xs rule: delivered.induct) auto

lemma driver_new_ok: "driver_ok driver_new"
  by (simp add: driver_ok_def driver_new_def)

lemma driver_new_applied [simp]: "dr_applied driver_new = []"
  by (simp add: driver_new_def)

lemma driver_poll_facts:
  assumes "driver_poll self futs sigs = (r, self', futs', sigs')" "driver_ok self"
  shows "driver_ok self'"
    and "\<exists>used. sigs = used @ sigs' \<and> dr_applied self' = dr_applied self @ delivered used"
    and "r = Some SignalBlocks \<or> r = None \<Longrightarrow> dr_done self' = dr_applied self'"
    and "r = Some FutureBlocks \<Longrightarrow> dr_future self' \<noteq> None"
proof -
  have "driver_ok self' \<and> (\<exists>used. sigs = used @ sigs' \<and> dr_applied self' = dr_applied self @ delivered used) \<and>
      (r = Some SignalBlocks \<or> r = None \<longrightarrow> dr_done self' = dr_applied self') \<and> (r = Some FutureBlocks \<longrightarrow> dr_future self' \<noteq> None)"
    using assms
  proof (induction sigs arbitrary: self futs)
    case Nil
    then show ?case
      by (auto simp: driver_poll.simps [of self futs "[]"] driver_ok_def split: option.splits list.splits bool.splits)
  next
    case (Cons c sigs)
    let ?blocked = "dr_future self \<noteq> None \<and> (futs = [] \<or> \<not> hd futs)"
    define self1 where "self1 = (if dr_future self = None then self
      else self\<lparr>dr_future := None, dr_done := dr_done self @ [the (dr_future self)]\<rparr>)"
    define futs1 where "futs1 = (if dr_future self = None then futs else tl futs)"
    have ok1: "driver_ok self1" "dr_future self1 = None" "dr_applied self1 = dr_applied self" "dr_done self1 = dr_applied self1"
      using Cons.prems(2) by (auto simp: self1_def driver_ok_def)
    show ?case
    proof (cases ?blocked)
      case True
      then have "r = Some FutureBlocks \<and> self' = self \<and> sigs' = c # sigs"
        using Cons.prems(1) by (cases futs) (auto simp: driver_poll.simps [of self _ "c # sigs"])
      then show ?thesis using Cons.prems(2) True by (auto intro: exI [of _ "[]"])
    next
      case False
      have step: "driver_poll self futs (c # sigs) =
          (case c of ChangePending \<Rightarrow> (Some SignalBlocks, self1, futs1, sigs) | ChangeEnd \<Rightarrow> (None, self1, futs1, sigs)
           | Change s \<Rightarrow> driver_poll (self1\<lparr>dr_future := Some s, dr_applied := dr_applied self1 @ [s]\<rparr>) futs1 sigs)"
        using False unfolding self1_def futs1_def
        by (cases "dr_future self"; cases futs; cases c) (auto simp: driver_poll.simps [of self _ "_ # sigs"])
      show ?thesis
      proof (cases c)
        case (Change s)
        let ?next = "self1\<lparr>dr_future := Some s, dr_applied := dr_applied self1 @ [s]\<rparr>"
        have "driver_ok ?next" using ok1 by (simp add: driver_ok_def)
        then have IH: "driver_ok self' \<and> (\<exists>used. sigs = used @ sigs' \<and> dr_applied self' = dr_applied ?next @ delivered used) \<and>
          (r = Some SignalBlocks \<or> r = None \<longrightarrow> dr_done self' = dr_applied self') \<and> (r = Some FutureBlocks \<longrightarrow> dr_future self' \<noteq> None)"
          using Cons.IH [of ?next futs1] Cons.prems(1) step Change by simp
        then obtain used where "sigs = used @ sigs'" "dr_applied self' = dr_applied ?next @ delivered used" by blast
        then have "c # sigs = (c # used) @ sigs' \<and> dr_applied self' = dr_applied self @ delivered (c # used)"
          using Change ok1(3) by simp
        then show ?thesis using IH by blast
      qed (use step Cons.prems(1) ok1 in \<open>auto intro: exI [of _ "[c]"]\<close>)
    qed
  qed
  then show "driver_ok self'"
    and "\<exists>used. sigs = used @ sigs' \<and> dr_applied self' = dr_applied self @ delivered used"
    and "r = Some SignalBlocks \<or> r = None \<Longrightarrow> dr_done self' = dr_applied self'"
    and "r = Some FutureBlocks \<Longrightarrow> dr_future self' \<noteq> None" by blast+
qed

text \<open>Polling again and again, until the driver ends.\<close>

fun driver_run :: "nat \<Rightarrow> 's driver \<Rightarrow> bool list \<Rightarrow> 's change list \<Rightarrow> 's driver \<times> bool list \<times> 's change list" where
  "driver_run 0 self futs sigs = (self, futs, sigs)"
| "driver_run (Suc n) self futs sigs =
     (case driver_poll self futs sigs of
        (None, self', futs', sigs') \<Rightarrow> (self', futs', sigs')
      | (Some _, self', futs', sigs') \<Rightarrow> driver_run n self' futs' sigs')"

lemma driver_run_facts:
  "\<lbrakk>driver_run n self futs sigs = (self', futs', sigs'); driver_ok self\<rbrakk> \<Longrightarrow>
     driver_ok self' \<and> (\<exists>used. sigs = used @ sigs' \<and> dr_applied self' = dr_applied self @ delivered used)"
proof (induction n arbitrary: self futs sigs)
  case 0
  then show ?case by simp
next
  case (Suc n)
  obtain r self1 futs1 sigs1 where poll: "driver_poll self futs sigs = (r, self1, futs1, sigs1)"
    by (cases "driver_poll self futs sigs") auto
  note f = driver_poll_facts(1,2) [OF poll Suc.prems(2)]
  show ?case
  proof (cases r)
    case None
    then show ?thesis using Suc.prems(1) poll f by simp
  next
    case (Some x)
    then have "driver_run n self1 futs1 sigs1 = (self', futs', sigs')" using Suc.prems(1) poll by simp
    from Suc.IH [OF this f(1)] obtain used where "driver_ok self'" "sigs1 = used @ sigs'"
      "dr_applied self' = dr_applied self1 @ delivered used" by blast
    then show ?thesis using f(2) by (metis append.assoc delivered_append)
  qed
qed

text \<open>C33. However often its driver is polled and whatever its futures and its signal answer, an actor
  is applied to exactly the states that the signal delivered, in their order, and to each only
  after the one before is finished: all are finished except at most the last.\<close>

theorem actor_driver_sequential:
  "case driver_run n driver_new futs sigs of
     (self, futs', sigs') \<Rightarrow>
       (\<exists>used. sigs = used @ sigs' \<and> dr_applied self = delivered used) \<and>
       dr_applied self = dr_done self @ (case dr_future self of None \<Rightarrow> [] | Some s \<Rightarrow> [s])"
proof -
  obtain self futs' sigs' where run: "driver_run n driver_new futs sigs = (self, futs', sigs')"
    by (cases "driver_run n driver_new futs sigs") auto
  show ?thesis using driver_run_facts [OF run driver_new_ok] unfolding run by (auto simp: driver_ok_def)
qed

subsection \<open>Which actors are loaded\<close>

text \<open>Exactly the actors with a known module and a connection to a machine that exists get a driver, for the
  machine of their last connection.\<close>

lemma actors_load_set:
  assumes "actors_load parse first config resources = Inr (options, drivers)" "distinct (map fst (cf_actors config))"
  shows "(name, r, a) \<in> set drivers \<longleftrightarrow>
    (\<exists>cfg. (name, cfg) \<in> set (cf_actors config) \<and> connection resources (cf_actor_connections config) name = Some r \<and>
      actor_single name cfg = Some a)"
proof -
  have "drivers = load_modules (\<lambda>name cfg r. actor_single name cfg) (cf_actors config)
      (connection resources (cf_actor_connections config))"
    using assms(1)
    by (cases first; cases "mqtt_options_of parse (cf_mqtt_url config)") (simp_all add: actors_load_def connect_connection)
  then show ?thesis using load_modules_set [OF assms(2)] by simp
qed

text \<open>The client stops on the second of two I/O errors without a success between them, and timeouts do not
  count.\<close>

lemma mqtt_stopped: "foldl mqtt_event MqttStopped es = MqttStopped"
  by (induction es) simp_all

lemma mqtt_client_two_io_errors:
  "mqtt_client (es @ [Inl MqttIo] @ replicate n (Inl MqttTimeout) @ [Inl MqttIo]) = MqttStopped"
proof -
  have wait: "foldl mqtt_event (MqttRunning b) (replicate n (Inl MqttTimeout)) = MqttRunning b" for b
    by (induction n) simp_all
  show ?thesis
    by (cases "foldl mqtt_event (MqttRunning False) es") (simp_all add: mqtt_client_def wait mqtt_stopped)
qed

lemma mqtt_client_survives:
  assumes "\<forall>e\<in>set es. e = Inr () \<or> e = Inl MqttTimeout \<or> e = Inl MqttIo"
    and "\<forall>i. Suc i < length es \<longrightarrow> es ! i = Inl MqttIo \<longrightarrow> es ! Suc i = Inr ()"
  shows "mqtt_client es \<noteq> MqttStopped"
proof -
  have "foldl mqtt_event (MqttRunning b) es \<noteq> MqttStopped" if "b \<longrightarrow> es = [] \<or> hd es = Inr ()" for b
    using assms that
  proof (induction es arbitrary: b)
    case (Cons e es)
    have later: "\<forall>i. Suc i < length es \<longrightarrow> es ! i = Inl MqttIo \<longrightarrow> es ! Suc i = Inr ()" using Cons.prems(2) by auto
    have nxt: "e = Inl MqttIo \<longrightarrow> es = [] \<or> hd es = Inr ()" using Cons.prems(2) by (cases es) auto
    consider "e = Inr ()" | "e = Inl MqttTimeout" "\<not> b" | "e = Inl MqttIo" "\<not> b" using Cons.prems(1,3) by auto
    then show ?case
      by cases (use Cons.IH [of False] Cons.IH [of True] Cons.prems(1) later nxt in auto)
  qed simp
  then show ?thesis by (simp add: mqtt_client_def)
qed

subsection \<open>What becomes of a command\<close>

text \<open>The command of a process actor could not be run, or has exited with its output; the output of a command that
  succeeded is logged line by line, that of one that failed as warnings.  Decoding the bytes is the
  library's.\<close>

datatype command_end = NotRun | CommandExited bool bytes bytes

datatype actor_log = ActorStdout string | ActorStderr string | NonzeroExit | NotRunnable

definition strip_cr :: "string \<Rightarrow> string" where
  "strip_cr l = (if l \<noteq> [] \<and> last l = CHR 0x0D then butlast l else l)"

fun lines_from :: "string \<Rightarrow> string \<Rightarrow> string list" where
  "lines_from cur [] = (if cur = [] then [] else [cur])"
| "lines_from cur (c # s) = (if c = CHR 0x0A then strip_cr cur # lines_from [] s else lines_from (cur @ [c]) s)"

definition str_lines :: "string \<Rightarrow> string list" where
  "str_lines s = lines_from [] s"

definition process_finished :: "(bytes \<Rightarrow> string) \<Rightarrow> command_end \<Rightarrow> actor_log list" where
  "process_finished lossy res =
     (case res of
        NotRun \<Rightarrow> [NotRunnable]
      | CommandExited success out err \<Rightarrow>
          if success then map ActorStdout (str_lines (lossy out))
          else NonzeroExit # (if err = [] then [] else map ActorStderr (str_lines (lossy err))))"

text \<open>Logging keeps one entry a line: no line holds a line end, and without carriage returns they are the output.\<close>

lemma lines_from_no_newline: "\<lbrakk>CHR 0x0A \<notin> set cur; l \<in> set (lines_from cur s)\<rbrakk> \<Longrightarrow> CHR 0x0A \<notin> set l"
  by (induction cur s rule: lines_from.induct) (auto simp: strip_cr_def split: if_splits dest: in_set_butlastD)

lemma lines_from_concat:
  assumes "CHR 0x0D \<notin> set cur" "CHR 0x0D \<notin> set s"
  shows "concat (map (\<lambda>l. l @ [CHR 0x0A]) (lines_from cur (s @ [CHR 0x0A]))) = cur @ s @ [CHR 0x0A]"
  using assms
proof (induction s arbitrary: cur)
  case (Cons c s)
  then show ?case by (auto simp: strip_cr_def dest: last_in_set)
qed (auto simp: strip_cr_def dest: last_in_set)

lemma str_lines_spec:
  "l \<in> set (str_lines s) \<Longrightarrow> CHR 0x0A \<notin> set l"
  "CHR 0x0D \<notin> set s \<Longrightarrow> concat (map (\<lambda>l. l @ [CHR 0x0A]) (str_lines (s @ [CHR 0x0A]))) = s @ [CHR 0x0A]"
  using lines_from_no_newline [of "[]" l s] lines_from_concat [of "[]" s] by (simp_all add: str_lines_def)

end
