(* ===== verification/Resources_Correct.thy ===== *)
theory Resources_Correct
  imports Resources
begin

text \<open>
  What the operations of \<open>Resources\<close> do to the world.  \<open>state_change\<close> is the effect
  of storing a new machine state: one key of the state database, the signal of
  the resource and one line of the audit log, nothing else.  Every operation
  either has this effect or leaves the world as it is.

  \<open>self_service\<close> is the contract of the decision trees of \<open>try_update\<close>: without the
  manage permission a user acts on a free machine or on one in his own hands,
  and only in his own name.  The steps of a running server preserve the
  coherence of the state database and the signals.
\<close>

subsection \<open>Effects\<close>

definition state_codec_ok :: "('e, 't, 'z) server_scheme \<Rightarrow> bool" where
  "state_codec_ok S \<longleftrightarrow> (\<forall>m. rk_de_state S (rk_ser_state S m) = m)"

definition machine_view ::
  "('e, 't, 'z) server_scheme \<Rightarrow> ('e \<Rightarrow> contents) \<Rightarrow> 'e world \<Rightarrow> resource \<Rightarrow> machine_state option" where
  "machine_view S stored w r = map_option (rk_de_state S) (stored (w_env w) ''state'' (res_id r))"

definition state_change ::
  "('e, 't, 'z) server_scheme \<Rightarrow> ('e \<Rightarrow> contents) \<Rightarrow> 'e world \<Rightarrow> resource \<Rightarrow> machine_state \<Rightarrow> 'e world \<Rightarrow> bool" where
  "state_change S stored w r m w' \<longleftrightarrow>
     stored (w_env w') = (stored (w_env w))
       (''state'' := (stored (w_env w) ''state'')(res_id r \<mapsto> rk_ser_state S m)) \<and>
     w_signals w' = (w_signals w)(res_id r \<mapsto> archive_state S m) \<and>
     (\<exists>lines. w_audit w = Some lines \<and> w_audit w' = Some (lines @
        [\<lparr>al_timestamp = w_now w, al_machine = res_id r, al_state = machine_state_fmt m\<rparr>])) \<and>
     w_now w' = w_now w"

lemma statedb_get_stored:
  assumes "lmdb_ok S stored seen" "statedb_get S env k = Inr v"
  shows "v = map_option archived_build (stored env ''state'' k)"
proof -
  obtain t where t: "lm_begin_ro S env = Inr t" "db_get S aligned_adapter t ''state'' k = Inr v"
    using assms(2) by (auto simp: statedb_get_def outcome_simps)
  then show ?thesis using aligned_get_seen [OF assms(1) t(2)] lmdb_begin_ro [OF assms(1) t(1)] by simp
qed

lemma get_state_stored:
  assumes "lmdb_ok S stored seen" "get_state S w r = Value v"
  shows "stored (w_env w) ''state'' (res_id r) = Some (av_data v)"
    and "machine_view S stored w r = Some (archived_state S v)"
proof -
  have "statedb_get S (w_env w) (res_id r) = Inr (Some v)"
    using assms(2) by (auto simp: get_state_def split: sum.splits option.splits)
  from statedb_get_stored [OF assms(1) this]
  show st: "stored (w_env w) ''state'' (res_id r) = Some (av_data v)"
    by (cases "stored (w_env w) ''state'' (res_id r)") (simp_all add: archived_build_def)
  then show "machine_view S stored w r = Some (archived_state S v)"
    by (simp add: machine_view_def archived_state_def)
qed

lemma statedb_put_stored:
  assumes "lmdb_ok S stored seen" "statedb_put S env k (archived_build b) = Value (Inr env')"
  shows "stored env' = (stored env)(''state'' := (stored env ''state'')(k \<mapsto> b))"
proof -
  obtain t t' where t: "lm_begin_rw S env = Inr t"
    and put: "db_put S aligned_adapter t ''state'' k (archived_build b) = Value (Inr t')"
    and c: "lm_commit S env t' = Inr env'"
    using assms(2) by (auto simp: statedb_put_def outcome_simps)
  show ?thesis
    using aligned_put_seen [OF assms(1) put] lmdb_begin_rw [OF assms(1) t] lmdb_commit [OF assms(1) c] by simp
qed

lemma set_state_change:
  assumes "lmdb_ok S stored seen" "state_codec_ok S" "set_state S w r m = Value w'"
  shows "state_change S stored w r m w'"
proof -
  have m: "archived_state S (archive_state S m) = m"
    using assms(2) by (simp add: archived_state_def archive_state_def archived_build_def state_codec_ok_def)
  obtain x where x: "statedb_put S (w_env w) (res_id r) (archive_state S m) = Value x"
    and rest: "(case x of Inl e \<Rightarrow> Panic
     | Inr env' \<Rightarrow> (case w_audit w of None \<Rightarrow> Panic
          | Some lines \<Rightarrow> bind_outcome (audit_log S (w_now w) lines (res_id r) (machine_state_fmt m))
                (\<lambda>(res, lines'). Value (w\<lparr>w_env := env', w_audit := Some lines',
                     w_signals := (w_signals w)(res_id r \<mapsto> archive_state S m)\<rparr>)))) = Value w'"
    using assms(3) unfolding set_state_def inner_set_state_def m bind_outcome_Value_iff by blast
  then obtain env' lines where e: "x = Inr env'" and l: "w_audit w = Some lines"
    and a: "bind_outcome (audit_log S (w_now w) lines (res_id r) (machine_state_fmt m))
                (\<lambda>(res, lines'). Value (w\<lparr>w_env := env', w_audit := Some lines',
                     w_signals := (w_signals w)(res_id r \<mapsto> archive_state S m)\<rparr>)) = Value w'"
    by (auto split: sum.splits option.splits)
  have "stored env' = (stored (w_env w))
      (''state'' := (stored (w_env w) ''state'')(res_id r \<mapsto> rk_ser_state S m))"
    using statedb_put_stored [OF assms(1)] x e by (simp add: archive_state_def)
  then show ?thesis
    using a l by (auto simp: state_change_def audit_log_def Let_def split: write_result.splits)
qed

lemma set_status_change:
  assumes "lmdb_ok S stored seen" "state_codec_ok S" "set_status S w r st = Value w'"
  shows "\<exists>old. machine_view S stored w r = Some old \<and>
           state_change S stored w r \<lparr>ms_state = st, ms_previous = ms_previous old\<rparr> w'"
  using assms get_state_stored(2) [OF assms(1), of w r] set_state_change [OF assms(1,2), of w r]
  by (auto simp: set_status_def bind_outcome_Value_iff)

text \<open>After a change the resource shows the new state, every other one the old.\<close>

lemma state_change_view:
  assumes "state_change S stored w r m w'" "state_codec_ok S"
  shows "machine_view S stored w' r = Some m"
    and "res_id r' \<noteq> res_id r \<Longrightarrow> machine_view S stored w' r' = machine_view S stored w r'"
    and "users_view S stored (w_env w') = users_view S stored (w_env w)"
  using assms by (auto simp: state_change_def machine_view_def state_codec_ok_def users_view_def fun_eq_iff)

subsection \<open>Permissions\<close>

definition session_granted ::
  "('e, 't, 'z) server_scheme \<Rightarrow> ('e \<Rightarrow> contents) \<Rightarrow> 'e world \<Rightarrow> session \<Rightarrow> permission_buf \<Rightarrow> bool" where
  "session_granted S stored w ss p \<longleftrightarrow>
     (\<exists>usr. users_view S stored (w_env w) (ref_id (se_user ss)) = Some usr \<and>
        (\<exists>r\<in>set (ud_roles (userdata usr)). grants (sv_roles S) (inner p) r))"

lemma has_perm_granted:
  assumes "lmdb_ok S stored seen" "has_perm S w ss (inner p) = Value b"
  shows "b \<longleftrightarrow> session_granted S stored w ss p"
proof -
  obtain u where u: "users_get_user S (w_env w) (ref_id (se_user ss)) = Value u"
    and b: "(case u of Some usr \<Rightarrow>
           (case is_permitted (sv_stack S) (sv_roles S) (ud_roles (userdata usr)) (inner p) of
              Some b \<Rightarrow> Value b | None \<Rightarrow> Panic) | None \<Rightarrow> Value False) = Value b"
    using assms(2) by (auto simp: has_perm_def bind_outcome_Value_iff get_username_def)
  have view: "u = users_view S stored (w_env w) (ref_id (se_user ss))"
    using users_get_user_view [OF assms(1) u] .
  show ?thesis
  proof (cases u)
    case None
    then show ?thesis using b view by (simp add: session_granted_def)
  next
    case (Some usr)
    then have "is_permitted (sv_stack S) (sv_roles S) (ud_roles (userdata usr)) (inner p) = Some b"
      using b by (auto split: option.splits)
    from is_permitted_correct [OF this] show ?thesis using Some view by (simp add: session_granted_def)
  qed
qed

subsection \<open>The decision trees\<close>

locale self_service =
  fixes may :: "user_ref \<Rightarrow> status \<Rightarrow> status \<Rightarrow> bool"
  assumes acts_on_own: "may u old new \<Longrightarrow> old = Free \<or> old = InUse u \<or> old = Reserved u"
    and acts_in_own_name: "may u old new \<Longrightarrow> new \<in> {Free, InUse u, Reserved u} \<or> (\<exists>x. new = ToCheck x)"
    and frees_before_reserving: "may u old (Reserved x) \<Longrightarrow> old = Free"
begin

lemma foreign_untouched: "\<lbrakk>status_user old = Some v; v \<noteq> u\<rbrakk> \<Longrightarrow> \<not> may u old new"
  using acts_on_own by fastforce

lemma withdrawn_untouched: "old \<in> {Disabled, Blocked x, ToCheck x} \<Longrightarrow> \<not> may u old new"
  using acts_on_own by fastforce

lemma no_withdrawal: "new \<in> {Disabled, Blocked x} \<Longrightarrow> \<not> may u old new"
  using acts_in_own_name by fastforce

end

interpretation writer: self_service writer_may
  by unfold_locales (auto elim: writer_may.elims)

interpretation everybody: self_service everybody_may
  by unfold_locales (auto elim: everybody_may.elims)

lemma everybody_may_returns:
  "everybody_may u old new \<Longrightarrow> old = InUse u \<and> (new = Free \<or> (\<exists>x. new = ToCheck x)) \<or> old = Reserved u \<and> new = Free"
  by (auto elim: everybody_may.elims)

lemma everybody_may_writer: "everybody_may u old new \<Longrightarrow> writer_may u old new"
  by (auto elim: everybody_may.elims)

text \<open>What \<open>try_update\<close> decides, from the permissions of the session.\<close>

definition update_allowed :: "bool \<Rightarrow> bool \<Rightarrow> user_ref \<Rightarrow> status \<Rightarrow> status \<Rightarrow> bool" where
  "update_allowed mng wr u old new \<longleftrightarrow> mng \<or> wr \<and> writer_may u old new \<or> everybody_may u old new"

lemma try_update_effect:
  assumes "lmdb_ok S stored seen" "state_codec_ok S" "try_update S w r ss new = Value w'"
  defines "mng \<equiv> session_granted S stored w ss (priv_manage (get_required_privs r))"
    and "wr \<equiv> session_granted S stored w ss (priv_write (get_required_privs r))"
  shows "\<exists>old. machine_view S stored w r = Some old \<and>
    (if update_allowed mng wr (se_user ss) (ms_state old) new
     then state_change S stored w r \<lparr>ms_state = new, ms_previous = ms_previous old\<rparr> w' else w' = w)"
proof -
  obtain v m ok where v: "get_state S w r = Value v" and m: "has_manage S w ss r = Value m"
    and ok: "(if m then Value True else bind_outcome (has_write S w ss r)
      (\<lambda>wr. Value (wr \<and> writer_may (se_user ss) (ms_state (archived_state S v)) new))) = Value ok"
    and res: "(if ok \<or> everybody_may (se_user ss) (ms_state (archived_state S v)) new
      then set_status S w r new else Value w) = Value w'"
    using assms(3) by (auto simp: try_update_def bind_outcome_Value_iff Let_def get_user_ref_def)
  have view: "machine_view S stored w r = Some (archived_state S v)" using get_state_stored(2) [OF assms(1) v] .
  have mng: "m = mng" using has_perm_granted [OF assms(1)] m by (simp add: has_manage_def mng_def)
  have "b = wr" if "has_write S w ss r = Value b" for b
    using has_perm_granted [OF assms(1)] that by (simp add: has_write_def wr_def)
  then have "ok \<longleftrightarrow> mng \<or> wr \<and> writer_may (se_user ss) (ms_state (archived_state S v)) new"
    using ok mng by (auto simp: bind_outcome_Value_iff split: if_splits)
  then have "update_allowed mng wr (se_user ss) (ms_state (archived_state S v)) new \<longleftrightarrow>
      ok \<or> everybody_may (se_user ss) (ms_state (archived_state S v)) new"
    by (auto simp: update_allowed_def)
  then show ?thesis
    using res view set_status_change [OF assms(1,2), of w r new w'] by (auto split: if_splits)
qed

lemma give_back_effect:
  assumes "lmdb_ok S stored seen" "state_codec_ok S" "give_back S w r ss = Value w'"
  shows "\<exists>old. machine_view S stored w r = Some old \<and>
    (if ms_state old = InUse (se_user ss)
     then state_change S stored w r (machine_free (Some (se_user ss))) w' else w' = w)"
proof -
  obtain v where v: "get_state S w r = Value v"
    and rest: "(case ms_state (archived_state S v) of
         InUse usr \<Rightarrow> if usr = se_user ss then set_state S w r (machine_free (Some (se_user ss))) else Value w
       | _ \<Rightarrow> Value w) = Value w'"
    using assms(3) unfolding give_back_def bind_outcome_Value_iff Let_def get_user_ref_def by blast
  show ?thesis
    using get_state_stored(2) [OF assms(1) v] rest set_state_change [OF assms(1,2), of w r _ w']
    by (auto split: status.splits if_splits)
qed

subsection \<open>A running server\<close>

text \<open>
  The operations by which resources and users change while the server runs, each
  on any resource of the server and for any session; time may pass.
\<close>

inductive srv_step ::
  "('e, 't, 'z) server_scheme \<Rightarrow> resource set \<Rightarrow> 'e world \<Rightarrow> 'e world \<Rightarrow> bool" for S R where
  update: "\<lbrakk>r \<in> R; try_update S w r ss new = Value w'\<rbrakk> \<Longrightarrow> srv_step S R w w'"
| return: "\<lbrakk>r \<in> R; give_back S w r ss = Value w'\<rbrakk> \<Longrightarrow> srv_step S R w w'"
| force: "\<lbrakk>r \<in> R; force_set S w r new = Value w'\<rbrakk> \<Longrightarrow> srv_step S R w w'"
| put_user: "users_put_user S (w_env w) uid usr = Value (Inr env') \<Longrightarrow> srv_step S R w (w\<lparr>w_env := env'\<rparr>)"
| del_user: "users_del_user S (w_env w) uid = Inr env' \<Longrightarrow> srv_step S R w (w\<lparr>w_env := env'\<rparr>)"
| tick: "w_now w \<le> t \<Longrightarrow> srv_step S R w (w\<lparr>w_now := t\<rparr>)"

inductive_cases srv_stepE: "srv_step S R w w'"

text \<open>Every resource has a stored state, its signal holds that state, and the audit log is open.\<close>

definition coherent ::
  "('e \<Rightarrow> contents) \<Rightarrow> resource set \<Rightarrow> 'e world \<Rightarrow> bool" where
  "coherent stored R w \<longleftrightarrow> w_audit w \<noteq> None \<and>
     (\<forall>r\<in>R. \<exists>v. stored (w_env w) ''state'' (res_id r) = Some (av_data v) \<and> w_signals w (res_id r) = Some v)"

lemma state_change_coherent:
  "\<lbrakk>state_change S stored w r m w'; coherent stored R w\<rbrakk> \<Longrightarrow> coherent stored R w'"
  by (auto simp: state_change_def coherent_def archive_state_def archived_build_def)

lemma users_change_coherent:
  "\<lbrakk>stored env' ''state'' = stored (w_env w) ''state''; coherent stored R w\<rbrakk> \<Longrightarrow> coherent stored R (w\<lparr>w_env := env'\<rparr>)"
  by (simp add: coherent_def)

lemma srv_step_coherent:
  assumes "lmdb_ok S stored seen" "state_codec_ok S" "user_codec_ok S" "srv_step S R w w'" "coherent stored R w"
  shows "coherent stored R w'"
  using assms(4)
proof cases
  case (update r ss new)
  then show ?thesis using try_update_effect [OF assms(1,2) update(2)] assms(5) state_change_coherent
    by (auto split: if_splits)
next
  case (return r ss)
  then show ?thesis using give_back_effect [OF assms(1,2) return(2)] assms(5) state_change_coherent
    by (auto split: if_splits)
next
  case (force r new)
  then show ?thesis using set_status_change [OF assms(1,2)] assms(5) state_change_coherent
    unfolding force_set_def by blast
next
  case (put_user uid usr env')
  then have "stored env' ''state'' = stored (w_env w) ''state''"
    using userdb_put_view(2) [OF assms(1,3)] by (simp add: users_put_user_def)
  then show ?thesis using put_user assms(5) by (simp add: users_change_coherent)
next
  case (del_user uid env')
  then have "stored env' ''state'' = stored (w_env w) ''state''"
    using userdb_delete_view(2) [OF assms(1)] by (simp add: users_del_user_def)
  then show ?thesis using del_user assms(5) by (simp add: users_change_coherent)
next
  case (tick t)
  then show ?thesis using assms(5) by (simp add: coherent_def)
qed

lemma srv_steps_coherent:
  assumes "lmdb_ok S stored seen" "state_codec_ok S" "user_codec_ok S"
  shows "(srv_step S R)\<^sup>*\<^sup>* w w' \<Longrightarrow> coherent stored R w \<Longrightarrow> coherent stored R w'"
  by (induction rule: rtranclp_induct) (auto intro: srv_step_coherent [OF assms])

text \<open>Starting the server: \<open>Inner::new\<close> for one resource after the other.\<close>

fun start_resources :: "('e, 't, 'z) server_scheme \<Rightarrow> 'e world \<Rightarrow> resource list \<Rightarrow> 'e world outcome" where
  "start_resources S w [] = Value w"
| "start_resources S w (r # rs) = bind_outcome (inner_new S w (res_id r)) (\<lambda>w'. start_resources S w' rs)"

lemma inner_new_coherent:
  assumes "lmdb_ok S stored seen" "inner_new S w (res_id r) = Value w'" "coherent stored R w"
  shows "coherent stored (insert r R) w'"
proof (cases "statedb_get S (w_env w) (res_id r)")
  case (Inr v)
  note st = statedb_get_stored [OF assms(1) Inr]
  show ?thesis
  proof (cases v)
    case (Some prev)
    then have "stored (w_env w) ''state'' (res_id r) = Some (av_data prev)"
      using st by (cases "stored (w_env w) ''state'' (res_id r)") (auto simp: archived_build_def)
    then show ?thesis using assms(2,3) Inr Some by (auto simp: inner_new_def coherent_def)
  next
    case None
    then obtain env' where
      put: "statedb_put S (w_env w) (res_id r) (archive_state S (machine_free None)) = Value (Inr env')"
      and w': "w' = w\<lparr>w_env := env', w_signals := (w_signals w)(res_id r \<mapsto> archive_state S (machine_free None))\<rparr>"
      using assms(2) Inr by (auto simp: inner_new_def Let_def outcome_simps)
    show ?thesis using statedb_put_stored [OF assms(1) put [unfolded archive_state_def]] assms(3)
      by (auto simp: w' coherent_def archive_state_def archived_build_def)
  qed
qed (use assms(2) in \<open>simp add: inner_new_def\<close>)

lemma start_resources_coherent:
  "\<lbrakk>lmdb_ok S stored seen; start_resources S w rs = Value w'; coherent stored R w\<rbrakk>
     \<Longrightarrow> coherent stored (R \<union> set rs) w'"
proof (induction rs arbitrary: w R)
  case (Cons r rs)
  then obtain w1 where w1: "inner_new S w (res_id r) = Value w1" "start_resources S w1 rs = Value w'"
    by (auto simp: bind_outcome_Value_iff)
  then have "coherent stored (insert r R) w1" using inner_new_coherent Cons.prems(1,3) by blast
  then show ?case using Cons.IH [OF Cons.prems(1) w1(2), of "insert r R"] by simp
qed simp

end
