(* ===== verification/User_API.thy ===== *)
theory User_API
  imports Resources_Correct
begin

text \<open>
  \<open>bffhd/capnp/user.rs\<close>, \<open>user_system.rs\<close>, \<open>session.rs\<close> and \<open>permissionsystem.rs\<close>: the
  user side of the network interface.  A handler takes the decoded parameters of
  its message and the session that holds the capability, and returns the reply,
  or the error of its promise, with the world after it.  The capabilities a reply
  carries are flags.

  \<open>api\<close> adds the remaining foreign code and configuration: the hex crate, the space
  name and the instance URL.
\<close>

subsection \<open>Replies and errors\<close>

datatype capnp_error = Failed string | DatabaseFailed lmdb_error | Unimplemented string

record ('e, 't) api = "('e, 't) server" +
  hex_encode :: "string \<Rightarrow> string"
  hex_decode :: "string \<Rightarrow> string option"
  cfg_space :: "string option"
  cfg_url :: "string option"

type_synonym ('a, 'e) reply = "((capnp_error + 'a) \<times> 'e world) outcome"

record user_reply =
  ur_username :: string
  ur_info :: bool
  ur_manage :: bool
  ur_admin :: bool
  ur_card :: bool

definition method_not_implemented :: "'e world \<Rightarrow> ('a, 'e) reply" where
  "method_not_implemented w = Value (Inl (Unimplemented ''method not implemented''), w)"

text \<open>\<open>pry!(users.put_user(..))\<close> and then \<open>Promise::ok(())\<close>.\<close>

definition put_user_reply ::
  "('e, 't, 'z) server_scheme \<Rightarrow> 'e world \<Rightarrow> string \<Rightarrow> user \<Rightarrow> (unit, 'e) reply" where
  "put_user_reply S w uid usr =
     bind_outcome (users_put_user S (w_env w) uid usr) (\<lambda>r.
     case r of
       Inl e \<Rightarrow> Value (Inl (DatabaseFailed e), w)
     | Inr env' \<Rightarrow> Value (Inr (), w\<lparr>w_env := env'\<rparr>))"

subsection \<open>Describing a user\<close>

definition user_fill ::
  "('e, 't, 'z) server_scheme \<Rightarrow> 'e world \<Rightarrow> session \<Rightarrow> user \<Rightarrow> user_reply outcome" where
  "user_fill S w ss usr =
     (let is_me = (ref_id (get_user_ref ss) = user_id usr) in
      bind_outcome (if is_me then Value True else has_perm S w ss ''bffh.users.info'') (\<lambda>inf.
      bind_outcome (has_perm S w ss ''bffh.users.admin'') (\<lambda>adm.
        Value \<lparr>ur_username = user_id usr, ur_info = inf, ur_manage = is_me, ur_admin = adm, ur_card = adm\<rparr>)))"

definition user_build_optional ::
  "('e, 't, 'z) server_scheme \<Rightarrow> 'e world \<Rightarrow> session \<Rightarrow> user_ref option \<Rightarrow> user_reply option outcome" where
  "user_build_optional S w ss u =
     (case u of
        None \<Rightarrow> Value None
      | Some ur \<Rightarrow>
          bind_outcome (users_get_user S (w_env w) (get_username ur)) (\<lambda>usr.
          case usr of
            None \<Rightarrow> Value None
          | Some x \<Rightarrow> bind_outcome (user_fill S w ss x) (\<lambda>b. Value (Some b))))"

definition user_build :: "('e, 't, 'z) server_scheme \<Rightarrow> 'e world \<Rightarrow> session \<Rightarrow> user_reply outcome" where
  "user_build S w ss = bind_outcome (session_get_user S w ss) (\<lambda>usr. user_fill S w ss usr)"

subsection \<open>A user's own interface\<close>

text \<open>An API object is a session and the user it stands for.\<close>

definition user_list_roles ::
  "('e, 't, 'z) server_scheme \<Rightarrow> 'e world \<Rightarrow> user_ref \<Rightarrow> (string list, 'e) reply" where
  "user_list_roles S w self =
     bind_outcome (users_get_user S (w_env w) (get_username self)) (\<lambda>usr.
       Value (Inr (case usr of Some x \<Rightarrow> ud_roles (userdata x) | None \<Rightarrow> []), w))"

definition user_pwd ::
  "('e, 't, 'z) server_scheme \<Rightarrow> string \<Rightarrow> 'e world \<Rightarrow> user_ref \<Rightarrow> string \<Rightarrow> string \<Rightarrow> (unit, 'e) reply" where
  "user_pwd S salt w self old_pw new_pw =
     (let uid = get_username self in
      bind_outcome (users_get_user S (w_env w) uid) (\<lambda>usr.
      case usr of
        None \<Rightarrow> Value (Inr (), w)
      | Some x \<Rightarrow>
          if check_password S x old_pw = Inr True
          then bind_outcome (set_pw S salt x new_pw) (\<lambda>x'. put_user_reply S w uid x')
          else Value (Inr (), w)))"

subsection \<open>The administrator's interface\<close>

definition admin_add_role ::
  "('e, 't, 'z) server_scheme \<Rightarrow> 'e world \<Rightarrow> user_ref \<Rightarrow> string \<Rightarrow> (unit, 'e) reply" where
  "admin_add_role S w self rolename =
     (case roles_get (sv_roles S) rolename of
        None \<Rightarrow> Value (Inr (), w)
      | Some _ \<Rightarrow>
          bind_outcome (users_get_user S (w_env w) (get_username self)) (\<lambda>usr.
          case usr of
            None \<Rightarrow> Panic
          | Some target \<Rightarrow>
              if \<not> (\<exists>r\<in>set (ud_roles (userdata target)). r = rolename)
              then put_user_reply S w (get_username self)
                     (target\<lparr>userdata := (userdata target)\<lparr>ud_roles := ud_roles (userdata target) @ [rolename]\<rparr>\<rparr>)
              else Value (Inr (), w)))"

definition admin_remove_role ::
  "('e, 't, 'z) server_scheme \<Rightarrow> 'e world \<Rightarrow> user_ref \<Rightarrow> string \<Rightarrow> (unit, 'e) reply" where
  "admin_remove_role S w self rolename =
     (case roles_get (sv_roles S) rolename of
        None \<Rightarrow> Value (Inr (), w)
      | Some _ \<Rightarrow>
          bind_outcome (users_get_user S (w_env w) (get_username self)) (\<lambda>usr.
          case usr of
            None \<Rightarrow> Panic
          | Some target \<Rightarrow>
              if \<exists>r\<in>set (ud_roles (userdata target)). r = rolename
              then put_user_reply S w (get_username self)
                     (target\<lparr>userdata := (userdata target)
                        \<lparr>ud_roles := filter (\<lambda>r. r \<noteq> rolename) (ud_roles (userdata target))\<rparr>\<rparr>)
              else Value (Inr (), w)))"

definition admin_pwd ::
  "('e, 't, 'z) server_scheme \<Rightarrow> string \<Rightarrow> 'e world \<Rightarrow> user_ref \<Rightarrow> string \<Rightarrow> (unit, 'e) reply" where
  "admin_pwd S salt w self new_pw =
     (let uid = get_username self in
      bind_outcome (users_get_user S (w_env w) uid) (\<lambda>usr.
      case usr of
        None \<Rightarrow> Value (Inr (), w)
      | Some x \<Rightarrow> bind_outcome (set_pw S salt x new_pw) (\<lambda>x'. put_user_reply S w uid x')))"

subsection \<open>Cards\<close>

definition nonexisting_user :: "string \<Rightarrow> capnp_error" where
  "nonexisting_user uid = Failed (''User API object with nonexisting user \"'' @ uid @ ''\"'')"

definition card_get_token_list ::
  "('e, 't, 'z) api_scheme \<Rightarrow> 'e world \<Rightarrow> user_ref \<Rightarrow> (string list, 'e) reply" where
  "card_get_token_list A w self =
     bind_outcome (users_get_user A (w_env w) (get_username self)) (\<lambda>usr.
     case usr of
       None \<Rightarrow> Value (Inl (nonexisting_user (get_username self)), w)
     | Some x \<Rightarrow>
         let tk = (case Option.bind (map_of (ud_kv (userdata x)) ''cardtoken'') (hex_decode A) of
                     Some t \<Rightarrow> t | None \<Rightarrow> [])
         in Value (Inr (if tk \<noteq> [] then [tk] else []), w))"

definition token_text :: "('e, 't, 'z) api_scheme \<Rightarrow> string \<Rightarrow> string" where
  "token_text A token = (if from_utf8_ok token then token else hex_encode A token)"

definition card_bind ::
  "('e, 't, 'z) api_scheme \<Rightarrow> 'e world \<Rightarrow> user_ref \<Rightarrow> string \<Rightarrow> string \<Rightarrow> (unit, 'e) reply" where
  "card_bind A w self auth_key raw_token =
     (let token = token_text A raw_token; card_key = hex_encode A auth_key in
      bind_outcome (users_get_user A (w_env w) (get_username self)) (\<lambda>usr.
      case usr of
        None \<Rightarrow> Value (Inl (nonexisting_user (get_username self)), w)
      | Some x \<Rightarrow>
          let kv = ud_kv (userdata x); prev_token = map_of kv ''cardtoken''; prev_cardk = map_of kv ''cardkey'' in
          if prev_token = Some token \<and> prev_cardk = Some card_key then Value (Inr (), w)
          else if prev_token = Some token \<and> prev_cardk \<noteq> None then Value (Inr (), w)
          else
            let kv' = AList.update ''cardkey'' card_key (AList.update ''cardtoken'' token kv)
            in put_user_reply A w (get_username self) (x\<lparr>userdata := (userdata x)\<lparr>ud_kv := kv'\<rparr>\<rparr>)))"

definition card_unbind ::
  "('e, 't, 'z) api_scheme \<Rightarrow> 'e world \<Rightarrow> user_ref \<Rightarrow> string \<Rightarrow> (unit, 'e) reply" where
  "card_unbind A w self raw_token =
     (let token = token_text A raw_token in
      bind_outcome (users_get_user A (w_env w) (get_username self)) (\<lambda>usr.
      case usr of
        None \<Rightarrow> Value (Inl (nonexisting_user (get_username self)), w)
      | Some x \<Rightarrow>
          let kv = ud_kv (userdata x);
              kv' = (if map_of kv ''cardtoken'' = Some token
                     then AList.delete ''cardkey'' (AList.delete ''cardtoken'' kv) else kv)
          in put_user_reply A w (get_username self) (x\<lparr>userdata := (userdata x)\<lparr>ud_kv := kv'\<rparr>\<rparr>)))"

text \<open>The fresh UUID is an argument.\<close>

definition card_gen_card_token :: "'e world \<Rightarrow> string \<Rightarrow> (string, 'e) reply" where
  "card_gen_card_token w uuid = Value (Inr uuid, w)"

definition card_get_meta_info :: "'e world \<Rightarrow> (string, 'e) reply" where
  "card_get_meta_info w =
     Value (Inr (''FABACCESS'' @ [CHR 0x00] @ ''DESFIRE'' @ [CHR 0x00] @ ''1.0'' @ [CHR 0x00]), w)"

definition card_get_space_info :: "('e, 't, 'z) api_scheme \<Rightarrow> 'e world \<Rightarrow> (string, 'e) reply" where
  "card_get_space_info A w =
     (case cfg_space A of
        None \<Rightarrow> Value (Inl (Failed ''No space name configured''), w)
      | Some space \<Rightarrow>
          (case cfg_url A of
             None \<Rightarrow> Value (Inl (Failed ''No instance url configured''), w)
           | Some url \<Rightarrow> Value (Inr (''urn:fabaccess:lab:'' @ space @ [CHR 0x00] @ url), w)))"

subsection \<open>The user system\<close>

definition users_get_user_self ::
  "('e, 't, 'z) server_scheme \<Rightarrow> 'e world \<Rightarrow> session \<Rightarrow> (user_reply, 'e) reply" where
  "users_get_user_self S w ss = bind_outcome (user_build S w ss) (\<lambda>b. Value (Inr b, w))"

text \<open>The list is filled in the order of a hash map: the reply is indexed by the id instead.\<close>

definition users_get_user_list ::
  "('e, 't, 'z) server_scheme \<Rightarrow> 'e world \<Rightarrow> session
     \<Rightarrow> (capnp_error + (string \<rightharpoonup> user_reply outcome)) \<times> 'e world" where
  "users_get_user_list S w ss =
     (case userdb_get_all S (w_env w) of
        Inl e \<Rightarrow> (Inl (Failed ''UserDB error''), w)
      | Inr us \<Rightarrow> (Inr (\<lambda>i. map_option (\<lambda>ud. user_fill S w ss \<lparr>user_id = i, userdata = ud\<rparr>) (us i)), w))"

datatype add_user_error = AlreadyExists | UsernameInvalid | PasswordInvalid

definition users_add_user_fallible ::
  "('e, 't, 'z) server_scheme \<Rightarrow> string \<Rightarrow> 'e world \<Rightarrow> session \<Rightarrow> string \<Rightarrow> string
     \<Rightarrow> (add_user_error + user_reply, 'e) reply" where
  "users_add_user_fallible S salt w ss username password =
     (if username \<noteq> [] \<and> password \<noteq> [] then
        bind_outcome (users_get_user S (w_env w) username) (\<lambda>known.
        if known = None then
          bind_outcome (new_with_plain_pw S salt username password) (\<lambda>usr.
          bind_outcome (put_user_reply S w username usr) (\<lambda>(r, w').
          case r of
            Inl e \<Rightarrow> Value (Inl e, w')
          | Inr _ \<Rightarrow> bind_outcome (user_fill S w' ss usr) (\<lambda>b. Value (Inr (Inr b), w'))))
        else Value (Inr (Inl AlreadyExists), w))
      else if username = [] then Value (Inr (Inl UsernameInvalid), w)
      else Value (Inr (Inl PasswordInvalid), w))"

text \<open>A failed deletion is only logged.\<close>

definition users_remove_user ::
  "('e, 't, 'z) server_scheme \<Rightarrow> 'e world \<Rightarrow> string \<Rightarrow> (unit, 'e) reply" where
  "users_remove_user S w who =
     (case users_del_user S (w_env w) who of
        Inl e \<Rightarrow> Value (Inr (), w)
      | Inr env' \<Rightarrow> Value (Inr (), w\<lparr>w_env := env'\<rparr>))"

definition users_get_user_by_name ::
  "('e, 't, 'z) server_scheme \<Rightarrow> 'e world \<Rightarrow> session \<Rightarrow> string \<Rightarrow> (user_reply option, 'e) reply" where
  "users_get_user_by_name S w ss username =
     bind_outcome (user_build_optional S w ss (Some (user_ref_new username))) (\<lambda>b. Value (Inr b, w))"

subsection \<open>The session and the permission system\<close>

record session_caps =
  sc_machine_info :: bool
  sc_user_info :: bool
  sc_user_manage :: bool
  sc_user_search :: bool
  sc_permission_info :: bool

definition api_session_build ::
  "('e, 't, 'z) server_scheme \<Rightarrow> 'e world \<Rightarrow> session \<Rightarrow> session_caps outcome" where
  "api_session_build S w ss =
     bind_outcome (has_perm S w ss ''bffh.users.manage'') (\<lambda>m.
       Value \<lparr>sc_machine_info = True, sc_user_info = True, sc_user_manage = m, sc_user_search = m,
              sc_permission_info = True\<rparr>)"

definition get_role_list :: "('e, 't, 'z) server_scheme \<Rightarrow> string set" where
  "get_role_list S = roles_list (sv_roles S)"

end
