(* ===== verification/Codec.thy ===== *)
theory Codec
  imports Users
begin

text \<open>
  A concrete instance of the foreign code of the user database: an archive
  format with length prefixes that reads back what it wrote, a password hash
  that keeps the argon2 prefix, and the store in memory.  Concrete runs of the
  model use it; no property rests on it.
\<close>

subsection \<open>Length prefixed archives\<close>

definition enc_nat :: "nat \<Rightarrow> bytes" where
  "enc_nat n = replicate n 1 @ [0]"

fun dec_nat :: "bytes \<Rightarrow> nat \<times> bytes" where
  "dec_nat [] = (0, [])"
| "dec_nat (b # bs) = (if b = 0 then (0, bs) else let (n, r) = dec_nat bs in (Suc n, r))"

definition enc_str :: "string \<Rightarrow> bytes" where
  "enc_str s = enc_nat (length s) @ map (\<lambda>c. of_nat (of_char c)) s"

definition dec_str :: "bytes \<Rightarrow> string \<times> bytes" where
  "dec_str bs = (let (n, r) = dec_nat bs in (map (\<lambda>w. char_of (unat w)) (take n r), drop n r))"

definition enc_list :: "('a \<Rightarrow> bytes) \<Rightarrow> 'a list \<Rightarrow> bytes" where
  "enc_list f xs = enc_nat (length xs) @ concat (map f xs)"

fun dec_n :: "(bytes \<Rightarrow> 'a \<times> bytes) \<Rightarrow> nat \<Rightarrow> bytes \<Rightarrow> 'a list \<times> bytes" where
  "dec_n g 0 bs = ([], bs)"
| "dec_n g (Suc n) bs = (let (x, r) = g bs; (xs, r') = dec_n g n r in (x # xs, r'))"

definition dec_list :: "(bytes \<Rightarrow> 'a \<times> bytes) \<Rightarrow> bytes \<Rightarrow> 'a list \<times> bytes" where
  "dec_list g bs = (let (n, r) = dec_nat bs in dec_n g n r)"

definition enc_opt :: "('a \<Rightarrow> bytes) \<Rightarrow> 'a option \<Rightarrow> bytes" where
  "enc_opt f x = enc_list f (case x of None \<Rightarrow> [] | Some y \<Rightarrow> [y])"

definition dec_opt :: "(bytes \<Rightarrow> 'a \<times> bytes) \<Rightarrow> bytes \<Rightarrow> 'a option \<times> bytes" where
  "dec_opt g bs = (let (xs, r) = dec_list g bs in (case xs of [] \<Rightarrow> None | y # _ \<Rightarrow> Some y, r))"

lemma dec_enc_nat [simp]: "dec_nat (enc_nat n @ r) = (n, r)"
  by (induction n) (simp_all add: enc_nat_def)

lemma unat_of_char: "unat (of_nat (of_char c) :: u8) = of_char c"
  using of_char_mod_256 [of c, where ?'a = nat] by (simp add: unat_of_nat)

lemma dec_enc_str [simp]: "dec_str (enc_str s @ r) = (s, r)"
  by (simp add: enc_str_def dec_str_def comp_def unat_of_char)

lemma dec_enc_list:
  "(\<And>x r. g (f x @ r) = (x, r)) \<Longrightarrow> dec_list g (enc_list f xs @ r) = (xs, r)"
proof -
  assume rt: "\<And>x r. g (f x @ r) = (x, r)"
  have "dec_n g (length xs) (concat (map f xs) @ r) = (xs, r)" for xs
    by (induction xs) (simp_all add: rt)
  then show ?thesis by (simp add: enc_list_def dec_list_def)
qed

lemma dec_enc_opt:
  "(\<And>x r. g (f x @ r) = (x, r)) \<Longrightarrow> dec_opt g (enc_opt f x @ r) = (x, r)"
  using dec_enc_list [of g f] by (cases x) (simp_all add: enc_opt_def dec_opt_def)

subsection \<open>Archived users\<close>

definition enc_pair :: "string \<times> string \<Rightarrow> bytes" where
  "enc_pair p = enc_str (fst p) @ enc_str (snd p)"

definition dec_pair :: "bytes \<Rightarrow> (string \<times> string) \<times> bytes" where
  "dec_pair bs = (let (a, r) = dec_str bs; (b, r') = dec_str r in ((a, b), r'))"

lemma dec_enc_pair [simp]: "dec_pair (enc_pair p @ r) = (p, r)"
  by (simp add: enc_pair_def dec_pair_def)

definition enc_user :: "user \<Rightarrow> bytes" where
  "enc_user u = enc_str (user_id u) @ enc_list enc_str (ud_roles (userdata u))
     @ enc_opt enc_str (ud_passwd (userdata u)) @ enc_list enc_pair (ud_kv (userdata u))"

definition dec_user :: "bytes \<Rightarrow> user" where
  "dec_user bs =
     (let (i, r) = dec_str bs; (rs, r) = dec_list dec_str r; (pw, r) = dec_opt dec_str r;
          (kv, r) = dec_list dec_pair r
      in \<lparr>user_id = i, userdata = \<lparr>ud_roles = rs, ud_passwd = pw, ud_kv = kv\<rparr>\<rparr>)"

lemma dec_enc_user [simp]: "dec_user (enc_user u) = u"
proof -
  have "dec_list dec_pair (enc_list enc_pair (ud_kv (userdata u)) @ []) = (ud_kv (userdata u), [])"
    by (rule dec_enc_list) simp
  then show ?thesis
    by (simp add: enc_user_def dec_user_def dec_enc_list dec_enc_opt)
qed

definition mem_users :: "(mem_env, mem_env) user_deps" where
  "mem_users = lmdb.extend mem_lmdb
     \<lparr>rk_ser_user = enc_user, rk_de_user = dec_user,
      argon_hash = (\<lambda>pw salt. Inr (''$argon2id$'' @ salt @ ''$'' @ pw)),
      argon_verify = (\<lambda>h pw. Inr (rev (take (length pw) (rev h)) = pw)),
      toml_users = (\<lambda>f. Inr [(''ada'', \<lparr>ud_roles = [''lab/user''], ud_passwd = Some ''secret'', ud_kv = []\<rparr>)]),
      toml_encode = (\<lambda>us. Inr [])\<rparr>"

lemma mem_users_lmdb_ok: "lmdb_ok mem_users mem_contents mem_contents"
  using mem_lmdb_ok by (simp add: lmdb_ok_def mem_users_def mem_lmdb_def lmdb.defs)

lemma mem_users_ok: "user_codec_ok mem_users \<and> argon_ok mem_users"
  by (auto simp: user_codec_ok_def argon_ok_def mem_users_def mem_lmdb_def lmdb.defs)

end
