(* ===== verification/Sample_Server.thy ===== *)
theory Sample_Server
  imports Resources_Correct Codec
begin

text \<open>
  A concrete server for runs of the model: the users of \<open>Codec\<close>, an archive
  format for machine states, an audit log that accepts every line, two roles
  and one machine.
\<close>

fun status_tag :: "status \<Rightarrow> nat \<times> string" where
  "status_tag Free = (0, [])"
| "status_tag (InUse u) = (1, ref_id u)"
| "status_tag (ToCheck u) = (2, ref_id u)"
| "status_tag (Blocked u) = (3, ref_id u)"
| "status_tag Disabled = (4, [])"
| "status_tag (Reserved u) = (5, ref_id u)"

definition tag_status :: "nat \<Rightarrow> string \<Rightarrow> status" where
  "tag_status n s = (let u = \<lparr>ref_id = s\<rparr> in
     if n = 1 then InUse u else if n = 2 then ToCheck u else if n = 3 then Blocked u
     else if n = 4 then Disabled else if n = 5 then Reserved u else Free)"

definition enc_state :: "machine_state \<Rightarrow> bytes" where
  "enc_state m = enc_nat (fst (status_tag (ms_state m))) @ enc_str (snd (status_tag (ms_state m)))
     @ enc_opt (enc_str \<circ> ref_id) (ms_previous m)"

definition dec_ref :: "bytes \<Rightarrow> user_ref \<times> bytes" where
  "dec_ref bs = (let (s, r) = dec_str bs in (\<lparr>ref_id = s\<rparr>, r))"

definition dec_state :: "bytes \<Rightarrow> machine_state" where
  "dec_state bs =
     (let (n, r) = dec_nat bs; (s, r) = dec_str r; (prev, r) = dec_opt dec_ref r
      in \<lparr>ms_state = tag_status n s, ms_previous = prev\<rparr>)"

lemma tag_status_tag [simp]: "tag_status (fst (status_tag s)) (snd (status_tag s)) = s"
  by (cases s) (simp_all add: tag_status_def)

lemma dec_enc_state [simp]: "dec_state (enc_state m) = m"
proof -
  have "dec_opt dec_ref (enc_opt (enc_str \<circ> ref_id) (ms_previous m) @ []) = (ms_previous m, [])"
    by (rule dec_enc_opt) (simp add: dec_ref_def)
  then show ?thesis by (simp add: enc_state_def dec_state_def)
qed

definition mem_server :: "(mem_env, mem_env) server" where
  "mem_server = user_deps.extend mem_users
     \<lparr>rk_ser_state = enc_state, rk_de_state = dec_state, audit_write = (\<lambda>lines l. Written),
      sv_roles = sample_roles, sv_stack = 3\<rparr>"

lemmas mem_server_defs = mem_server_def mem_users_def mem_lmdb_def lmdb.defs user_deps.defs

lemma mem_server_lmdb_ok: "lmdb_ok mem_server mem_contents mem_contents"
  using mem_lmdb_ok by (simp add: lmdb_ok_def mem_server_defs)

lemma mem_server_ok: "state_codec_ok mem_server" "user_codec_ok mem_server"
  by (simp_all add: state_codec_ok_def user_codec_ok_def mem_server_defs)

definition sample_privs :: privileges_buf where
  "sample_privs =
     \<lparr>priv_disclose = \<lparr>inner = ''lab.disclose''\<rparr>, priv_read = \<lparr>inner = ''lab.read''\<rparr>,
      priv_write = \<lparr>inner = ''lab.printer.write.big''\<rparr>, priv_manage = \<lparr>inner = ''lab.manage''\<rparr>\<rparr>"

definition sample_resource :: resource where
  "sample_resource =
     \<lparr>res_id = ''printer'', res_desc = \<lparr>md_name = ''Printer'', md_description = None, md_wiki = None,
        md_category = None, md_privs = sample_privs\<rparr>\<rparr>"

definition ada :: user_ref where "ada = \<lparr>ref_id = ''ada''\<rparr>"

definition sample_world :: "machine_state \<Rightarrow> mem_env world" where
  "sample_world m =
     \<lparr>w_env = [(''user'', [(''ada'', enc_user \<lparr>user_id = ''ada'', userdata = user_data_new [''lab/user'']\<rparr>)]),
               (''state'', [(''printer'', enc_state m)])],
      w_audit = Some [], w_signals = [''printer'' \<mapsto> archived_build (enc_state m)], w_now = 0\<rparr>"

lemma sample_world_coherent: "coherent mem_contents {sample_resource} (sample_world m)"
  by (simp add: coherent_def sample_world_def sample_resource_def mem_contents_def mem_db_def archived_build_def)

lemma sample_get_state: "get_state mem_server (sample_world m) sample_resource = Value (archived_build (enc_state m))"
  by (simp add: get_state_def statedb_get_def db_get_def raw_get_def mem_server_defs sample_world_def
        sample_resource_def mem_db_def aligned_adapter_def)

lemma sample_has_perm:
  "has_perm mem_server (sample_world m) \<lparr>se_user = ada\<rparr> perm =
     Value (\<exists>r. perm = ''lab.printer.write.'' @ r)"
  by (simp add: has_perm_def users_get_user_def userdb_get_def db_get_def raw_get_def mem_server_defs
        sample_world_def mem_db_def aligned_adapter_def archived_build_def ada_def get_username_def
        user_data_new_def is_permitted_def sample_roles_def role_new_def numeral_3_eq_3)

lemma sample_privs_required [simp]: "get_required_privs sample_resource = sample_privs"
  by (simp add: get_required_privs_def sample_resource_def)

lemma sample_has_manage: "has_manage mem_server (sample_world m) \<lparr>se_user = ada\<rparr> sample_resource = Value False"
  by (simp add: has_manage_def sample_has_perm sample_privs_def)

lemma sample_has_write: "has_write mem_server (sample_world m) \<lparr>se_user = ada\<rparr> sample_resource = Value True"
  by (simp add: has_write_def sample_has_perm sample_privs_def)

lemma sample_archived [simp]: "archived_state mem_server (archived_build (enc_state m)) = m"
  by (simp add: archived_state_def archived_build_def mem_server_defs)

lemma sample_set_state: "\<exists>w'. set_state mem_server (sample_world m) sample_resource m' = Value w'"
  by (simp add: set_state_def inner_set_state_def statedb_put_def db_put_def raw_reserve_def mem_server_defs
        mem_key_ok_def aligned_adapter_def archive_state_def archived_build_def audit_log_def
        sample_world_def sample_resource_def Let_def)

lemma sample_set_status: "\<exists>w'. set_status mem_server (sample_world m) sample_resource st = Value w'"
  using sample_set_state by (simp add: set_status_def sample_get_state)

lemma sample_view: "machine_view mem_server mem_contents (sample_world m) sample_resource = Some m"
  using get_state_stored(2) [OF mem_server_lmdb_ok sample_get_state] by simp

lemma sample_try_update:
  "\<exists>w'. try_update mem_server (sample_world m) sample_resource \<lparr>se_user = ada\<rparr> new = Value w'"
  using sample_set_status
  by (simp add: try_update_def sample_get_state sample_has_manage sample_has_write Let_def)

lemma sample_give_back:
  "\<exists>w'. give_back mem_server (sample_world m) sample_resource \<lparr>se_user = ada\<rparr> = Value w'"
  using sample_set_state
  by (cases "ms_state m") (simp_all add: give_back_def sample_get_state Let_def)

lemmas mem_server_laws = mem_server_lmdb_ok mem_server_ok

end
