(* ===== verification/User_API_Correct.thy ===== *)
theory User_API_Correct
  imports User_API Sample_Server
begin

text \<open>
  What the user side of the interface does to the users: every handler either
  stores one changed user or leaves the world, and the replies carry the
  capabilities the permissions of the session allow.
\<close>

subsection \<open>Effects\<close>

definition user_change ::
  "('e, 't, 'z) server_scheme \<Rightarrow> ('e \<Rightarrow> contents) \<Rightarrow> 'e world \<Rightarrow> string \<Rightarrow> user \<Rightarrow> 'e world \<Rightarrow> bool" where
  "user_change S stored w uid usr w' \<longleftrightarrow>
     w' = w\<lparr>w_env := w_env w'\<rparr> \<and>
     users_view S stored (w_env w') = (users_view S stored (w_env w))(uid \<mapsto> usr) \<and>
     stored (w_env w') ''state'' = stored (w_env w) ''state''"

lemma put_user_reply_effect:
  assumes "lmdb_ok S stored seen" "user_codec_ok S" "put_user_reply S w uid usr = Value (r, w')"
  shows "r = Inr () \<and> user_change S stored w uid usr w' \<or> (\<exists>e. r = Inl (DatabaseFailed e) \<and> w' = w)"
proof -
  obtain x where x: "userdb_put S (w_env w) uid usr = Value x"
    and rest: "(case x of Inl e \<Rightarrow> Value (Inl (DatabaseFailed e), w)
        | Inr env' \<Rightarrow> Value (Inr (), w\<lparr>w_env := env'\<rparr>)) = Value (r, w')"
    using assms(3) unfolding put_user_reply_def users_put_user_def bind_outcome_Value_iff by blast
  show ?thesis
  proof (cases x)
    case (Inr env')
    then have w': "w' = w\<lparr>w_env := env'\<rparr>" "r = Inr ()" using rest by auto
    then show ?thesis
      using userdb_put_view [OF assms(1,2) x [unfolded Inr]] by (simp add: user_change_def)
  qed (use rest in auto)
qed

lemma put_user_reply_step:
  "put_user_reply S w uid usr = Value (r, w') \<Longrightarrow> w' = w \<or> srv_step S R w w'"
proof -
  assume "put_user_reply S w uid usr = Value (r, w')"
  then obtain x where "users_put_user S (w_env w) uid usr = Value x"
    "(case x of Inl e \<Rightarrow> Value (Inl (DatabaseFailed e), w) | Inr env' \<Rightarrow> Value (Inr (), w\<lparr>w_env := env'\<rparr>)) = Value (r, w')"
    unfolding put_user_reply_def bind_outcome_Value_iff by blast
  then show ?thesis by (cases x) (auto intro: srv_step.put_user)
qed

lemma get_user_viewed:
  "\<lbrakk>lmdb_ok S stored seen; users_get_user S env uid = Value r; users_view S stored env uid = x\<rbrakk> \<Longrightarrow> r = x"
  by (drule (1) users_get_user_view) simp

subsection \<open>Capabilities of a reply\<close>

lemma has_perm_iff:
  assumes "lmdb_ok S stored seen" "has_perm S w ss p = Value b"
  shows "b \<longleftrightarrow> session_granted S stored w ss \<lparr>inner = p\<rparr>"
  using has_perm_granted [OF assms(1), of w ss "\<lparr>inner = p\<rparr>"] assms(2) by simp

lemma user_fill_caps:
  assumes "lmdb_ok S stored seen" "user_fill S w ss usr = Value b"
  shows "ur_username b = user_id usr"
    and "ur_manage b \<longleftrightarrow> ref_id (se_user ss) = user_id usr"
    and "ur_info b \<longleftrightarrow> ref_id (se_user ss) = user_id usr \<or> session_granted S stored w ss \<lparr>inner = ''bffh.users.info''\<rparr>"
    and "ur_admin b \<longleftrightarrow> session_granted S stored w ss \<lparr>inner = ''bffh.users.admin''\<rparr>"
    and "ur_card b \<longleftrightarrow> ur_admin b"
proof -
  obtain inf adm where inf: "(if ref_id (se_user ss) = user_id usr then Value True
        else has_perm S w ss ''bffh.users.info'') = Value inf"
    and adm: "has_perm S w ss ''bffh.users.admin'' = Value adm"
    and b: "b = \<lparr>ur_username = user_id usr, ur_info = inf, ur_manage = ref_id (se_user ss) = user_id usr,
                 ur_admin = adm, ur_card = adm\<rparr>"
    using assms(2) by (auto simp: user_fill_def Let_def bind_outcome_Value_iff get_user_ref_def)
  show "ur_username b = user_id usr" "ur_manage b \<longleftrightarrow> ref_id (se_user ss) = user_id usr" "ur_card b \<longleftrightarrow> ur_admin b"
    by (simp_all add: b)
  show "ur_admin b \<longleftrightarrow> session_granted S stored w ss \<lparr>inner = ''bffh.users.admin''\<rparr>"
    using has_perm_iff [OF assms(1) adm] by (simp add: b)
  show "ur_info b \<longleftrightarrow> ref_id (se_user ss) = user_id usr \<or> session_granted S stored w ss \<lparr>inner = ''bffh.users.info''\<rparr>"
    using inf has_perm_iff [OF assms(1)] by (auto simp: b split: if_splits)
qed

subsection \<open>Roles, passwords and new users\<close>

definition with_roles :: "user \<Rightarrow> string list \<Rightarrow> user" where
  "with_roles usr rs = usr\<lparr>userdata := (userdata usr)\<lparr>ud_roles := rs\<rparr>\<rparr>"

lemma with_same_roles [simp]: "with_roles usr (ud_roles (userdata usr)) = usr"
  by (simp add: with_roles_def)

lemma view_upd_same [simp]: "users_view S stored env uid = Some usr \<Longrightarrow>
  (users_view S stored env)(uid \<mapsto> usr) = users_view S stored env"
  by (simp add: fun_upd_idem)

lemma admin_add_role_effect:
  assumes "lmdb_ok S stored seen" "user_codec_ok S" "users_view S stored (w_env w) (ref_id u) = Some usr"
    and "admin_add_role S w u role = Value (Inr (), w')"
  defines "rs \<equiv> ud_roles (userdata usr)"
  shows "users_view S stored (w_env w') = (users_view S stored (w_env w))
    (ref_id u \<mapsto> with_roles usr (if role \<in> dom (sv_roles S) \<and> role \<notin> set rs then rs @ [role] else rs))"
proof (cases "sv_roles S role")
  case None
  then show ?thesis using assms(3,4) by (auto simp: admin_add_role_def rs_def)
next
  case (Some rl)
  then have g: "users_get_user S (w_env w) (ref_id u) = Value (Some usr)"
    using assms(4) get_user_viewed [OF assms(1) _ assms(3)]
    by (auto simp: admin_add_role_def bind_outcome_Value_iff get_username_def)
  show ?thesis
  proof (cases "role \<in> set rs")
    case True
    then show ?thesis using Some g assms(3,4)
      by (auto simp: admin_add_role_def get_username_def rs_def)
  next
    case False
    then have "put_user_reply S w (ref_id u) (with_roles usr (rs @ [role])) = Value (Inr (), w')"
      using Some g assms(4) by (auto simp: admin_add_role_def get_username_def rs_def with_roles_def)
    from put_user_reply_effect [OF assms(1,2) this] False Some show ?thesis by (auto simp: user_change_def)
  qed
qed

lemma admin_remove_role_effect:
  assumes "lmdb_ok S stored seen" "user_codec_ok S" "users_view S stored (w_env w) (ref_id u) = Some usr"
    and "admin_remove_role S w u role = Value (Inr (), w')"
  defines "rs \<equiv> ud_roles (userdata usr)"
  shows "users_view S stored (w_env w') = (users_view S stored (w_env w))
    (ref_id u \<mapsto> with_roles usr (if role \<in> dom (sv_roles S) then filter (\<lambda>r. r \<noteq> role) rs else rs))"
proof (cases "sv_roles S role")
  case None
  then show ?thesis using assms(3,4) by (auto simp: admin_remove_role_def rs_def)
next
  case (Some rl)
  then have g: "users_get_user S (w_env w) (ref_id u) = Value (Some usr)"
    using assms(4) get_user_viewed [OF assms(1) _ assms(3)]
    by (auto simp: admin_remove_role_def bind_outcome_Value_iff get_username_def)
  show ?thesis
  proof (cases "role \<in> set rs")
    case False
    then have "filter (\<lambda>r. r \<noteq> role) rs = rs" by (simp add: filter_id_conv) blast
    then show ?thesis using Some g assms(3,4) False
      by (auto simp: admin_remove_role_def get_username_def rs_def)
  next
    case True
    then have "put_user_reply S w (ref_id u) (with_roles usr (filter (\<lambda>r. r \<noteq> role) rs)) = Value (Inr (), w')"
      using Some g assms(4) by (auto simp: admin_remove_role_def get_username_def rs_def with_roles_def)
    from put_user_reply_effect [OF assms(1,2) this] Some show ?thesis by (auto simp: user_change_def)
  qed
qed

lemma user_pwd_effect:
  assumes "lmdb_ok S stored seen" "user_codec_ok S" "user_pwd S salt w u old_pw new_pw = Value (r, w')" "w' \<noteq> w"
  shows "\<exists>usr usr'. users_view S stored (w_env w) (ref_id u) = Some usr \<and> check_password S usr old_pw = Inr True \<and>
    set_pw S salt usr new_pw = Value usr' \<and> r = Inr () \<and> user_change S stored w (ref_id u) usr' w'"
proof -
  obtain x where g: "users_get_user S (w_env w) (ref_id u) = Value x"
    and rest: "(case x of None \<Rightarrow> Value (Inr (), w)
      | Some x \<Rightarrow> if check_password S x old_pw = Inr True
          then bind_outcome (set_pw S salt x new_pw) (\<lambda>x'. put_user_reply S w (ref_id u) x')
          else Value (Inr (), w)) = Value (r, w')"
    using assms(3) unfolding user_pwd_def Let_def get_username_def bind_outcome_Value_iff by blast
  then obtain usr usr' where x: "x = Some usr" "check_password S usr old_pw = Inr True"
      "set_pw S salt usr new_pw = Value usr'" and put: "put_user_reply S w (ref_id u) usr' = Value (r, w')"
    using assms(4) by (auto simp: bind_outcome_Value_iff split: option.splits if_splits)
  from put_user_reply_effect [OF assms(1,2) put] assms(4) show ?thesis
    using x users_get_user_view [OF assms(1) g] by auto
qed

lemma add_user_effect:
  assumes "lmdb_ok S stored seen" "user_codec_ok S"
    and "users_add_user_fallible S salt w ss username password = Value (r, w')"
  shows "if username = [] \<or> password = [] \<or> users_view S stored (w_env w) username \<noteq> None
    then w' = w \<and> (\<exists>e. r = Inr (Inl e))
    else \<exists>usr. new_with_plain_pw S salt username password = Value usr \<and>
      (user_change S stored w username usr w' \<or> w' = w \<and> (\<exists>e. r = Inl (DatabaseFailed e)))"
proof (cases "username = [] \<or> password = []")
  case True
  then show ?thesis using assms(3) by (auto simp: users_add_user_fallible_def split: if_splits)
next
  case False
  then obtain k where g: "users_get_user S (w_env w) username = Value k"
    and rest: "(if k = None then
          bind_outcome (new_with_plain_pw S salt username password) (\<lambda>usr.
          bind_outcome (put_user_reply S w username usr) (\<lambda>(r, w').
          case r of Inl e \<Rightarrow> Value (Inl e, w')
          | Inr _ \<Rightarrow> bind_outcome (user_fill S w' ss usr) (\<lambda>b. Value (Inr (Inr b), w'))))
        else Value (Inr (Inl AlreadyExists), w)) = Value (r, w')"
    using assms(3) by (auto simp: users_add_user_fallible_def bind_outcome_Value_iff)
  have k: "k = users_view S stored (w_env w) username" using users_get_user_view [OF assms(1) g] .
  show ?thesis
  proof (cases k)
    case None
    then obtain usr q w1 where usr: "new_with_plain_pw S salt username password = Value usr"
      and put: "put_user_reply S w username usr = Value (q, w1)"
      and q: "(case q of Inl e \<Rightarrow> Value (Inl e, w1)
          | Inr _ \<Rightarrow> bind_outcome (user_fill S w1 ss usr) (\<lambda>b. Value (Inr (Inr b), w1))) = Value (r, w')"
      using rest by (auto simp: bind_outcome_Value_iff)
    have w1: "w' = w1" "\<And>e. q = Inl e \<Longrightarrow> r = Inl e"
      using q by (auto simp: bind_outcome_Value_iff split: sum.splits)
    show ?thesis
      using put_user_reply_effect [OF assms(1,2) put] usr w1 None k False by auto
  qed (use rest k in auto)
qed

subsection \<open>Tokens\<close>

lemma card_bind_effect:
  assumes "lmdb_ok A stored seen" "user_codec_ok A" "users_view A stored (w_env w) (ref_id u) = Some usr"
    and "map_of (ud_kv (userdata usr)) ''cardtoken'' = None"
    and "card_bind A w u key token = Value (Inr (), w')"
  shows "\<exists>usr'. users_view A stored (w_env w') (ref_id u) = Some usr' \<and>
    map_of (ud_kv (userdata usr')) ''cardtoken'' = Some (token_text A token) \<and>
    map_of (ud_kv (userdata usr')) ''cardkey'' = Some (hex_encode A key)"
proof -
  let ?kv = "AList.update ''cardkey'' (hex_encode A key)
               (AList.update ''cardtoken'' (token_text A token) (ud_kv (userdata usr)))"
  let ?usr = "usr\<lparr>userdata := (userdata usr)\<lparr>ud_kv := ?kv\<rparr>\<rparr>"
  obtain x where "users_get_user A (w_env w) (ref_id u) = Value x"
    using assms(5) by (auto simp: card_bind_def Let_def bind_outcome_Value_iff get_username_def)
  moreover from this have "x = Some usr" using get_user_viewed [OF assms(1) _ assms(3)] by blast
  ultimately have "put_user_reply A w (ref_id u) ?usr = Value (Inr (), w')"
    using assms(4,5) by (simp add: card_bind_def Let_def get_username_def)
  from put_user_reply_effect [OF assms(1,2) this]
  have "users_view A stored (w_env w') (ref_id u) = Some ?usr" by (auto simp: user_change_def)
  then show ?thesis by (simp add: update_conv')
qed

subsection \<open>A sample interface\<close>

definition hex_digit :: "nat \<Rightarrow> char" where
  "hex_digit n = (if n < 10 then char_of (48 + n) else char_of (87 + n))"

definition digit_hex :: "char \<Rightarrow> nat option" where
  "digit_hex c = (let n = of_char c in if 48 \<le> n \<and> n \<le> 57 then Some (n - 48)
     else if 97 \<le> n \<and> n \<le> 102 then Some (n - 87) else if 65 \<le> n \<and> n \<le> 70 then Some (n - 55) else None)"

fun hex_dec :: "string \<Rightarrow> string option" where
  "hex_dec [] = Some []"
| "hex_dec [a] = None"
| "hex_dec (a # b # r) =
     (case (digit_hex a, digit_hex b, hex_dec r) of
        (Some x, Some y, Some t) \<Rightarrow> Some (char_of (16 * x + y) # t)
      | _ \<Rightarrow> None)"

definition mem_api :: "(mem_env, mem_env) api" where
  "mem_api = server.extend mem_server
     \<lparr>hex_encode = (\<lambda>s. concat (map (\<lambda>c. [hex_digit (of_char c div 16), hex_digit (of_char c mod 16)]) s)),
      hex_decode = hex_dec, cfg_space = Some ''lab'', cfg_url = Some ''fab.example''\<rparr>"

lemmas mem_api_defs = mem_api_def server.defs mem_server_defs

lemma mem_api_lmdb_ok: "lmdb_ok mem_api mem_contents mem_contents"
  using mem_lmdb_ok by (simp add: lmdb_ok_def mem_api_defs)

lemma mem_api_ok: "user_codec_ok mem_api" "argon_ok mem_api"
  by (auto simp: user_codec_ok_def argon_ok_def mem_api_defs)

definition ada_user :: user where
  "ada_user = \<lparr>user_id = ''ada'', userdata = user_data_new [''lab/user'']\<rparr>"

lemma sample_users_view: "users_view mem_api mem_contents (w_env (sample_world m)) ''ada'' = Some ada_user"
  by (simp add: users_view_def mem_contents_def mem_db_def sample_world_def mem_api_defs ada_user_def)

lemma sample_get_ada: "users_get_user mem_api (w_env (sample_world m)) ''ada'' = Value (Some ada_user)"
  by (simp add: users_get_user_def userdb_get_def db_get_def raw_get_def mem_api_defs sample_world_def mem_db_def
        aligned_adapter_def archived_build_def ada_user_def)

lemma sample_put: "uid \<noteq> [] \<Longrightarrow> length uid \<le> 511 \<Longrightarrow>
    \<exists>w'. put_user_reply mem_api (sample_world m) uid usr = Value (Inr (), w')"
  by (simp add: put_user_reply_def users_put_user_def userdb_put_def db_put_def raw_reserve_def mem_api_defs
        mem_key_ok_def aligned_adapter_def archived_build_def)

subsection \<open>Properties\<close>

text \<open>C15. The description of a user hands out exactly the capabilities the session is entitled
  to: the user's own management to himself only, his information to himself and to holders of the
  information permission, administration and card handling to holders of the administration
  permission only.\<close>

theorem user_reply_capabilities:
  assumes "lmdb_ok S stored seen" "user_fill S w ss usr = Value b"
  shows "(ur_manage b \<longleftrightarrow> ref_id (se_user ss) = user_id usr) \<and>
    (ur_info b \<longleftrightarrow> ref_id (se_user ss) = user_id usr \<or>
       session_granted S stored w ss \<lparr>inner = ''bffh.users.info''\<rparr>) \<and>
    (ur_admin b \<longleftrightarrow> session_granted S stored w ss \<lparr>inner = ''bffh.users.admin''\<rparr>) \<and>
    (ur_card b \<longleftrightarrow> session_granted S stored w ss \<lparr>inner = ''bffh.users.admin''\<rparr>)"
  using user_fill_caps [OF assms] by simp

theorem user_reply_capabilities_witness:
  "\<exists>b. user_fill mem_server (sample_world (machine_free None)) \<lparr>se_user = ada\<rparr> ada_user = Value b \<and> ur_manage b"
proof -
  have "\<exists>b. user_fill mem_server (sample_world (machine_free None)) \<lparr>se_user = ada\<rparr> ada_user = Value b"
    by (simp add: user_fill_def sample_has_perm ada_user_def ada_def get_user_ref_def Let_def)
       (simp add: sample_has_perm [unfolded ada_def])
  then show ?thesis
    using user_reply_capabilities [OF mem_server_lmdb_ok, of "sample_world (machine_free None)" "\<lparr>se_user = ada\<rparr>" ada_user]
    by (auto simp: ada_def ada_user_def)
qed

text \<open>Adding and removing roles changes the roles of one user and nothing else about any user:
  a role of the role table is appended once, removing takes every occurrence away, and names that
  are no roles have no effect.\<close>

theorem admin_roles_exact:
  assumes "lmdb_ok S stored seen" "user_codec_ok S" "users_view S stored (w_env w) (ref_id u) = Some usr"
  defines "rs \<equiv> ud_roles (userdata usr)"
  shows "(admin_add_role S w u role = Value (Inr (), w') \<longrightarrow>
      users_view S stored (w_env w') = (users_view S stored (w_env w))(ref_id u \<mapsto>
        with_roles usr (if role \<in> dom (sv_roles S) \<and> role \<notin> set rs then rs @ [role] else rs))) \<and>
    (admin_remove_role S w u role = Value (Inr (), w') \<longrightarrow>
      users_view S stored (w_env w') = (users_view S stored (w_env w))(ref_id u \<mapsto>
        with_roles usr (if role \<in> dom (sv_roles S) then filter (\<lambda>r. r \<noteq> role) rs else rs)))"
  unfolding rs_def
  using admin_add_role_effect [OF assms(1-3)] admin_remove_role_effect [OF assms(1-3)] by blast

theorem admin_roles_exact_witness:
  "\<exists>w'. admin_add_role mem_api (sample_world (machine_free None)) ada ''lab/admin'' = Value (Inr (), w') \<and>
     users_view mem_api mem_contents (w_env w') ''ada'' = Some (with_roles ada_user [''lab/user'', ''lab/admin''])"
proof -
  have role: "''lab/admin'' \<in> dom (sv_roles mem_api)" by (simp add: mem_api_defs sample_roles_def)
  then obtain rl where "sv_roles mem_api ''lab/admin'' = Some rl" by blast
  moreover obtain w' where "put_user_reply mem_api (sample_world (machine_free None)) ''ada''
      (with_roles ada_user [''lab/user'', ''lab/admin'']) = Value (Inr (), w')"
    using sample_put [of "''ada''" "machine_free None" "with_roles ada_user [''lab/user'', ''lab/admin'']"] by auto
  ultimately have w': "admin_add_role mem_api (sample_world (machine_free None)) ada ''lab/admin'' = Value (Inr (), w')"
    by (simp add: admin_add_role_def get_username_def ada_def sample_get_ada ada_user_def user_data_new_def with_roles_def)
  have v: "users_view mem_api mem_contents (w_env (sample_world (machine_free None))) (ref_id ada) = Some ada_user"
    using sample_users_view by (simp add: ada_def)
  show ?thesis
    using admin_roles_exact [OF mem_api_lmdb_ok mem_api_ok(1) v] w' role
    by (auto simp: ada_def ada_user_def user_data_new_def)
qed


definition eve_user :: user where
  "eve_user = \<lparr>user_id = ''eve'', userdata = user_data_default\<lparr>ud_passwd := Some ''$argon2id$s$old''\<rparr>\<rparr>"

definition eve_world :: "mem_env world" where
  "eve_world = \<lparr>w_env = [(''user'', [(''eve'', enc_user eve_user)])], w_audit = Some [], w_signals = Map.empty, w_now = 0\<rparr>"


text \<open>C27. Adding a user never touches an existing one: with an empty name or password or a name
  that is taken the world stays and the reply says so; otherwise the one new user has no roles
  and passes the password check, unless the database refused to store him.\<close>

theorem add_user_never_overwrites:
  assumes "lmdb_ok S stored seen" "user_codec_ok S" "argon_ok S"
    and "users_add_user_fallible S salt w ss username password = Value (r, w')"
  shows "if username = [] \<or> password = [] \<or> users_view S stored (w_env w) username \<noteq> None
    then w' = w \<and> (\<exists>e. r = Inr (Inl e))
    else (\<exists>usr. users_view S stored (w_env w') = (users_view S stored (w_env w))(username \<mapsto> usr) \<and>
            user_id usr = username \<and> ud_roles (userdata usr) = [] \<and> check_password S usr password = Inr True) \<or>
      w' = w \<and> (\<exists>e. r = Inl (DatabaseFailed e))"
proof -
  have "user_id usr = username \<and> ud_roles (userdata usr) = [] \<and> check_password S usr password = Inr True"
    if "new_with_plain_pw S salt username password = Value usr" for usr
    using that assms(3)
    by (auto simp: new_with_plain_pw_def hash_pw_def argon_ok_def check_password_def user_data_default_def
          split: sum.splits)
  then show ?thesis using add_user_effect [OF assms(1,2,4)] unfolding user_change_def by (auto split: if_splits)
qed

theorem add_user_never_overwrites_witness:
  "users_add_user_fallible mem_api ''s'' (sample_world (machine_free None)) \<lparr>se_user = ada\<rparr> ''ada'' ''pw'' =
     Value (Inr (Inl AlreadyExists), sample_world (machine_free None))"
proof -
  have run: "users_add_user_fallible mem_api ''s'' (sample_world (machine_free None)) \<lparr>se_user = ada\<rparr> ''ada'' ''pw'' =
     Value (Inr (Inl AlreadyExists), sample_world (machine_free None))"
    by (simp add: users_add_user_fallible_def sample_get_ada)
  show ?thesis
    using add_user_never_overwrites [OF mem_api_lmdb_ok mem_api_ok run] run by simp
qed

text \<open>Binding a card stores a token that is valid UTF-8 as it is, while listing the tokens
  decodes the stored text as hexadecimal: a text token that is no hexadecimal number is bound but
  never listed.\<close>

theorem bound_text_token_not_listed:
  assumes "lmdb_ok A stored seen" "user_codec_ok A" "users_view A stored (w_env w) (ref_id u) = Some usr"
    and "map_of (ud_kv (userdata usr)) ''cardtoken'' = None"
    and "card_bind A w u key token = Value (Inr (), w')"
    and "from_utf8_ok token" "hex_decode A token = None"
    and "card_get_token_list A w' u = Value (r, w'')"
  shows "r = Inr []"
proof -
  obtain usr' where v: "users_view A stored (w_env w') (ref_id u) = Some usr'"
    and t: "map_of (ud_kv (userdata usr')) ''cardtoken'' = Some token"
    using card_bind_effect [OF assms(1-5)] assms(6) by (auto simp: token_text_def)
  obtain x where "users_get_user A (w_env w') (ref_id u) = Value x"
    using assms(8) by (auto simp: card_get_token_list_def bind_outcome_Value_iff get_username_def)
  moreover from this have "x = Some usr'" using get_user_viewed [OF assms(1) _ v] by blast
  ultimately show ?thesis
    using assms(7,8) t by (simp add: card_get_token_list_def get_username_def Let_def)
qed

theorem bound_text_token_not_listed_witness:
  "\<exists>w' w''. card_bind mem_api (sample_world (machine_free None)) ada ''k'' ''card-1'' = Value (Inr (), w') \<and>
     card_get_token_list mem_api w' ada = Value (Inr [], w'')"
proof -
  have v: "users_view mem_api mem_contents (w_env (sample_world (machine_free None))) (ref_id ada) = Some ada_user"
    using sample_users_view by (simp add: ada_def)
  have none: "map_of (ud_kv (userdata ada_user)) ''cardtoken'' = None" by (simp add: ada_user_def user_data_new_def)
  have hex: "hex_decode mem_api ''card-1'' = None" by (simp add: mem_api_defs digit_hex_def)
  have utf: "from_utf8_ok ''card-1''" by (simp add: from_utf8_ok_def)
  obtain w' where w': "card_bind mem_api (sample_world (machine_free None)) ada ''k'' ''card-1'' = Value (Inr (), w')"
    using sample_put [of "''ada''" "machine_free None"] none
    by (auto simp: card_bind_def Let_def get_username_def ada_def sample_get_ada)
  obtain usr' where "users_view mem_api mem_contents (w_env w') (ref_id ada) = Some usr'"
    using card_bind_effect [OF mem_api_lmdb_ok mem_api_ok(1) v none w'] by blast
  then obtain b where "map_of (mem_db (w_env w') ''user'') ''ada'' = Some b"
    by (auto simp: users_view_def mem_contents_def ada_def)
  then have "users_get_user mem_api (w_env w') ''ada'' = Value (Some (dec_user b))"
    by (simp add: users_get_user_def userdb_get_def db_get_def raw_get_def mem_api_defs aligned_adapter_def
          archived_build_def)
  then obtain r where r: "card_get_token_list mem_api w' ada = Value (r, w')"
    by (simp add: card_get_token_list_def get_username_def ada_def Let_def)
  from bound_text_token_not_listed [OF mem_api_lmdb_ok mem_api_ok(1) v none w' utf hex this] w' r
  show ?thesis by blast
qed

end
