(* ===== verification/Authentication.thy ===== *)
theory Authentication
  imports User_API_Correct
begin

text \<open>
  \<open>bffhd/authentication/mod.rs\<close> and \<open>bffhd/capnp/authenticationsystem.rs\<close>: the callback
  that gives the SASL mechanisms keys and users, and the object by which a client
  runs a SASL exchange.  The SASL library is foreign: a running exchange is a
  parameter \<open>step\<close> that consumes a message and returns the outcome of the
  mechanism, with \<open>validation\<close> the user it has validated.  The mechanisms of this
  repository, modelled in the next theories, are such steps.
\<close>

subsection \<open>The callback\<close>

datatype callback_error = NoValue

text \<open>The card key of a user: 16 bytes, stored in hexadecimal.\<close>

definition callback_card_key ::
  "('e, 't, 'z) api_scheme \<Rightarrow> 'e world \<Rightarrow> string \<Rightarrow> (callback_error + string) outcome" where
  "callback_card_key A w authid =
     bind_outcome (users_get_user A (w_env w) authid) (\<lambda>usr.
     case usr of
       None \<Rightarrow> Value (Inl NoValue)
     | Some u \<Rightarrow>
         (case map_of (ud_kv (userdata u)) ''cardkey'' of
            None \<Rightarrow> Value (Inl NoValue)
          | Some kv \<Rightarrow>
              (case hex_decode A kv of
                 None \<Rightarrow> Value (Inl NoValue)
               | Some key \<Rightarrow> if length key = 16 then Value (Inr key) else Value (Inl NoValue))))"

datatype validation_error = MissingRequiredProperty

record sasl_context =
  cx_authid :: "string option"
  cx_authzid :: "string option"
  cx_password :: "string option"

text \<open>The user the callback finalises, if any.\<close>

definition callback_validate ::
  "('e, 't, 'z) api_scheme \<Rightarrow> 'e world \<Rightarrow> string \<Rightarrow> sasl_context \<Rightarrow> (validation_error + user option) outcome" where
  "callback_validate A w mechanism cx =
     (if mechanism = ''PLAIN'' then
        (case (cx_authid cx, cx_authzid cx, cx_password cx) of
           (Some authcid, Some authzid, Some password) \<Rightarrow>
             if authzid \<noteq> [] then Value (Inr None)
             else bind_outcome (users_get_user A (w_env w) authcid) (\<lambda>usr.
               case usr of
                 None \<Rightarrow> Value (Inr None)
               | Some u \<Rightarrow>
                   if check_password A u password = Inr True then Value (Inr (Some u)) else Value (Inr None))
         | _ \<Rightarrow> Value (Inl MissingRequiredProperty))
      else if mechanism = ''X-FABFIRE'' \<or> mechanism = ''X-FABFIRE-BIN'' then
        (case cx_authid cx of
           None \<Rightarrow> Value (Inl MissingRequiredProperty)
         | Some authcid \<Rightarrow> bind_outcome (users_get_user A (w_env w) authcid) (\<lambda>usr. Value (Inr usr)))
      else Value (Inr None))"

subsection \<open>The authentication object\<close>

datatype sasl_state = SaslFinished bool | SaslRunning

datatype 's auth_state = InvalidMechanism | AuthFinished | AuthAborted | AuthRunning 's

definition auth_new :: "'s \<Rightarrow> 's auth_state" where
  "auth_new session = AuthRunning session"

definition auth_invalid_mechanism :: "'s auth_state" where
  "auth_invalid_mechanism = InvalidMechanism"

definition auth_display :: "'s auth_state \<Rightarrow> string" where
  "auth_display self =
     ''Authentication('' @
     (case self of
        InvalidMechanism \<Rightarrow> ''invalid mechanism''
      | AuthFinished \<Rightarrow> ''finished''
      | AuthAborted \<Rightarrow> ''aborted''
      | AuthRunning _ \<Rightarrow> ''running'') @ '')''"

datatype auth_error_code = BadMechanism | Aborted | InvalidCredentials

datatype auth_response =
  Successful "string option" session session_caps
| AuthFailed auth_error_code
| Challenge string

text \<open>\<open>build_error\<close> leaves the response of a running exchange untouched.\<close>

fun build_error :: "'s auth_state \<Rightarrow> auth_response option" where
  "build_error (AuthRunning _) = None"
| "build_error InvalidMechanism = Some (AuthFailed BadMechanism)"
| "build_error AuthFinished = Some (AuthFailed Aborted)"
| "build_error AuthAborted = Some (AuthFailed Aborted)"

type_synonym ('s, 'x) sasl_step = "'s \<Rightarrow> string \<Rightarrow> (('x + sasl_state) \<times> 's \<times> string) outcome"

text \<open>
  One call of \<open>step\<close>.  The data is absent when the message cannot be decoded; then
  the promise fails after the state has been replaced by the aborted one.  While
  it runs the exchange is moved out, so every failure leaves it aborted.
\<close>

definition auth_step ::
  "('e, 't, 'z) api_scheme \<Rightarrow> 'e world \<Rightarrow> ('s, 'x) sasl_step \<Rightarrow> ('s \<Rightarrow> user option)
     \<Rightarrow> 's auth_state \<Rightarrow> string option \<Rightarrow> ((capnp_error + auth_response option) \<times> 's auth_state) outcome" where
  "auth_step A w sess_step validation self params =
     (case self of
        AuthRunning sess \<Rightarrow>
          (case params of
             None \<Rightarrow> Value (Inl (Failed ''malformed message''), AuthAborted)
           | Some msg \<Rightarrow>
               bind_outcome (sess_step sess msg) (\<lambda>(res, sess', out).
               case res of
                 Inr (SaslFinished sent) \<Rightarrow>
                   (case validation sess' of
                      Some usr \<Rightarrow>
                        let ss = session_open usr in
                        bind_outcome (api_session_build A w ss) (\<lambda>caps.
                          Value (Inr (Some (Successful (if sent then Some out else None) ss caps)), AuthFinished))
                    | None \<Rightarrow> Value (Inr (Some (AuthFailed InvalidCredentials)), AuthFinished))
               | Inr SaslRunning \<Rightarrow> Value (Inr (Some (Challenge out)), AuthRunning sess')
               | Inl _ \<Rightarrow> Value (Inr (build_error (AuthAborted :: 's auth_state)), AuthAborted)))
      | _ \<Rightarrow> Value (Inr (build_error (AuthAborted :: 's auth_state)), AuthAborted))"

definition auth_abort :: "'s auth_state \<Rightarrow> 's auth_state" where
  "auth_abort self = AuthAborted"

subsection \<open>A conversation with the object\<close>

text \<open>
  A client's calls in order, each with the world it meets, since other clients act
  between them, and with whatever else a step of the mechanism draws on, such as
  random bytes.  An object is abandoned when a call panics.
\<close>

datatype ('e, 'm) auth_call = Step "'e world" 'm "string option" | Abort

fun auth_run ::
  "('e, 't, 'z) api_scheme \<Rightarrow> ('m \<Rightarrow> ('s, 'x) sasl_step) \<Rightarrow> ('s \<Rightarrow> user option) \<Rightarrow> 's auth_state
     \<Rightarrow> ('e, 'm) auth_call list \<Rightarrow> ((capnp_error + auth_response option) list \<times> 's auth_state) outcome" where
  "auth_run A stp val self [] = Value ([], self)"
| "auth_run A stp val self (Abort # cs) = auth_run A stp val (auth_abort self) cs"
| "auth_run A stp val self (Step w m msg # cs) =
     bind_outcome (auth_step A w (stp m) val self msg) (\<lambda>(r, self1).
     bind_outcome (auth_run A stp val self1 cs) (\<lambda>(rs, self'). Value (r # rs, self')))"

text \<open>The states of the exchange that its own steps reach.\<close>

inductive sasl_reach :: "('m \<Rightarrow> ('s, 'x) sasl_step) \<Rightarrow> ('m \<times> string) set \<Rightarrow> 's \<Rightarrow> 's \<Rightarrow> bool" for stp ms where
  start: "sasl_reach stp ms s s"
| step: "\<lbrakk>sasl_reach stp ms s s1; (m, msg) \<in> ms; stp m s1 msg = Value (r, s2, out)\<rbrakk> \<Longrightarrow> sasl_reach stp ms s s2"

text \<open>The messages of a conversation, with what their steps draw on.\<close>

definition drawn :: "('e, 'm) auth_call list \<Rightarrow> ('m \<times> string) set" where
  "drawn cs = {(m, msg). \<exists>w. Step w m (Some msg) \<in> set cs}"

definition is_login :: "capnp_error + auth_response option \<Rightarrow> bool" where
  "is_login r \<longleftrightarrow> (\<exists>d ss caps. r = Inr (Some (Successful d ss caps)))"

subsection \<open>The object\<close>

lemma auth_step_not_running:
  "(\<forall>s. self \<noteq> AuthRunning s) \<Longrightarrow>
     auth_step A w stp val self msg = Value (Inr (Some (AuthFailed Aborted)), AuthAborted)"
  by (cases self) (simp_all add: auth_step_def)

lemma auth_run_not_running:
  "\<lbrakk>\<forall>s. self \<noteq> AuthRunning s; auth_run A stp val self cs = Value (rs, self')\<rbrakk>
     \<Longrightarrow> set rs \<subseteq> {Inr (Some (AuthFailed Aborted))}"
proof (induction cs arbitrary: self rs)
  case (Cons c cs)
  show ?case
  proof (cases c)
    case (Step w m msg)
    then obtain rs1 where rs: "rs = Inr (Some (AuthFailed Aborted)) # rs1"
      and run: "auth_run A stp val AuthAborted cs = Value (rs1, self')"
      using Cons.prems by (auto simp: auth_step_not_running bind_outcome_Value_iff)
    then show ?thesis using Cons.IH [OF _ run] by simp
  qed (use Cons in \<open>auto simp: auth_abort_def\<close>)
qed simp

lemma auth_step_cases:
  fixes self :: "'s auth_state"
  assumes "auth_step A w stp val self msg = Value (r, self1)"
  obtains (stopped) "\<forall>s. self \<noteq> AuthRunning s" "r = Inr (Some (AuthFailed Aborted))" "self1 = AuthAborted"
  | (malformed) s e where "self = AuthRunning s" "r = Inl e" "self1 = AuthAborted"
  | (login) s m q s1 out usr d caps where "self = AuthRunning s" "msg = Some m" "stp s m = Value (q, s1, out)"
      "val s1 = Some usr" "api_session_build A w (session_open usr) = Value caps"
      "r = Inr (Some (Successful d (session_open usr) caps))" "self1 = AuthFinished"
  | (denied) s where "self = AuthRunning s" "r = Inr (Some (AuthFailed InvalidCredentials))" "self1 = AuthFinished"
  | (challenge) s m s1 out where "self = AuthRunning s" "msg = Some m" "stp s m = Value (Inr SaslRunning, s1, out)"
      "r = Inr (Some (Challenge out))" "self1 = AuthRunning s1"
  | (failed) s where "self = AuthRunning s" "r = Inr (Some (AuthFailed Aborted))" "self1 = AuthAborted"
proof (cases self)
  case (AuthRunning s)
  show ?thesis
  proof (cases msg)
    case None
    then show ?thesis using assms AuthRunning malformed by (auto simp: auth_step_def)
  next
    case (Some m)
    then obtain q s1 out where st: "stp s m = Value (q, s1, out)"
      and rest: "(case q of
         Inr (SaslFinished sent) \<Rightarrow>
           (case val s1 of
              Some usr \<Rightarrow>
                let ss = session_open usr in
                bind_outcome (api_session_build A w ss) (\<lambda>caps.
                  Value (Inr (Some (Successful (if sent then Some out else None) ss caps)), AuthFinished))
            | None \<Rightarrow> Value (Inr (Some (AuthFailed InvalidCredentials)), AuthFinished))
       | Inr SaslRunning \<Rightarrow> Value (Inr (Some (Challenge out)), AuthRunning s1)
       | Inl _ \<Rightarrow> Value (Inr (build_error (AuthAborted :: 's auth_state)), AuthAborted)) = Value (r, self1)"
      using assms AuthRunning by (auto simp: auth_step_def bind_outcome_Value_iff)
    show ?thesis
    proof (cases q)
      case (Inl e)
      then show ?thesis using rest AuthRunning failed by simp
    next
      case (Inr f)
      show ?thesis
      proof (cases f)
        case (SaslFinished sent)
        show ?thesis
        proof (cases "val s1")
          case None
          then show ?thesis using rest AuthRunning denied Inr SaslFinished by simp
        next
          case (Some usr)
          then obtain caps where "api_session_build A w (session_open usr) = Value caps"
            "r = Inr (Some (Successful (if sent then Some out else None) (session_open usr) caps))" "self1 = AuthFinished"
            using rest Inr SaslFinished by (auto simp: bind_outcome_Value_iff Let_def)
          with login [OF AuthRunning \<open>msg = Some m\<close> st Some] show ?thesis by blast
        qed
      qed (use rest AuthRunning Inr st \<open>msg = Some m\<close> challenge in simp)
    qed
  qed
qed (use assms stopped in \<open>simp_all add: auth_step_def\<close>)

lemma auth_step_running:
  assumes "auth_step A w (stp m) val self msg = Value (r, AuthRunning s1)" "\<And>x. msg = Some x \<Longrightarrow> (m, x) \<in> ms"
    and "\<And>s. self = AuthRunning s \<Longrightarrow> sasl_reach stp ms s0 s"
  shows "sasl_reach stp ms s0 s1"
  using assms(1) by (rule auth_step_cases) (auto intro: sasl_reach.step assms(2,3))

lemma auth_run_logins:
  assumes "auth_run A stp val self cs = Value (rs, self')" "i < length rs" "is_login (rs ! i)"
    and "\<And>s. self = AuthRunning s \<Longrightarrow> sasl_reach stp ms s0 s" "drawn cs \<subseteq> ms"
  shows "(\<forall>j. i < j \<and> j < length rs \<longrightarrow> rs ! j = Inr (Some (AuthFailed Aborted))) \<and>
    (\<exists>w s1 usr d caps. sasl_reach stp ms s0 s1 \<and> val s1 = Some usr \<and>
      api_session_build A w (session_open usr) = Value caps \<and>
      rs ! i = Inr (Some (Successful d (session_open usr) caps)))"
  using assms
proof (induction cs arbitrary: self rs i)
  case (Cons c cs)
  show ?case
  proof (cases c)
    case Abort
    then have run: "auth_run A stp val AuthAborted cs = Value (rs, self')" using Cons.prems(1) by (simp add: auth_abort_def)
    show ?thesis by (rule Cons.IH [OF run Cons.prems(2,3)]) (use Cons.prems(5) in \<open>auto simp: drawn_def\<close>)
  next
    case (Step w m msg)
    then obtain r self1 rs1 where st: "auth_step A w (stp m) val self msg = Value (r, self1)"
      and run: "auth_run A stp val self1 cs = Value (rs1, self')" and rs: "rs = r # rs1"
      using Cons.prems(1) by (auto simp: bind_outcome_Value_iff)
    have m: "\<And>x. msg = Some x \<Longrightarrow> (m, x) \<in> ms" "drawn cs \<subseteq> ms" using Cons.prems(5) Step by (auto simp: drawn_def)
    show ?thesis
    proof (cases i)
      case 0
      then have "is_login r" using Cons.prems(3) rs by simp
      with st obtain s x q s1 out usr d caps where *: "self1 = AuthFinished"
        "self = AuthRunning s" "msg = Some x" "stp m s x = Value (q, s1, out)" "val s1 = Some usr"
        "api_session_build A w (session_open usr) = Value caps" "r = Inr (Some (Successful d (session_open usr) caps))"
        by (cases rule: auth_step_cases) (auto simp: is_login_def)
      have "sasl_reach stp ms s0 s1" using sasl_reach.step [OF Cons.prems(4) [OF *(2)] m(1) [OF *(3)] *(4)] .
      moreover have "set rs1 \<subseteq> {Inr (Some (AuthFailed Aborted))}" using auth_run_not_running [OF _ run] *(1) by simp
      then have "rs1 ! j = Inr (Some (AuthFailed Aborted))" if "j < length rs1" for j using nth_mem [OF that] by blast
      ultimately show ?thesis using * 0 rs by (auto simp: nth_Cons')
    next
      case (Suc k)
      have reach: "sasl_reach stp ms s0 s" if "self1 = AuthRunning s" for s
        using auth_step_running [where stp = stp, OF st [unfolded that] m(1)] Cons.prems(4) by blast
      have "k < length rs1" "is_login (rs1 ! k)" using Cons.prems(2,3) rs Suc by auto
      from Cons.IH [OF run this reach m(2)] show ?thesis using rs Suc by (auto simp: nth_Cons split: nat.splits)
    qed
  qed
qed simp

lemma callback_validate_plain:
  "callback_validate A w ''PLAIN'' cx = Value (Inr (Some usr)) \<longleftrightarrow>
     (\<exists>authcid password. cx_authid cx = Some authcid \<and> cx_authzid cx = Some [] \<and> cx_password cx = Some password \<and>
        users_get_user A (w_env w) authcid = Value (Some usr) \<and> check_password A usr password = Inr True)"
  by (auto simp: callback_validate_def bind_outcome_Value_iff split: option.splits if_splits)

lemma auth_step_no_bad_mechanism:
  "auth_step A w stp val self msg = Value (r, self1) \<Longrightarrow> r \<noteq> Inr (Some (AuthFailed BadMechanism))"
  by (erule auth_step_cases) auto

subsection \<open>Properties\<close>

text \<open>C4. One exchange logs in at most one user, and only one it has validated: a successful
  answer opens the session of a user that the mechanism validated in a state its own steps
  reached, with the capabilities of that session, and every later answer of the object is
  an aborted one, whatever the client does between the steps.\<close>

theorem one_login_per_exchange:
  assumes "auth_run A stp val (AuthRunning s0) cs = Value (rs, self')" "i < length rs" "is_login (rs ! i)"
  shows "(\<forall>j. i < j \<and> j < length rs \<longrightarrow> rs ! j = Inr (Some (AuthFailed Aborted))) \<and>
    (\<exists>w s1 usr d caps. sasl_reach stp (drawn cs) s0 s1 \<and> val s1 = Some usr \<and>
      api_session_build A w (session_open usr) = Value caps \<and>
      rs ! i = Inr (Some (Successful d (session_open usr) caps)))"
  by (rule auth_run_logins [OF assms]) (auto intro: sasl_reach.start)

lemma eve_has_perm: "has_perm mem_api eve_world \<lparr>se_user = \<lparr>ref_id = ''eve''\<rparr>\<rparr> perm = Value False"
  by (simp add: has_perm_def users_get_user_def userdb_get_def db_get_def raw_get_def mem_api_defs
        eve_world_def mem_db_def aligned_adapter_def archived_build_def get_username_def
        eve_user_def user_data_default_def is_permitted_def)

theorem one_login_per_exchange_witness:
  "\<exists>caps. auth_run mem_api (\<lambda>_ s m. Value (Inr (SaslFinished False) :: unit + sasl_state, m, [])) (\<lambda>m. if m = ''pw'' then Some eve_user else None)
     (AuthRunning []) [Step eve_world () (Some ''pw''), Step eve_world () (Some ''pw'')] =
       Value ([Inr (Some (Successful None (session_open eve_user) caps)), Inr (Some (AuthFailed Aborted))], AuthAborted)"
proof -
  have "\<exists>caps. api_session_build mem_api eve_world (session_open eve_user) = Value caps"
    by (simp add: api_session_build_def session_open_def user_ref_new_def eve_user_def eve_has_perm)
  then obtain rs self' where run: "auth_run mem_api (\<lambda>_ s m. Value (Inr (SaslFinished False) :: unit + sasl_state, m, []))
      (\<lambda>m. if m = ''pw'' then Some eve_user else None) (AuthRunning [])
      [Step eve_world () (Some ''pw''), Step eve_world () (Some ''pw'')] = Value (rs, self')" and "length rs = 2"
      "is_login (rs ! 0)" "self' = AuthAborted" "\<exists>caps. rs ! 0 = Inr (Some (Successful None (session_open eve_user) caps))"
    by (auto simp: auth_step_def is_login_def Let_def)
  moreover from this have "rs ! 1 = Inr (Some (AuthFailed Aborted))"
    using one_login_per_exchange [OF run, of 0] by simp
  ultimately show ?thesis by (auto simp: length_Suc_conv numeral_2_eq_2)
qed

text \<open>C14. The PLAIN mechanism validates exactly the stored user whose name and password the
  client sent, and only when the client asks for no other identity.\<close>

theorem plain_login_needs_password:
  assumes "lmdb_ok A stored seen" "callback_validate A w ''PLAIN'' cx = Value r"
  shows "r = Inr (Some usr) \<longleftrightarrow>
    (\<exists>authcid password. cx_authid cx = Some authcid \<and> cx_authzid cx = Some [] \<and> cx_password cx = Some password \<and>
       users_view A stored (w_env w) authcid = Some usr \<and> check_password A usr password = Inr True)"
proof
  assume "r = Inr (Some usr)"
  then show "\<exists>authcid password. cx_authid cx = Some authcid \<and> cx_authzid cx = Some [] \<and> cx_password cx = Some password \<and>
       users_view A stored (w_env w) authcid = Some usr \<and> check_password A usr password = Inr True"
    using assms(2) users_get_user_view [OF assms(1)] by (force simp: callback_validate_plain)
next
  assume "\<exists>authcid password. cx_authid cx = Some authcid \<and> cx_authzid cx = Some [] \<and> cx_password cx = Some password \<and>
       users_view A stored (w_env w) authcid = Some usr \<and> check_password A usr password = Inr True"
  then obtain authcid password where *: "cx_authid cx = Some authcid" "cx_authzid cx = Some []" "cx_password cx = Some password"
    "users_view A stored (w_env w) authcid = Some usr" "check_password A usr password = Inr True" by blast
  obtain x where x: "users_get_user A (w_env w) authcid = Value x"
    using assms(2) * by (auto simp: callback_validate_def bind_outcome_Value_iff)
  then have "x = Some usr" using get_user_viewed [OF assms(1) x *(4)] by simp
  then show "r = Inr (Some usr)" using assms(2) * x by (simp add: callback_validate_def)
qed

theorem plain_login_needs_password_witness:
  "\<exists>r. callback_validate mem_api eve_world ''PLAIN''
     \<lparr>cx_authid = Some ''eve'', cx_authzid = Some [], cx_password = Some ''old''\<rparr> = Value r \<and> r = Inr (Some eve_user)"
proof -
  let ?cx = "\<lparr>cx_authid = Some ''eve'', cx_authzid = Some [], cx_password = Some ''old''\<rparr>"
  have get: "users_get_user mem_api (w_env eve_world) ''eve'' = Value (Some eve_user)"
    by (simp add: users_get_user_def userdb_get_def db_get_def raw_get_def mem_api_defs eve_world_def mem_db_def
          aligned_adapter_def archived_build_def)
  then have "\<exists>r. callback_validate mem_api eve_world ''PLAIN'' ?cx = Value r"
    by (simp add: callback_validate_def)
  then obtain r where r: "callback_validate mem_api eve_world ''PLAIN'' ?cx = Value r" by blast
  moreover have "users_view mem_api mem_contents (w_env eve_world) ''eve'' = Some eve_user"
    using users_get_user_view [OF mem_api_lmdb_ok get] by simp
  moreover have "check_password mem_api eve_user ''old'' = Inr True"
    by (simp add: check_password_def eve_user_def mem_api_defs)
  ultimately show ?thesis
    using plain_login_needs_password [OF mem_api_lmdb_ok r, of eve_user] by simp
qed

text \<open>A client that asks for an unknown mechanism is never told so: the state is replaced
  by the aborted one before it is looked at, so no answer carries the error code for a bad
  mechanism and the object for an invalid mechanism answers every step as aborted.\<close>

theorem bad_mechanism_never_reported:
  "(auth_step A w stp val self msg = Value (r, self1) \<longrightarrow> r \<noteq> Inr (Some (AuthFailed BadMechanism))) \<and>
   auth_step A w stp val InvalidMechanism msg = Value (Inr (Some (AuthFailed Aborted)), AuthAborted)"
  using auth_step_no_bad_mechanism [of A w stp val self msg r self1] by (simp add: auth_step_not_running)

theorem bad_mechanism_never_reported_witness:
  "auth_step mem_api eve_world (\<lambda>s m. Value (Inl () :: unit + sasl_state, s, [])) (\<lambda>_. None) (AuthRunning ()) (Some ''x'') =
     Value (Inr (Some (AuthFailed Aborted)), AuthAborted) \<and>
   (Inr (Some (AuthFailed Aborted)) :: capnp_error + auth_response option) \<noteq> Inr (Some (AuthFailed BadMechanism))"
proof -
  have run: "auth_step mem_api eve_world (\<lambda>s m. Value (Inl () :: unit + sasl_state, s, [])) (\<lambda>_. None) (AuthRunning ()) (Some ''x'') =
     Value (Inr (Some (AuthFailed Aborted)), AuthAborted)"
    by (simp add: auth_step_def)
  then show ?thesis using bad_mechanism_never_reported [THEN conjunct1, rule_format, OF run] by simp
qed

end
