(* ===== verification/Executor.thy ===== *)
theory Executor
  imports Prelude "HOL-Library.Multiset"
begin

text \<open>
  \<open>runtime/executor/src\<close>: the workers that run light processes, the statistics of the load
  balancer, the thread manager and the supervision groups.  The queues are lists; what
  \<open>crossbeam\<close> answers when a worker steals, and what a task spawns when it runs, are arguments.
\<close>

subsection \<open>Workers\<close>

text \<open>The queues a worker takes tasks from: its own two, the global one, those of the other workers.  What
  has run and what was spawned meanwhile is kept.\<close>

record 't worker =
  wk_local :: "'t list"
  wk_tasks :: "'t list"
  wk_global :: "'t list"
  wk_fences :: "'t list list"
  wk_ran :: "'t list"
  wk_spawned :: "'t list"

text \<open>Where the loop of \<open>run_inner\<close> is: choosing a task, stealing from the global queue with its backoff counter,
  stealing from other workers, done.\<close>

datatype phase = Pick | Global nat | Fences | Parking

text \<open>The answer to a steal: \<open>None\<close> is a lost race, \<open>Some n\<close> a batch of \<open>n\<close> tasks besides the first.\<close>

type_synonym steal = "nat option"

text \<open>Running a task may push tasks on the local and on the global queue.\<close>

definition run_task :: "('t \<Rightarrow> 't list \<times> 't list) \<Rightarrow> 't \<Rightarrow> 't worker \<Rightarrow> 't worker" where
  "run_task spawns t w =
     w\<lparr>wk_local := wk_local w @ fst (spawns t), wk_global := wk_global w @ snd (spawns t),
       wk_ran := wk_ran w @ [t], wk_spawned := wk_spawned w @ fst (spawns t) @ snd (spawns t)\<rparr>"

text \<open>\<open>max_by_key\<close> returns the last of the longest queues.\<close>

fun select_fence :: "'t list list \<Rightarrow> nat option" where
  "select_fence [] = None"
| "select_fence (q # qs) =
     (case select_fence qs of
        None \<Rightarrow> Some 0
      | Some i \<Rightarrow> if length q > length (qs ! i) then Some 0 else Some (Suc i))"

text \<open>The backoff after a lost race, \<open>for _ in 0..(1 << i) { i += 1 }\<close> on a signed 32 bit integer: shifting by the
  width or more panics, and shifting into the sign gives an empty range.\<close>

definition backoff :: "nat \<Rightarrow> nat outcome" where
  "backoff i = (if i \<ge> 32 then Panic else if i = 31 then Value i else Value (i + 2 ^ i))"

definition worker_step ::
  "('t \<Rightarrow> 't list \<times> 't list) \<Rightarrow> steal \<Rightarrow> phase \<times> 't worker \<Rightarrow> (phase \<times> 't worker) outcome" where
  "worker_step spawns ans s =
     (case s of (ph, w) \<Rightarrow>
      (case ph of
        Pick \<Rightarrow>
          (case wk_local w of
             t # ts \<Rightarrow> Value (Pick, run_task spawns t (w\<lparr>wk_local := ts\<rparr>))
           | [] \<Rightarrow>
               (case wk_tasks w of
                  t # ts \<Rightarrow> Value (Pick, run_task spawns t (w\<lparr>wk_tasks := ts\<rparr>))
                | [] \<Rightarrow> Value (Global 0, w)))
      | Global i \<Rightarrow>
          (case ans of
             None \<Rightarrow> bind_outcome (backoff i) (\<lambda>i'. Value (Global i', w))
           | Some n \<Rightarrow>
               (case wk_global w of
                  [] \<Rightarrow> Value (Fences, w)
                | t # ts \<Rightarrow>
                    Value (Pick, run_task spawns t (w\<lparr>wk_tasks := wk_tasks w @ take n ts, wk_global := drop n ts\<rparr>))))
      | Fences \<Rightarrow>
          (case select_fence (wk_fences w) of
             None \<Rightarrow> Value (Parking, w)
           | Some k \<Rightarrow>
               (case ans of
                  None \<Rightarrow> Value (Fences, w)
                | Some n \<Rightarrow>
                    (case wk_fences w ! k of
                       [] \<Rightarrow> Value (Parking, w)
                     | t # ts \<Rightarrow>
                         Value (Pick, run_task spawns t
                           (w\<lparr>wk_tasks := wk_tasks w @ take n ts, wk_fences := (wk_fences w)[k := drop n ts]\<rparr>)))))
      | Parking \<Rightarrow> Value (Parking, w)))"

text \<open>\<open>run_inner\<close> with an answer for every step.\<close>

fun worker_run ::
  "('t \<Rightarrow> 't list \<times> 't list) \<Rightarrow> steal list \<Rightarrow> phase \<times> 't worker \<Rightarrow> (phase \<times> 't worker) outcome" where
  "worker_run spawns [] s = Value s"
| "worker_run spawns (a # as) s = bind_outcome (worker_step spawns a s) (worker_run spawns as)"

subsection \<open>Load statistics\<close>

definition MAX_CORE :: nat where "MAX_CORE = 256"

record load_stats =
  ls_smp_load :: "u64 list"
  ls_mean_level :: u64
  ls_updating_mean :: bool

definition stats_new :: "nat \<Rightarrow> load_stats" where
  "stats_new num_cores =
     \<lparr>ls_smp_load = map (\<lambda>i. if i < num_cores then 0 else - 1) [0..<MAX_CORE], ls_mean_level = 0, ls_updating_mean = False\<rparr>"

definition store_load :: "load_stats \<Rightarrow> nat \<Rightarrow> u64 \<Rightarrow> load_stats outcome" where
  "store_load self affinity ld =
     bind_outcome (index_set (ls_smp_load self) affinity ld) (\<lambda>l. Value (self\<lparr>ls_smp_load := l\<rparr>))"

text \<open>The loads up to the first core that does not exist, highest first; the sort is stable.\<close>

definition get_sorted_load :: "load_stats \<Rightarrow> (nat \<times> u64) list" where
  "get_sorted_load self =
     sort_key (\<lambda>(core, ld). - int (unat ld)) (takeWhile (\<lambda>(core, ld). ld \<noteq> - 1) (enumerate 0 (ls_smp_load self)))"

text \<open>An addition that would overflow is skipped.\<close>

fun sum_loads :: "u64 \<Rightarrow> u64 list \<Rightarrow> u64" where
  "sum_loads sm [] = sm"
| "sum_loads sm (x # xs) = (if unat sm + unat x < 2 ^ 64 then sum_loads (sm + x) xs else sum_loads sm xs)"

definition update_mean :: "nat \<Rightarrow> load_stats \<Rightarrow> load_stats outcome" where
  "update_mean num_cores self =
     (if ls_updating_mean self then Value self
      else if num_cores = 0 then Panic
      else Value (self\<lparr>ls_mean_level := of_nat (unat (sum_loads 0 (take num_cores (ls_smp_load self))) div num_cores),
                       ls_updating_mean := False\<rparr>))"

text \<open>The mean is recomputed at most every 200 milliseconds; nobody else holds the lock of the time stamp.\<close>

record load_balancer =
  bal_num_cores :: nat
  bal_updated_at :: nat

definition update_load_mean ::
  "nat \<Rightarrow> load_balancer \<Rightarrow> load_stats \<Rightarrow> (load_balancer \<times> load_stats) outcome" where
  "update_load_mean now self st =
     (if now - bal_updated_at self > 200
      then bind_outcome (update_mean (bal_num_cores self) st) (\<lambda>st'. Value (self\<lparr>bal_updated_at := now\<rparr>, st'))
      else Value (self, st))"

subsection \<open>The thread manager\<close>

record thread_manager =
  tm_static :: nat
  tm_dynamic :: nat
  tm_parked :: "nat list"

definition thread_manager_new :: "nat \<Rightarrow> nat \<Rightarrow> thread_manager" where
  "thread_manager_new cpus static_threads =
     \<lparr>tm_static = static_threads, tm_dynamic = max 1 (cpus - static_threads), tm_parked = []\<rparr>"

text \<open>Starting the threads: their sleepers are pushed on a queue that holds one for each.\<close>

fun park_all :: "nat \<Rightarrow> nat list \<Rightarrow> nat list \<Rightarrow> nat list outcome" where
  "park_all cap [] q = Value q"
| "park_all cap (s # ss) q = (if length q < cap then park_all cap ss (q @ [s]) else Panic)"

definition initialize_pool :: "thread_manager \<Rightarrow> thread_manager outcome" where
  "initialize_pool self =
     bind_outcome (park_all (max 1 (tm_static self + tm_dynamic self)) [0..<tm_static self + tm_dynamic self] (tm_parked self))
       (\<lambda>q. Value (self\<lparr>tm_parked := q\<rparr>))"

text \<open>Returns the threads that are woken as well.\<close>

definition unpark_thread :: "thread_manager \<Rightarrow> nat \<Rightarrow> nat \<times> nat list \<times> thread_manager" where
  "unpark_thread self num = (num, tm_parked self, self\<lparr>tm_parked := []\<rparr>)"

definition provision_threads :: "thread_manager \<Rightarrow> nat \<Rightarrow> nat list \<times> thread_manager" where
  "provision_threads self n = (let (rem, woken, self') = unpark_thread self n in (woken, self'))"

text \<open>The core a new thread is pinned to, if any, and the next one.\<close>

definition affinity_pinner :: "nat \<Rightarrow> nat \<Rightarrow> nat option \<times> nat" where
  "affinity_pinner core_count core =
     (if core_count \<noteq> 1 then (Some core, (core + 1) mod core_count) else (None, core))"

subsection \<open>Supervision groups\<close>

text \<open>A group id is a positive word.\<close>

definition group_from_u64 :: "u64 \<Rightarrow> u64 outcome" where
  "group_from_u64 i = (if i = 0 then Panic else Value i)"

definition id_to_idx :: "u64 \<Rightarrow> u64" where
  "id_to_idx gid = gid - 1"

definition idx_to_id :: "u64 \<Rightarrow> u64 outcome" where
  "idx_to_id idx = group_from_u64 (idx + 1)"

record group_inner =
  gi_parent :: "u64 option"
  gi_ref_count :: u64

record registry =
  rg_groups :: "u64 \<rightharpoonup> group_inner"
  rg_current :: "u64 option"

definition registry_new :: registry where
  "registry_new = \<lparr>rg_groups = Map.empty, rg_current = None\<rparr>"

definition registry_get :: "registry \<Rightarrow> u64 \<Rightarrow> group_inner option" where
  "registry_get self gid = rg_groups self (id_to_idx gid)"

text \<open>\<open>get_or\<close>: the current group of a thread is set once.\<close>

definition set_current :: "registry \<Rightarrow> u64 \<Rightarrow> registry" where
  "set_current self gid = (case rg_current self of None \<Rightarrow> self\<lparr>rg_current := Some gid\<rparr> | Some _ \<Rightarrow> self)"

definition clone_group :: "registry \<Rightarrow> u64 \<Rightarrow> (u64 \<times> registry) outcome" where
  "clone_group self gid =
     (case registry_get self gid of
        None \<Rightarrow> Panic
      | Some g \<Rightarrow>
          if gi_ref_count g = 0 then Panic
          else Value (gid, self\<lparr>rg_groups := (rg_groups self)(id_to_idx gid \<mapsto> g\<lparr>gi_ref_count := gi_ref_count g + 1\<rparr>)\<rparr>))"

definition registry_current :: "registry \<Rightarrow> (u64 option \<times> registry) outcome" where
  "registry_current self =
     (case rg_current self of
        None \<Rightarrow> Value (None, self)
      | Some gid \<Rightarrow> bind_outcome (clone_group self gid) (\<lambda>(i, self'). Value (Some i, self')))"

text \<open>The index is the free place that the pool hands out, or none when it is full.\<close>

definition new_group_inner :: "u64 option \<Rightarrow> registry \<Rightarrow> u64 option \<Rightarrow> (u64 \<times> registry) outcome" where
  "new_group_inner slot self parent =
     (case slot of
        None \<Rightarrow> Panic
      | Some idx \<Rightarrow>
          bind_outcome (idx_to_id idx) (\<lambda>gid.
            Value (gid, self\<lparr>rg_groups := (rg_groups self)(idx \<mapsto> \<lparr>gi_parent = parent, gi_ref_count = 1\<rparr>)\<rparr>)))"

definition new_root_group :: "u64 option \<Rightarrow> registry \<Rightarrow> (u64 \<times> registry) outcome" where
  "new_root_group slot self = new_group_inner slot self None"

definition new_group :: "u64 option \<Rightarrow> registry \<Rightarrow> (u64 \<times> registry) outcome" where
  "new_group slot self =
     bind_outcome (registry_current self) (\<lambda>(parent, self'). new_group_inner slot self' parent)"

text \<open>The thread is not panicking.\<close>

definition try_close :: "registry \<Rightarrow> u64 \<Rightarrow> (bool \<times> registry) outcome" where
  "try_close self gid =
     (case registry_get self gid of
        None \<Rightarrow> Panic
      | Some g \<Rightarrow>
          let self' = self\<lparr>rg_groups := (rg_groups self)(id_to_idx gid \<mapsto> g\<lparr>gi_ref_count := gi_ref_count g - 1\<rparr>)\<rparr> in
          if gi_ref_count g = - 1 then Panic else Value (gi_ref_count g \<le> 1, self'))"

definition group_inner_default :: group_inner where
  "group_inner_default = \<lparr>gi_parent = None, gi_ref_count = 0\<rparr>"

definition increment_refcnt :: "group_inner \<Rightarrow> u64 \<times> group_inner" where
  "increment_refcnt self = (gi_ref_count self, self\<lparr>gi_ref_count := gi_ref_count self + 1\<rparr>)"

text \<open>Clearing a group, as the pool does before it hands its place out again: the reference to the parent goes.\<close>

definition group_clear :: "registry \<Rightarrow> u64 \<Rightarrow> registry outcome" where
  "group_clear self idx =
     (case rg_groups self idx of
        None \<Rightarrow> Value self
      | Some g \<Rightarrow>
          (case gi_parent g of
             None \<Rightarrow> Value self
           | Some parent \<Rightarrow>
               bind_outcome (try_close (self\<lparr>rg_groups := (rg_groups self)(idx \<mapsto> g\<lparr>gi_parent := None\<rparr>)\<rparr>) parent)
                 (\<lambda>(closed, self'). Value self')))"

end
