(* ===== verification/Proc_State.thy ===== *)
theory Proc_State
  imports Prelude
begin

text \<open>
  \<open>runtime/lightproc/src/state.rs\<close>: the state of a light process, flags and reference count
  packed into eight bytes that an atomic 64 bit word holds.  Native byte order is little
  endian here, the order of the targets the server is built for; so the count is the low
  half of the word, and an addition that overflows it carries into the flags.

  \<open>layout_helpers.rs\<close>, the arithmetic of the memory layout, is here as well.
\<close>

subsection \<open>Flags\<close>

definition SCHEDULED :: u32 where "SCHEDULED = push_bit 0 1"
definition RUNNING :: u32 where "RUNNING = push_bit 1 1"
definition COMPLETED :: u32 where "COMPLETED = push_bit 2 1"
definition CLOSED :: u32 where "CLOSED = push_bit 3 1"
definition HANDLE :: u32 where "HANDLE = push_bit 4 1"
definition AWAITER :: u32 where "AWAITER = push_bit 5 1"
definition LOCKED :: u32 where "LOCKED = push_bit 6 1"

lemmas flag_defs = SCHEDULED_def RUNNING_def COMPLETED_def CLOSED_def HANDLE_def AWAITER_def LOCKED_def

definition contains :: "u32 \<Rightarrow> u32 \<Rightarrow> bool" where
  "contains self other \<longleftrightarrow> self AND other = other"

definition intersects :: "u32 \<Rightarrow> u32 \<Rightarrow> bool" where
  "intersects self other \<longleftrightarrow> self AND other \<noteq> 0"

text \<open>The complement of \<open>bitflags\<close> keeps to the seven declared bits.\<close>

definition all_flags :: u32 where
  "all_flags = SCHEDULED OR RUNNING OR COMPLETED OR CLOSED OR HANDLE OR AWAITER OR LOCKED"

definition flags_not :: "u32 \<Rightarrow> u32" where
  "flags_not self = NOT self AND all_flags"

subsection \<open>Bytes\<close>

definition u32_to_ne_bytes :: "u32 \<Rightarrow> u8 list" where
  "u32_to_ne_bytes w = [ucast w, ucast (drop_bit 8 w), ucast (drop_bit 16 w), ucast (drop_bit 24 w)]"

definition u32_from_ne_bytes :: "u8 list \<Rightarrow> u32" where
  "u32_from_ne_bytes bs =
     (case bs of [a, b, c, d] \<Rightarrow>
        ucast a OR push_bit 8 (ucast b) OR push_bit 16 (ucast c) OR push_bit 24 (ucast d) | _ \<Rightarrow> 0)"

definition u64_to_ne_bytes :: "u64 \<Rightarrow> u8 list" where
  "u64_to_ne_bytes w = u32_to_ne_bytes (ucast w) @ u32_to_ne_bytes (ucast (drop_bit 32 w))"

definition u64_from_ne_bytes :: "u8 list \<Rightarrow> u64" where
  "u64_from_ne_bytes bs = ucast (u32_from_ne_bytes (take 4 bs)) OR push_bit 32 (ucast (u32_from_ne_bytes (drop 4 bs)))"

subsection \<open>The state\<close>

record state =
  st_bytes :: "u8 list"

definition state_new :: "u32 \<Rightarrow> u32 \<Rightarrow> state" where
  "state_new flags references = \<lparr>st_bytes = u32_to_ne_bytes references @ u32_to_ne_bytes flags\<rparr>"

definition get_refcount :: "state \<Rightarrow> u32" where
  "get_refcount self = u32_from_ne_bytes (take 4 (st_bytes self))"

definition get_flags :: "state \<Rightarrow> u32" where
  "get_flags self = u32_from_ne_bytes (drop 4 (st_bytes self))"

definition parts :: "state \<Rightarrow> u32 \<times> u32" where
  "parts self = (u32_from_ne_bytes (drop 4 (st_bytes self)), u32_from_ne_bytes (take 4 (st_bytes self)))"

definition set_refcount :: "state \<Rightarrow> u32 \<Rightarrow> state" where
  "set_refcount self refcount = \<lparr>st_bytes = u32_to_ne_bytes refcount @ drop 4 (st_bytes self)\<rparr>"

definition into_u64 :: "state \<Rightarrow> u64" where
  "into_u64 self = u64_from_ne_bytes (st_bytes self)"

definition from_u64 :: "u64 \<Rightarrow> state" where
  "from_u64 v = \<lparr>st_bytes = u64_to_ne_bytes v\<rparr>"

definition is_awaiter :: "state \<Rightarrow> bool" where "is_awaiter self = contains (get_flags self) AWAITER"
definition is_closed :: "state \<Rightarrow> bool" where "is_closed self = contains (get_flags self) CLOSED"
definition is_locked :: "state \<Rightarrow> bool" where "is_locked self = contains (get_flags self) LOCKED"
definition is_scheduled :: "state \<Rightarrow> bool" where "is_scheduled self = contains (get_flags self) SCHEDULED"
definition is_completed :: "state \<Rightarrow> bool" where "is_completed self = contains (get_flags self) COMPLETED"
definition is_handle :: "state \<Rightarrow> bool" where "is_handle self = contains (get_flags self) HANDLE"
definition is_running :: "state \<Rightarrow> bool" where "is_running self = contains (get_flags self) RUNNING"

subsection \<open>The atomic word\<close>

text \<open>Each operation returns the old state and leaves the new word.\<close>

type_synonym atomic_state = u64

definition atomic_new :: "state \<Rightarrow> atomic_state" where
  "atomic_new v = into_u64 v"

definition atomic_load :: "atomic_state \<Rightarrow> state" where
  "atomic_load self = from_u64 self"

definition compare_exchange :: "atomic_state \<Rightarrow> state \<Rightarrow> state \<Rightarrow> (state + state) \<times> atomic_state" where
  "compare_exchange self current new =
     (if self = into_u64 current then (Inr (from_u64 self), into_u64 new) else (Inl (from_u64 self), self))"

definition fetch_or :: "atomic_state \<Rightarrow> u32 \<Rightarrow> state \<times> atomic_state" where
  "fetch_or self v =
     (let store = u64_from_ne_bytes ([0, 0, 0, 0] @ u32_to_ne_bytes v) in (from_u64 self, self OR store))"

definition fetch_and :: "atomic_state \<Rightarrow> u32 \<Rightarrow> state \<times> atomic_state" where
  "fetch_and self v =
     (let store = u64_from_ne_bytes ([NOT 0, NOT 0, NOT 0, NOT 0] @ u32_to_ne_bytes v) in (from_u64 self, self AND store))"

definition fetch_add :: "atomic_state \<Rightarrow> u32 \<Rightarrow> state \<times> atomic_state" where
  "fetch_add self v =
     (let store = u64_from_ne_bytes (u32_to_ne_bytes v @ [0, 0, 0, 0]) in (from_u64 self, self + store))"

definition fetch_sub :: "atomic_state \<Rightarrow> u32 \<Rightarrow> state \<times> atomic_state" where
  "fetch_sub self v =
     (let store = u64_from_ne_bytes (u32_to_ne_bytes v @ [0, 0, 0, 0]) in (from_u64 self, self - store))"

subsection \<open>Bytes and words\<close>

lemma u32_bytes [simp]: "u32_from_ne_bytes (u32_to_ne_bytes w) = w"
proof (rule bit_word_eqI)
  fix n assume "n < LENGTH(32)"
  then consider "n < 8" | "8 \<le> n" "n < 16" | "16 \<le> n" "n < 24" | "24 \<le> n" "n < 32" by fastforce
  then show "bit (u32_from_ne_bytes (u32_to_ne_bytes w)) n = bit w n"
    by cases (auto simp: u32_from_ne_bytes_def u32_to_ne_bytes_def bit_simps)
qed

lemma u32_to_ne_length [simp]: "length (u32_to_ne_bytes w) = 4"
  by (simp add: u32_to_ne_bytes_def)

lemma u32_from_ne_zero [simp]: "u32_from_ne_bytes [0, 0, 0, 0] = 0"
  by (simp add: u32_from_ne_bytes_def)

lemma u32_from_ne_ones [simp]: "u32_from_ne_bytes [- 1, - 1, - 1, - 1] = - 1"
proof -
  have "u32_to_ne_bytes (- 1) = [- 1, - 1, - 1, - 1]"
    by (auto simp: u32_to_ne_bytes_def intro!: bit_word_eqI) (auto simp: bit_simps)
  then show ?thesis using u32_bytes [of "- 1"] by simp
qed

lemma bytes_halves [simp]:
  "take 4 (u32_to_ne_bytes a @ bs) = u32_to_ne_bytes a" "drop 4 (u32_to_ne_bytes a @ bs) = bs"
  by simp_all

text \<open>The word is the count in the low half and the flags in the high half.\<close>

lemma into_u64_new: "into_u64 (state_new f r) = ucast r OR push_bit 32 (ucast f)"
  by (simp add: into_u64_def state_new_def u64_from_ne_bytes_def)

lemma from_u64_new: "from_u64 u = state_new (ucast (drop_bit 32 u)) (ucast u)"
  by (simp add: from_u64_def state_new_def u64_to_ne_bytes_def)

lemma state_new_parts [simp]:
  "get_flags (state_new f r) = f" "get_refcount (state_new f r) = r" "parts (state_new f r) = (f, r)"
  "set_refcount (state_new f r) r' = state_new f r'"
  by (simp_all add: get_flags_def get_refcount_def parts_def set_refcount_def state_new_def)

lemma state_new_inj [simp]: "state_new f r = state_new f' r' \<longleftrightarrow> f = f' \<and> r = r'"
  by (metis state_new_parts(1,2))

lemma from_into_u64 [simp]: "from_u64 (into_u64 (state_new f r)) = state_new f r"
proof -
  have "ucast (ucast r OR push_bit 32 (ucast f) :: u64) = r"
    by (rule bit_word_eqI) (auto simp: bit_simps)
  moreover have "ucast (drop_bit 32 (ucast r OR push_bit 32 (ucast f) :: u64)) = f"
    by (rule bit_word_eqI) (auto simp: bit_simps dest: bit_imp_le_length)
  ultimately show ?thesis by (simp add: into_u64_new from_u64_new)
qed

lemma into_u64_inj [simp]: "into_u64 (state_new f r) = into_u64 (state_new f' r') \<longleftrightarrow> f = f' \<and> r = r'"
  by (metis from_into_u64 state_new_inj)

lemma atomic_cases: obtains f r where "a = into_u64 (state_new f r)"
proof
  show "a = into_u64 (state_new (ucast (drop_bit 32 a)) (ucast a))"
    by (rule bit_word_eqI) (auto simp: into_u64_new bit_simps dest: bit_imp_le_length)
qed

lemma unat_into_u64: "unat (into_u64 (state_new f r)) = unat r + 2 ^ 32 * unat f"
proof -
  have "(ucast r OR push_bit 32 (ucast f) :: u64) = ucast r + push_bit 32 (ucast f)"
    by (rule disjunctive_add [symmetric]) (auto simp: bit_simps dest: bit_imp_le_length)
  moreover have up: "unat (ucast w :: u64) = unat w" for w :: u32
    using unsigned_less [of w, where ?'a = nat] by (simp add: unsigned_ucast_eq take_bit_nat_eq_self)
  moreover have "unat (push_bit 32 (ucast f) :: u64) = 2 ^ 32 * unat f"
    using unsigned_less [of f, where ?'a = nat] unfolding unsigned_push_bit_eq up
    by (simp add: push_bit_eq_mult take_bit_nat_eq_self)
  ultimately show ?thesis
    using unsigned_less [of f, where ?'a = nat] unsigned_less [of r, where ?'a = nat] by (simp add: into_u64_new unat_plus_if')
qed

subsection \<open>What the operations do to flags and count\<close>

text \<open>The bytes that \<open>fetch_or\<close> and \<open>fetch_and\<close> store leave the count alone.\<close>

lemma fetch_or_new:
  "fetch_or (into_u64 (state_new f r)) v = (state_new f r, into_u64 (state_new (f OR v) r))"
  by (auto simp: fetch_or_def u64_from_ne_bytes_def into_u64_new from_into_u64 [unfolded into_u64_new]
        intro!: bit_word_eqI) (auto simp: bit_simps)

lemma fetch_and_new:
  "fetch_and (into_u64 (state_new f r)) v = (state_new f r, into_u64 (state_new (f AND v) r))"
  by (auto simp: fetch_and_def u64_from_ne_bytes_def into_u64_new from_into_u64 [unfolded into_u64_new]
        intro!: bit_word_eqI) (auto simp: bit_simps dest: bit_imp_le_length)

lemma into_u64_eqI: "unat a = unat r + 2 ^ 32 * unat f \<Longrightarrow> a = into_u64 (state_new f r)"
  by (metis unat_into_u64 word_unat_eq_iff)

lemma count_store: "unat (u64_from_ne_bytes (u32_to_ne_bytes v @ [0, 0, 0, 0])) = unat v"
proof -
  have "u64_from_ne_bytes (u32_to_ne_bytes v @ [0, 0, 0, 0]) = into_u64 (state_new 0 v)"
    by (simp add: u64_from_ne_bytes_def into_u64_new)
  then show ?thesis by (simp add: unat_into_u64)
qed

lemma fetch_add_new:
  assumes "unat r + unat v < 2 ^ 32"
  shows "fetch_add (into_u64 (state_new f r)) v = (state_new f r, into_u64 (state_new f (r + v)))"
proof -
  have "into_u64 (state_new f r) + u64_from_ne_bytes (u32_to_ne_bytes v @ [0, 0, 0, 0]) = into_u64 (state_new f (r + v))"
    using assms unsigned_less [of f, where ?'a = nat]
    by (intro into_u64_eqI) (simp add: unat_plus_if' count_store unat_into_u64)
  then show ?thesis by (simp add: fetch_add_def)
qed

lemma fetch_sub_new:
  assumes "unat v \<le> unat r"
  shows "fetch_sub (into_u64 (state_new f r)) v = (state_new f r, into_u64 (state_new f (r - v)))"
proof -
  have "into_u64 (state_new f r) - u64_from_ne_bytes (u32_to_ne_bytes v @ [0, 0, 0, 0]) = into_u64 (state_new f (r - v))"
    using assms by (intro into_u64_eqI) (simp add: unat_sub_if' count_store unat_into_u64)
  then show ?thesis by (simp add: fetch_sub_def)
qed

text \<open>A count that underflows borrows from the flags.\<close>

lemma fetch_sub_borrows:
  assumes "unat r < unat v" "f \<noteq> 0"
  shows "fetch_sub (into_u64 (state_new f r)) v = (state_new f r, into_u64 (state_new (f - 1) (r - v)))"
proof -
  have f: "unat (f - 1) = unat f - 1" "0 < unat f" using assms(2) by (simp_all add: unat_minus_one unat_gt_0)
  have rv: "unat (r - v) = unat r + 2 ^ 32 - unat v"
    using assms(1) unsigned_less [of v, where ?'a = nat] by (simp add: unat_sub_if')
  have "unat v \<le> unat r + 2 ^ 32 * unat f"
    using f(2) unsigned_less [of v, where ?'a = nat] by (cases "unat f") auto
  then have "unat (into_u64 (state_new f r) - u64_from_ne_bytes (u32_to_ne_bytes v @ [0, 0, 0, 0]))
      = unat r + 2 ^ 32 * unat f - unat v"
    by (simp add: unat_sub_if' count_store unat_into_u64)
  also have "\<dots> = unat (r - v) + 2 ^ 32 * unat (f - 1)"
    using f rv unsigned_less [of v, where ?'a = nat] by (cases "unat f") auto
  finally show ?thesis by (simp add: fetch_sub_def into_u64_eqI)
qed

subsection \<open>Flags as bits\<close>

lemma contains_bits [simp]:
  "contains f SCHEDULED \<longleftrightarrow> bit f 0" "contains f RUNNING \<longleftrightarrow> bit f 1" "contains f COMPLETED \<longleftrightarrow> bit f 2"
  "contains f CLOSED \<longleftrightarrow> bit f 3" "contains f HANDLE \<longleftrightarrow> bit f 4" "contains f AWAITER \<longleftrightarrow> bit f 5"
  "contains f LOCKED \<longleftrightarrow> bit f 6"
proof -
  have *: "f AND push_bit n 1 = push_bit n 1 \<longleftrightarrow> bit f n" if "n < 32" for n
  proof
    assume "f AND push_bit n 1 = push_bit n 1"
    then have "bit (f AND push_bit n 1) n = bit (push_bit n (1 :: u32)) n" by simp
    then show "bit f n" using that by (simp add: bit_simps)
  next
    assume "bit f n"
    then show "f AND push_bit n 1 = push_bit n 1" by (auto intro!: bit_word_eqI simp: bit_simps)
  qed
  show "contains f SCHEDULED \<longleftrightarrow> bit f 0" "contains f RUNNING \<longleftrightarrow> bit f 1" "contains f COMPLETED \<longleftrightarrow> bit f 2"
    "contains f CLOSED \<longleftrightarrow> bit f 3" "contains f HANDLE \<longleftrightarrow> bit f 4" "contains f AWAITER \<longleftrightarrow> bit f 5"
    "contains f LOCKED \<longleftrightarrow> bit f 6"
    unfolding contains_def flag_defs by (rule *, simp)+
qed

lemma flag_bits [simp]:
  "bit SCHEDULED n \<longleftrightarrow> n = 0" "bit RUNNING n \<longleftrightarrow> n = 1" "bit COMPLETED n \<longleftrightarrow> n = 2" "bit CLOSED n \<longleftrightarrow> n = 3"
  "bit HANDLE n \<longleftrightarrow> n = 4" "bit AWAITER n \<longleftrightarrow> n = 5" "bit LOCKED n \<longleftrightarrow> n = 6"
proof -
  have *: "bit (push_bit k (1 :: u32)) n \<longleftrightarrow> n = k" if "k < 32" for k
    using that by (auto simp: bit_simps)
  show "bit SCHEDULED n \<longleftrightarrow> n = 0" "bit RUNNING n \<longleftrightarrow> n = 1" "bit COMPLETED n \<longleftrightarrow> n = 2" "bit CLOSED n \<longleftrightarrow> n = 3"
    "bit HANDLE n \<longleftrightarrow> n = 4" "bit AWAITER n \<longleftrightarrow> n = 5" "bit LOCKED n \<longleftrightarrow> n = 6"
    unfolding flag_defs by (rule *, simp)+
qed

lemma all_flags_bit [simp]: "bit all_flags n \<longleftrightarrow> n < 7"
  by (auto simp: all_flags_def bit_simps)

lemma flags_not_bit [simp]: "bit (flags_not f) n \<longleftrightarrow> \<not> bit f n \<and> n < 7"
  by (auto simp: flags_not_def bit_simps)

lemma intersects_iff: "intersects f g \<longleftrightarrow> (\<exists>n. bit f n \<and> bit g n)"
proof -
  have "x \<noteq> 0 \<longleftrightarrow> (\<exists>n. bit x n)" for x :: u32 using bit_eq_iff [of x 0] by (auto dest: bit_imp_le_length)
  then show ?thesis by (simp add: intersects_def bit_and_iff)
qed

lemma intersects_flags [simp]:
  "intersects f (SCHEDULED OR RUNNING) \<longleftrightarrow> bit f 0 \<or> bit f 1"
  "intersects f (COMPLETED OR CLOSED) \<longleftrightarrow> bit f 2 \<or> bit f 3"
  by (auto simp: intersects_iff bit_or_iff)

lemmas state_flag_defs = is_awaiter_def is_closed_def is_locked_def is_scheduled_def is_completed_def
  is_handle_def is_running_def

end
