(* ===== verification/Connection.thy ===== *)
theory Connection
  imports Authentication Executor Proc_State
begin

text \<open>
  \<open>capnp/connection.rs\<close>, \<open>capnp/mod.rs\<close>, \<open>capnp/config.rs\<close> and \<open>utils/uuid.rs\<close>: listening, accepting
  connections, the object that every connection starts with, and the words in which
  identifiers are sent.  Resolving names, sockets, TLS and rsasl are arguments.
\<close>

subsection \<open>The bootstrap object\<close>

text \<open>What rsasl offers: parsing the name of a mechanism, starting it, listing what is there.\<close>

record 's sasl_server =
  mech_parse :: "string \<Rightarrow> string option"
  mech_start :: "string \<Rightarrow> 's option"
  mech_available :: "string list"

definition get_server_release :: "string \<Rightarrow> string \<times> string" where
  "get_server_release version = (''bffhd'', version)"

definition mechanisms :: "'s sasl_server \<Rightarrow> string list" where
  "mechanisms sasl = mech_available sasl"

text \<open>The parameter is absent when the message cannot be decoded.\<close>

definition auth_start :: "'s sasl_server \<Rightarrow> string \<Rightarrow> string + 's" where
  "auth_start sasl mechanism =
     (case mech_start sasl mechanism of
        None \<Rightarrow> Inl ''Failed to start a SASL authentication with the given mechanism''
      | Some s \<Rightarrow> Inr s)"

definition create_session :: "'s sasl_server \<Rightarrow> string option \<Rightarrow> capnp_error + 's auth_state" where
  "create_session sasl params =
     (case params of
        None \<Rightarrow> Inl (Failed ''malformed message'')
      | Some mechanism \<Rightarrow>
          Inr (case mech_parse sasl mechanism of
                 None \<Rightarrow> auth_invalid_mechanism
               | Some mechname \<Rightarrow> (case auth_start sasl mechname of Inl _ \<Rightarrow> auth_invalid_mechanism | Inr s \<Rightarrow> auth_new s)))"

subsection \<open>Listening\<close>

definition DEFAULT_PORT :: nat where "DEFAULT_PORT = 59661"

record listen =
  li_address :: string
  li_port :: "nat option"

definition listen_to_tuple :: "listen \<Rightarrow> string \<times> nat" where
  "listen_to_tuple self = (li_address self, case li_port self of Some p \<Rightarrow> p | None \<Rightarrow> DEFAULT_PORT)"

definition listen_fmt :: "listen \<Rightarrow> string" where
  "listen_fmt self = li_address self @ '':'' @ show_nat (case li_port self of Some p \<Rightarrow> p | None \<Rightarrow> DEFAULT_PORT)"

text \<open>Every address that resolves is bound, and what cannot be resolved or bound is skipped.  The order is that
  in which the futures complete; the list gives one.\<close>

definition bind_sockets ::
  "(string \<times> nat \<Rightarrow> 'a list option) \<Rightarrow> ('a \<Rightarrow> 'sock option) \<Rightarrow> listen list \<Rightarrow> 'sock list" where
  "bind_sockets resolve bind listens =
     List.map_filter bind (concat (List.map_filter (\<lambda>l. resolve (listen_to_tuple l)) listens))"

subsection \<open>Connections\<close>

text \<open>What the server meets when it accepts: a failure, a stream without a peer, a stream.  A stream is either
  dropped in the handshake or served until it ends.\<close>

datatype accepted = AcceptFailed | NoPeer | Stream nat

text \<open>Each connection gets a task in a new group, for which the pool hands out a place.\<close>

fun handle_until ::
  "accepted list \<Rightarrow> u64 option list \<Rightarrow> registry \<Rightarrow> (nat \<times> u64) list \<Rightarrow> ((nat \<times> u64) list \<times> registry) outcome" where
  "handle_until [] slots reg tasks = Value (tasks, reg)"
| "handle_until (AcceptFailed # as) slots reg tasks = handle_until as slots reg tasks"
| "handle_until (NoPeer # as) slots reg tasks = handle_until as slots reg tasks"
| "handle_until (Stream peer # as) slots reg tasks =
     bind_outcome (new_group (case slots of [] \<Rightarrow> None | s # _ \<Rightarrow> s) reg) (\<lambda>(gid, reg').
       handle_until as (tl slots) reg' (tasks @ [(peer, gid)]))"

subsection \<open>Identifiers on the wire\<close>

text \<open>The two halves of a 128 bit identifier in the order of its bytes in memory.\<close>

definition u128_to_ne_bytes :: "u128 \<Rightarrow> u8 list" where
  "u128_to_ne_bytes w = u64_to_ne_bytes (ucast w) @ u64_to_ne_bytes (ucast (drop_bit 64 w))"

definition u128_from_ne_bytes :: "u8 list \<Rightarrow> u128" where
  "u128_from_ne_bytes bs = ucast (u64_from_ne_bytes (take 8 bs)) OR push_bit 64 (ucast (u64_from_ne_bytes (drop 8 bs)))"

definition uuid_to_api :: "u128 \<Rightarrow> u64 \<times> u64" where
  "uuid_to_api uuid =
     (let bytes = u128_to_ne_bytes uuid in (u64_from_ne_bytes (take 8 bytes), u64_from_ne_bytes (drop 8 bytes)))"

definition api_to_uuid :: "u64 \<times> u64 \<Rightarrow> u128" where
  "api_to_uuid halves = u128_from_ne_bytes (u64_to_ne_bytes (fst halves) @ u64_to_ne_bytes (snd halves))"

subsection \<open>Properties\<close>

lemma u64_bytes [simp]: "u64_from_ne_bytes (u64_to_ne_bytes w) = w"
  by (rule bit_word_eqI) (auto simp: u64_from_ne_bytes_def u64_to_ne_bytes_def bit_simps)

lemma u64_to_ne_length [simp]: "length (u64_to_ne_bytes w) = 8"
  by (simp add: u64_to_ne_bytes_def)

lemma uuid_halves: "uuid_to_api u = (ucast u, ucast (drop_bit 64 u))"
  by (simp add: uuid_to_api_def u128_to_ne_bytes_def Let_def)

text \<open>Identifiers survive being sent, and every pair of words is the identifier that is sent as it.\<close>

lemma uuid_round_trip: "api_to_uuid (uuid_to_api u) = u" "uuid_to_api (api_to_uuid (a, b)) = (a, b)"
proof -
  have api: "api_to_uuid (a, b) = ucast a OR push_bit 64 (ucast b)" for a b
    by (simp add: api_to_uuid_def u128_from_ne_bytes_def)
  show "api_to_uuid (uuid_to_api u) = u"
    by (rule bit_word_eqI) (auto simp: uuid_halves api bit_simps)
  have "ucast (ucast a OR push_bit 64 (ucast b) :: u128) = a" "ucast (drop_bit 64 (ucast a OR push_bit 64 (ucast b) :: u128)) = b"
    by (rule bit_word_eqI; auto simp: bit_simps dest: bit_imp_le_length)+
  then show "uuid_to_api (api_to_uuid (a, b)) = (a, b)" by (simp add: uuid_halves api)
qed

text \<open>A socket is opened for exactly the addresses that resolve and can be bound.\<close>

lemma bind_sockets_set:
  "sock \<in> set (bind_sockets resolve bind listens) \<longleftrightarrow>
     (\<exists>l\<in>set listens. \<exists>as a. resolve (listen_to_tuple l) = Some as \<and> a \<in> set as \<and> bind a = Some sock)"
  by (force simp: bind_sockets_def List.map_filter_def image_iff)

text \<open>One task per stream that has a peer, in the order in which they come.\<close>

fun peers :: "accepted list \<Rightarrow> nat list" where
  "peers [] = []"
| "peers (Stream p # as) = p # peers as"
| "peers (AcceptFailed # as) = peers as"
| "peers (NoPeer # as) = peers as"

lemma handle_until_peers:
  "handle_until as slots reg tasks = Value (tasks', reg') \<Longrightarrow> map fst tasks' = map fst tasks @ peers as"
proof (induction as slots reg tasks rule: handle_until.induct)
  case (4 peer as slots reg tasks)
  then show ?case by (auto simp: bind_outcome_Value_iff)
qed auto

text \<open>An unknown or malformed mechanism gives an object that never logs anybody in.\<close>

lemma unknown_mechanism_never_logs_in:
  assumes "create_session sasl (Some m) = Inr self"
    and "mech_parse sasl m = None \<or> (\<exists>n. mech_parse sasl m = Some n \<and> mech_start sasl n = None)"
    and "auth_run A stp val self calls = Value (replies, self')"
  shows "\<forall>r\<in>set replies. \<not> is_login r"
proof -
  have quiet: "\<forall>r\<in>set replies. \<not> is_login r"
    if "auth_run A stp val s calls = Value (replies, s')" "\<forall>x. s \<noteq> AuthRunning x" for s s' replies
    using that
  proof (induction calls arbitrary: s replies)
    case (Cons c calls)
    show ?case
    proof (cases c)
      case Abort
      then show ?thesis using Cons by (simp add: auth_abort_def)
    next
      case (Step w m msg)
      have "auth_step A w (stp m) val s msg = Value (Inr (build_error (AuthAborted :: 's auth_state)), AuthAborted)"
        using Cons.prems(2) by (cases s) (simp_all add: auth_step_def)
      then obtain rs where rs: "auth_run A stp val AuthAborted calls = Value (rs, s')"
          "replies = Inr (build_error (AuthAborted :: 's auth_state)) # rs"
        using Cons.prems(1) Step by (auto simp: bind_outcome_Value_iff)
      then show ?thesis using Cons.IH [OF rs(1)] by (simp add: is_login_def)
    qed
  qed simp
  have "self = InvalidMechanism" using assms(1,2) by (auto simp: create_session_def auth_start_def auth_invalid_mechanism_def)
  then show ?thesis using quiet [OF assms(3)] by simp
qed

text \<open>How the answer is logged.\<close>

fun dis_mechs_rest :: "string list \<Rightarrow> string" where
  "dis_mechs_rest [] = '']''"
| "dis_mechs_rest (m # ms) = '' ,'' @ m @ dis_mechs_rest ms"

definition dis_mechs :: "string list \<Rightarrow> string" where
  "dis_mechs ms = ''['' @ (case ms of [] \<Rightarrow> '']'' | m # rest \<Rightarrow> m @ dis_mechs_rest rest)"

end
