(* ===== verification/Server.thy ===== *)
theory Server
  imports Initiators Actors Connection
begin

text \<open>
  \<open>lib.rs\<close>, \<open>tls.rs\<close>, \<open>keylog.rs\<close>: putting the server together.  Files, TLS, signals and operating system
  threads are arguments.
\<close>

subsection \<open>TLS\<close>

datatype tls_error =
    OpenCertFile | OpenKeyFile | SystemCertsFile | ReadKeyFile | KeyFileFormat | TlsVersion string | TlsBuilder | KeyLogOpen

datatype pem_item = PKCS8Key string | RSAKey string | OtherItem

datatype tls_version = TLS12 | TLS13

definition lookup_cipher_suite :: "string \<Rightarrow> string option" where
  "lookup_cipher_suite name =
     (if name \<in> {''TLS_ECDHE_ECDSA_WITH_AES_128_GCM_SHA256'', ''TLS_ECDHE_ECDSA_WITH_AES_256_GCM_SHA384'',
        ''TLS_ECDHE_ECDSA_WITH_CHACHA20_POLY1305_SHA256'', ''TLS_ECDHE_RSA_WITH_AES_128_GCM_SHA256'',
        ''TLS_ECDHE_RSA_WITH_AES_256_GCM_SHA384'', ''TLS_ECDHE_RSA_WITH_CHACHA20_POLY1305_SHA256'',
        ''TLS13_AES_128_GCM_SHA256'', ''TLS13_AES_256_GCM_SHA384'', ''TLS13_CHACHA20_POLY1305_SHA256''}
      then Some name else None)"

record tls_listen =
  tl_certfile :: string
  tl_keyfile :: string
  tl_min_version :: "string option"

text \<open>What the file system and rustls answer: reading the certificates and the key, and building the configuration.\<close>

record tls_lib =
  tls_open :: "string \<Rightarrow> bool"
  tls_certs :: "string \<Rightarrow> string list option"
  tls_read_key :: "string \<Rightarrow> pem_item option option"
  tls_lowercase :: "string \<Rightarrow> string"
  tls_build :: "tls_version list \<Rightarrow> string list \<Rightarrow> string \<Rightarrow> bool"

record acceptor =
  ac_versions :: "tls_version list"
  ac_certs :: "string list"
  ac_key :: string
  ac_keylog :: bool

definition tls_versions :: "tls_lib \<Rightarrow> string option \<Rightarrow> tls_error + tls_version list" where
  "tls_versions L min_version =
     (case min_version of
        None \<Rightarrow> Inr [TLS12, TLS13]
      | Some m \<Rightarrow>
          let v = tls_lowercase L m in
          if v = ''tls12'' then Inr [TLS12] else if v = ''tls13'' then Inr [TLS13] else Inl (TlsVersion v))"

definition make_tls_acceptor :: "tls_lib \<Rightarrow> bool \<Rightarrow> tls_listen \<Rightarrow> tls_error + acceptor" where
  "make_tls_acceptor L keylog config =
     (if \<not> tls_open L (tl_certfile config) then Inl OpenCertFile
      else case tls_certs L (tl_certfile config) of
        None \<Rightarrow> Inl SystemCertsFile
      | Some certs \<Rightarrow>
          if \<not> tls_open L (tl_keyfile config) then Inl OpenKeyFile
          else (case tls_read_key L (tl_keyfile config) of
            None \<Rightarrow> Inl ReadKeyFile
          | Some item \<Rightarrow>
              (case (case item of Some (PKCS8Key k) \<Rightarrow> Some k | Some (RSAKey k) \<Rightarrow> Some k | _ \<Rightarrow> None) of
                 None \<Rightarrow> Inl KeyFileFormat
               | Some key \<Rightarrow>
                   bind_result (tls_versions L (tl_min_version config)) (\<lambda>versions.
                     if tls_build L versions certs key
                     then Inr \<lparr>ac_versions = versions, ac_certs = certs, ac_key = key, ac_keylog = keylog\<rparr>
                     else Inl TlsBuilder))))"

text \<open>\<open>TlsConfig::new\<close>: whether secrets are logged, which needs the file to open.\<close>

definition tls_config_new :: "tls_lib \<Rightarrow> string option \<Rightarrow> tls_error + bool" where
  "tls_config_new L keylogfile =
     (case keylogfile of None \<Rightarrow> Inr False | Some path \<Rightarrow> if tls_open L path then Inr True else Inl KeyLogOpen)"

text \<open>A line of the key log.\<close>

definition hex_digit :: "nat \<Rightarrow> char" where
  "hex_digit n = char_of (if n < 10 then 48 + n else 87 + n)"

definition hex_byte :: "u8 \<Rightarrow> string" where
  "hex_byte b = [hex_digit (unat b div 16), hex_digit (unat b mod 16)]"

definition key_log_line :: "string \<Rightarrow> u8 list \<Rightarrow> u8 list \<Rightarrow> string" where
  "key_log_line label client_random secret =
     label @ '' '' @ concat (map hex_byte client_random) @ '' '' @ concat (map hex_byte secret) @ [CHR 0x0A]"

subsection \<open>Running the server\<close>

datatype bffh_error =
    DBError lmdb_error | UsersError lmdb_error | StateDBError statedb_error | AuditLogError | SignalsError
  | ActorError actor_error | TlsSetup tls_error | ApiError

record ('sock) running =
  rn_initiators :: "(string \<times> resource \<times> initiator) list"
  rn_actors :: "(string \<times> resource \<times> actor) list"
  rn_acceptor :: acceptor
  rn_sockets :: "'sock list"

record server_config = module_names +
  sc_tls :: tls_listen
  sc_keylog :: "string option"
  sc_listens :: "listen list"

text \<open>\<open>Difluoroborane::run\<close> up to serving: the initiators, the actors with the connection to the broker, TLS, the
  sockets, in this order, ending at the first error.\<close>

definition bffh_run ::
  "('e, 't, 'z) server_scheme \<Rightarrow> 'e world \<Rightarrow> (string \<Rightarrow> string list \<Rightarrow> bool) \<Rightarrow> (string \<Rightarrow> mqtt_url option) \<Rightarrow> mqtt_error + unit
     \<Rightarrow> tls_lib \<Rightarrow> (string \<times> nat \<Rightarrow> 'a list option) \<Rightarrow> ('a \<Rightarrow> 'sock option) \<Rightarrow> bool \<Rightarrow> server_config \<Rightarrow> (string \<rightharpoonup> resource)
     \<Rightarrow> (bffh_error + 'sock running) outcome" where
  "bffh_run S w spawns parse first L resolve bind signals config resources =
     (if \<not> signals then Value (Inl SignalsError)
      else
        bind_outcome (initiators_load S w spawns (module_names.truncate config) resources) (\<lambda>initiators.
        Value (
          bind_result (map_sum ActorError (\<lambda>x. x) (actors_load parse first (module_names.truncate config) resources)) (\<lambda>(options, actors).
          bind_result (map_sum TlsSetup (\<lambda>x. x) (tls_config_new L (sc_keylog config))) (\<lambda>keylog.
          bind_result (map_sum TlsSetup (\<lambda>x. x) (make_tls_acceptor L keylog (sc_tls config))) (\<lambda>acceptor.
            Inr \<lparr>rn_initiators = initiators, rn_actors = actors, rn_acceptor = acceptor,
                 rn_sockets = bind_sockets resolve bind (sc_listens config)\<rparr>))))))"

text \<open>Waiting for a signal: an empty item of the stream of signals is waited out.\<close>

fun await_signal :: "nat option list \<Rightarrow> nat option" where
  "await_signal [] = None"
| "await_signal (None # ss) = await_signal ss"
| "await_signal (Some s # ss) = Some s"

subsection \<open>Properties\<close>

text \<open>A minimum version is used as the only version: asking for at least TLS 1.2 turns TLS 1.3 off.\<close>

lemma tls_min_version_is_only_version:
  "tls_lowercase L m = ''tls12'' \<Longrightarrow> tls_versions L (Some m) = Inr [TLS12]"
  by (simp add: tls_versions_def)

text \<open>The server does not serve without its broker: any failure of the actors ends the start before a socket is bound,
  and a server that runs has loaded exactly its connected actors and bound exactly its addresses.\<close>

lemma running_server:
  assumes "bffh_run S w spawns parse first L resolve bind signals config resources = Value (Inr r)"
    and "distinct (map fst (cf_actors config))"
  shows "first = Inr () \<and>
    ((name, res, a) \<in> set (rn_actors r) \<longleftrightarrow>
      (\<exists>cfg. (name, cfg) \<in> set (cf_actors config) \<and> connection resources (cf_actor_connections config) name = Some res \<and>
        actor_single name cfg = Some a)) \<and>
    (sock \<in> set (rn_sockets r) \<longleftrightarrow>
      (\<exists>l\<in>set (sc_listens config). \<exists>as ad. resolve (listen_to_tuple l) = Some as \<and> ad \<in> set as \<and> bind ad = Some sock))"
proof -
  obtain options acts where load: "actors_load parse first (module_names.truncate config) resources = Inr (options, acts)"
      "rn_actors r = acts" "rn_sockets r = bind_sockets resolve bind (sc_listens config)"
    using assms(1)
    by (cases "actors_load parse first (module_names.truncate config) resources")
       (auto simp: bffh_run_def bind_outcome_Value_iff bind_result_Inr_iff split: if_splits)
  have "first = Inr ()"
    using load(1) by (cases first; cases "mqtt_options_of parse (cf_mqtt_url (module_names.truncate config))")
      (simp_all add: actors_load_def)
  moreover have "(name, res, a) \<in> set (rn_actors r) \<longleftrightarrow>
      (\<exists>cfg. (name, cfg) \<in> set (cf_actors config) \<and> connection resources (cf_actor_connections config) name = Some res \<and>
        actor_single name cfg = Some a)"
    using actors_load_set [OF load(1)] assms(2) load(2) by (simp add: module_names.defs)
  ultimately show ?thesis using load(3) by (simp add: bind_sockets_set)
qed

subsection \<open>The key log file\<close>

text \<open>A line is appended to the file as a whole, or, when writing fails, up to some byte; a failure is only
  logged.\<close>

definition key_log_write :: "nat option \<Rightarrow> string \<Rightarrow> string \<times> u8 list \<times> u8 list \<Rightarrow> bool \<times> string" where
  "key_log_write fails old entry =
     (let (label, client_random, secret) = entry; line = key_log_line label client_random secret in
      (case fails of None \<Rightarrow> (False, old @ line) | Some n \<Rightarrow> (True, old @ take n line)))"

lemma key_log_lines:
  "foldl (\<lambda>old entry. snd (key_log_write None old entry)) old entries =
     old @ concat (map (\<lambda>(label, r, s). key_log_line label r s) entries)"
  by (induction entries arbitrary: old) (auto simp: key_log_write_def)

text \<open>The secret can be read off a line.\<close>

lemma hex_byte_inject: "hex_byte a = hex_byte b \<longleftrightarrow> a = b"
proof
  assume h: "hex_byte a = hex_byte b"
  have d: "m = n" if "hex_digit m = hex_digit n" "m < 16" "n < 16" for m n
    using that by (auto simp: hex_digit_def char_of_eq_iff take_bit_eq_mod split: if_splits)
  have lt: "unat a < 256" "unat b < 256" using unsigned_less [of a] unsigned_less [of b] by simp_all
  have "unat a div 16 = unat b div 16" "unat a mod 16 = unat b mod 16"
    using h lt by (auto simp: hex_byte_def intro: d)
  then have "unat a = unat b" by (metis mult_div_mod_eq)
  then show "a = b" by (simp add: word_unat_eq_iff)
qed simp

end
