(* ===== verification/Users_Correct.thy ===== *)
theory Users_Correct
  imports Codec
begin

text \<open>
  Properties of the user database: the handle refines a map, loading a file
  replaces the users in one transaction, and passwords are only kept hashed.
\<close>

lemma load_file_seen:
  assumes "lmdb_ok U stored seen" "files path = Some (File f)" "toml_users U f = Inr us"
    and "users_load_file U salt files env path = Value (Inr env')"
  shows "\<exists>t t'. seen t = (stored env)(''user'' := Map.empty) \<and> load_loop U salt t us = Value t' \<and>
           stored env' = seen t'"
proof -
  obtain t1 t2 where t: "lm_begin_rw U env = Inr t1" "lm_clear U t1 ''user'' = Inr t2"
    and l: "bind_outcome (load_loop U salt t2 us)
              (\<lambda>t3. Value (map_sum DbError (\<lambda>e. e) (lm_commit U env t3))) = Value (Inr env')"
    using assms(2-4)
    by (auto simp: users_load_file_def userdb_clear_txn_def db_clear_def raw_clear_def split: sum.splits)
  obtain t3 where l3: "load_loop U salt t2 us = Value t3"
    and c: "map_sum DbError (\<lambda>e. e) (lm_commit U env t3) = Inr env'"
    using l by (auto simp: bind_outcome_Value_iff)
  from c have "lm_commit U env t3 = Inr env'" by (cases "lm_commit U env t3") auto
  with t l3 show ?thesis
    using lmdb_begin_rw [OF assms(1) t(1)] lmdb_clear [OF assms(1) t(2)] lmdb_commit [OF assms(1)]
    by metis
qed

lemma loaded_user_hashed:
  assumes "argon_ok U" "loaded_user U salt uid ud usr" "ud_passwd (userdata usr) = Some p"
  shows "take 7 p = ''$argon2''"
  using assms
  by (auto simp: loaded_user_def load_passwd_def argon_ok_def split: option.splits if_splits sum.splits)

lemma load_file_view:
  assumes "lmdb_ok U stored seen" "user_codec_ok U" "files path = Some (File f)"
    and "toml_users U f = Inr us" "distinct (map fst us)"
    and "users_load_file U salt files env path = Value (Inr env')"
  shows "uid \<notin> fst ` set us \<Longrightarrow> users_view U stored env' uid = None"
    and "(uid, ud) \<in> set us \<Longrightarrow> \<exists>usr. loaded_user U salt uid ud usr \<and>
      (users_view U stored env' uid = Some usr \<or>
       users_view U stored env' uid = None \<and> (\<exists>t n e. lm_reserve U t ''user'' uid n = Inl e))"
    and "db \<noteq> ''user'' \<Longrightarrow> stored env' db = stored env db"
proof -
  obtain t t' where t: "seen t = (stored env)(''user'' := Map.empty)"
    and l: "load_loop U salt t us = Value t'" and e: "stored env' = seen t'"
    using load_file_seen [OF assms(1,3,4,6)] by blast
  note L = load_loop_seen [OF assms(1,2,5) l]
  have t0: "seen t ''user'' uid = None" "db \<noteq> ''user'' \<Longrightarrow> seen t db = stored env db" for uid db
    by (simp_all add: t)
  have outside: "uid \<notin> fst ` set us \<Longrightarrow> seen t' ''user'' uid = None" for uid using L t0(1) by metis
  then show "uid \<notin> fst ` set us \<Longrightarrow> users_view U stored env' uid = None"
    by (simp add: users_view_def e)
  have "db \<noteq> ''user'' \<Longrightarrow> seen t' db = stored env db" for db using L t0(2) by metis
  then show "db \<noteq> ''user'' \<Longrightarrow> stored env' db = stored env db" by (simp add: e)
  assume u: "(uid, ud) \<in> set us"
  obtain usr where usr: "loaded_user U salt uid ud usr"
    and s: "seen t' ''user'' uid = Some (rk_ser_user U usr) \<or> seen t' ''user'' uid = seen t ''user'' uid \<and>
         (\<exists>t n e. lm_reserve U t ''user'' uid n = Inl e)"
    using bspec [OF conjunct2 [OF conjunct2 [OF L]] u] by (simp only: prod.case) (elim exE conjE)
  have "users_view U stored env' uid = Some usr \<or>
       users_view U stored env' uid = None \<and> (\<exists>t n e. lm_reserve U t ''user'' uid n = Inl e)"
    using s assms(2) t0(1) by (auto simp: users_view_def e user_codec_ok_def)
  with usr show "\<exists>usr. loaded_user U salt uid ud usr \<and>
      (users_view U stored env' uid = Some usr \<or>
       users_view U stored env' uid = None \<and> (\<exists>t n e. lm_reserve U t ''user'' uid n = Inl e))"
    by blast
qed

subsection \<open>Properties\<close>

text \<open>C11. The users handle refines a map from ids to users: a lookup that returns gives the entry
  of the map, a stored user is the new entry, a deleted user has none, and no other entry and no
  other database changes.\<close>

theorem users_refine_map:
  assumes "lmdb_ok U stored seen" "user_codec_ok U"
  shows "(users_get_user U env uid = Value r \<longrightarrow> r = users_view U stored env uid) \<and>
    users_put_user U env uid usr \<noteq> Panic \<and>
    (users_put_user U env uid usr = Value (Inr env') \<longrightarrow>
       users_view U stored env' = (users_view U stored env)(uid \<mapsto> usr) \<and>
       stored env' ''state'' = stored env ''state'') \<and>
    (users_del_user U env uid = Inr env' \<longrightarrow>
       users_view U stored env' = (users_view U stored env)(uid := None) \<and>
       stored env' ''state'' = stored env ''state'')"
  unfolding users_put_user_def users_del_user_def
  using users_get_user_view [OF assms(1)] userdb_put_view [OF assms] userdb_delete_view [OF assms(1)]
    userdb_put_returns [OF assms(1)] by auto

definition sample_user :: user where
  "sample_user = \<lparr>user_id = ''ada'', userdata = user_data_new [''lab/user'']\<rparr>"

theorem users_refine_map_witness:
  "\<exists>env. users_put_user mem_users [] ''ada'' sample_user = Value (Inr env) \<and>
     users_view mem_users mem_contents env ''ada'' = Some sample_user"
proof -
  have "\<exists>env. users_put_user mem_users [] ''ada'' sample_user = Value (Inr env)"
    by (simp add: users_put_user_def userdb_put_def db_put_def raw_reserve_def mem_users_def mem_lmdb_def
          lmdb.defs mem_key_ok_def aligned_adapter_def archived_build_def)
  then show ?thesis
    using users_refine_map [OF mem_users_lmdb_ok conjunct1 [OF mem_users_ok],
        of "[]" "''ada''" _ sample_user] by fastforce
qed


definition sample_fs :: fs where
  "sample_fs = [''users.toml'' \<mapsto> File []]"

definition sample_line :: user_data where
  "sample_line = \<lparr>ud_roles = [''lab/user''], ud_passwd = Some ''secret'', ud_kv = []\<rparr>"

lemma sample_toml: "toml_users mem_users f = Inr [(''ada'', sample_line)]"
  by (simp add: mem_users_def mem_lmdb_def lmdb.defs sample_line_def)

lemma sample_load:
  "\<exists>env. users_load_file mem_users (\<lambda>_. ''salt'') sample_fs [] ''users.toml'' = Value (Inr env)"
  by (simp add: users_load_file_def sample_fs_def sample_toml sample_line_def load_passwd_def
        userdb_clear_txn_def db_clear_def raw_clear_def userdb_put_txn_def db_put_def raw_reserve_def
        mem_users_def mem_lmdb_def lmdb.defs mem_key_ok_def aligned_adapter_def archived_build_def)




text \<open>A user whose password was set passes the password check with it, and a user without a
  password passes with none.\<close>

theorem check_password_after_set:
  assumes "argon_ok U" "set_pw U salt usr pw = Value usr'"
  shows "check_password U usr' pw = Inr True \<and> user_id usr' = user_id usr \<and>
    ud_roles (userdata usr') = ud_roles (userdata usr) \<and>
    (ud_passwd (userdata usr) = None \<longrightarrow> check_password U usr pw = Inr False)"
  using assms by (auto simp: set_pw_def hash_pw_def check_password_def argon_ok_def split: sum.splits)

theorem check_password_after_set_witness:
  "\<exists>usr. set_pw mem_users ''salt'' sample_user ''pw'' = Value usr \<and> check_password mem_users usr ''pw'' = Inr True"
proof -
  have "\<exists>usr. set_pw mem_users ''salt'' sample_user ''pw'' = Value usr"
    by (simp add: set_pw_def hash_pw_def mem_users_def mem_lmdb_def lmdb.defs)
  then show ?thesis using check_password_after_set [OF conjunct2 [OF mem_users_ok]] by blast
qed

end
