(* ===== verification/Command_Line.thy ===== *)
theory Command_Line
  imports Server Users_Correct Sample_Server
begin

text \<open>
  \<open>bin/bffhd/main.rs\<close> with \<open>config/mod.rs\<close>, \<open>logging.rs\<close> and \<open>Difluoroborane::new\<close> of \<open>lib.rs\<close>: what the
  program does with its arguments.  Parsing arguments is left to \<open>clap\<close>: the model starts from
  what it found.  Files, the dhall parser and the operating system are arguments.
\<close>

subsection \<open>The configuration\<close>

record bffh_config = server_config +
  bc_machines :: "(string \<times> machine_description) list"
  bc_db_path :: string
  bc_auditlog_path :: string
  bc_roles :: roles
  bc_verbosity :: int
  bc_log_filter :: "string option"
  bc_log_format :: string
  bc_spacename :: string
  bc_instanceurl :: string

definition is_quiet :: "bffh_config \<Rightarrow> bool" where
  "is_quiet self \<longleftrightarrow> bc_verbosity self < 0"

definition bffh_config_default :: bffh_config where
  "bffh_config_default = module_names.extend config_default
     \<lparr>sc_tls = \<lparr>tl_certfile = ''./bffh.crt'', tl_keyfile = ''./bffh.key'', tl_min_version = None\<rparr>, sc_keylog = None,
      sc_listens = [\<lparr>li_address = ''127.0.0.1'', li_port = None\<rparr>],
      bc_machines = [], bc_db_path = ''/run/bffh/database'', bc_auditlog_path = ''/var/log/bffh/audit.log'',
      bc_roles = Map.empty, bc_verbosity = 0, bc_log_filter = None, bc_log_format = ''full'', bc_spacename = [],
      bc_instanceurl = []\<rparr>"

datatype config_error = ConfigNotFound string | ConfigNotAFile string | ConfigParse string

text \<open>What the program meets outside: the files, the dhall and debug formats, an environment variable, LMDB and the
  file of the audit log.\<close>

record 'e host =
  h_files :: fs
  h_parse :: "bytes \<Rightarrow> string + bffh_config"
  h_dhall :: "bffh_config \<Rightarrow> string option"
  h_debug :: "bffh_config \<Rightarrow> string"
  h_keylog_var :: "string option"
  h_open_env :: "string \<Rightarrow> lmdb_error + 'e"
  h_open_audit :: "string \<Rightarrow> bool"
  h_lowercase :: "string \<Rightarrow> string"

definition config_read :: "'e host \<Rightarrow> string \<Rightarrow> config_error + bffh_config" where
  "config_read H path =
     (case h_files H path of
        None \<Rightarrow> Inl (ConfigNotFound path)
      | Some Dir \<Rightarrow> Inl (ConfigNotAFile path)
      | Some (File f) \<Rightarrow> map_sum ConfigParse (\<lambda>c. c) (h_parse H f))"

subsection \<open>Logging\<close>

datatype log_filter = FilterFrom string | FilterVar string
datatype log_layer = PrettyLayer | CompactLayer | FullLayer

definition logging_init :: "'e host \<Rightarrow> bffh_config \<Rightarrow> log_filter \<times> log_layer" where
  "logging_init H config =
     (let filt = (case bc_log_filter config of Some f \<Rightarrow> FilterFrom f | None \<Rightarrow> FilterVar ''BFFH_LOG'');
          fmt = h_lowercase H (bc_log_format config) in
      (filt, if fmt = ''pretty'' then PrettyLayer else if fmt = ''compact'' then CompactLayer else FullLayer))"

subsection \<open>Starting\<close>

text \<open>\<open>Difluoroborane::new\<close>: the databases and the audit log are opened, then every machine is given its state.\<close>

record 'e started =
  bs_config :: bffh_config
  bs_world :: "'e world"
  bs_resources :: "string \<rightharpoonup> resource"
  bs_logging :: "log_filter \<times> log_layer"

definition config_resources :: "bffh_config \<Rightarrow> resource list" where
  "config_resources config = map (\<lambda>(i, desc). \<lparr>res_id = i, res_desc = desc\<rparr>) (bc_machines config)"

definition use_roles :: "bffh_config \<Rightarrow> ('e, 't, 'z) server_scheme \<Rightarrow> ('e, 't, 'z) server_scheme" where
  "use_roles config S = S\<lparr>sv_roles := bc_roles config\<rparr>"

text \<open>The environment of the state database is opened at a path; the database in it is created when it is missing or, with
  \<open>open\<close>, has to be there, which the library answers.\<close>

definition statedb_open_env :: "'e host \<Rightarrow> string \<Rightarrow> statedb_error + 'e" where
  "statedb_open_env H path = map_sum OpenEnv (\<lambda>e. e) (h_open_env H path)"

definition statedb_open_with_env :: "('e \<Rightarrow> string \<Rightarrow> lmdb_error option) \<Rightarrow> 'e \<Rightarrow> statedb_error + 'e" where
  "statedb_open_with_env open_db env = (case open_db env ''state'' of Some e \<Rightarrow> Inl (Open e) | None \<Rightarrow> Inr env)"

definition statedb_open :: "('e \<Rightarrow> string \<Rightarrow> lmdb_error option) \<Rightarrow> 'e host \<Rightarrow> string \<Rightarrow> statedb_error + 'e" where
  "statedb_open open_db H path = bind_result (statedb_open_env H path) (statedb_open_with_env open_db)"

definition statedb_create_at :: "('e, 't, 'z) server_scheme \<Rightarrow> 'e host \<Rightarrow> string \<Rightarrow> statedb_error + 'e" where
  "statedb_create_at S H path = bind_result (statedb_open_env H path) (statedb_create S)"

text \<open>The users are kept in a cell of the program, filled by the first call that succeeds.\<close>

definition users_new :: "('e, 't, 'z) user_deps_scheme \<Rightarrow> 'e option \<Rightarrow> 'e \<Rightarrow> (lmdb_error + 'e) \<times> 'e option" where
  "users_new U userdb env =
     (case userdb of
        Some db \<Rightarrow> (Inr db, userdb)
      | None \<Rightarrow> (case userdb_create U env of Inl e \<Rightarrow> (Inl e, None) | Inr db \<Rightarrow> (Inr db, Some db)))"

lemma users_new_once:
  "fst (users_new U userdb env) = Inr db \<Longrightarrow> users_new U (snd (users_new U userdb env)) env' = (Inr db, Some db)"
  by (auto simp: users_new_def split: option.splits sum.splits)

definition open_databases :: "('e, 't, 'z) server_scheme \<Rightarrow> 'e host \<Rightarrow> bffh_config \<Rightarrow> bffh_error + 'e" where
  "open_databases S H config =
     bind_result (map_sum StateDBError (\<lambda>e. e) (statedb_open_env H (bc_db_path config))) (\<lambda>env.
     bind_result (map_sum StateDBError (\<lambda>e. e) (statedb_create S env)) (\<lambda>env1.
     bind_result (map_sum UsersError (\<lambda>e. e) (fst (users_new S None env1))) (\<lambda>env2.
       if h_open_audit H (bc_auditlog_path config) then Inr env2 else Inl AuditLogError)))"

definition difluoroborane_new ::
  "('e, 't, 'z) server_scheme \<Rightarrow> 'e host \<Rightarrow> int \<Rightarrow> bffh_config \<Rightarrow> (bffh_error + 'e started) outcome" where
  "difluoroborane_new S H now config =
     (case open_databases (use_roles config S) H config of
        Inl e \<Rightarrow> Value (Inl e)
      | Inr env \<Rightarrow>
          bind_outcome (start_resources (use_roles config S)
            \<lparr>w_env = env, w_audit = Some [], w_signals = Map.empty, w_now = now\<rparr> (config_resources config)) (\<lambda>w.
          bind_outcome (resources_new (config_resources config) Map.empty) (\<lambda>resources.
            Value (Inr \<lparr>bs_config = config, bs_world = w, bs_resources = resources, bs_logging = logging_init H config\<rparr>))))"

subsection \<open>The arguments\<close>

record arguments =
  ar_config :: "string option"
  ar_verbosity :: nat
  ar_quiet :: bool
  ar_log_format :: "string option"
  ar_log_level :: "string option"
  ar_print_default :: bool
  ar_check_config :: bool
  ar_dump :: bool
  ar_dump_users :: "string option"
  ar_force :: bool
  ar_load :: "string option"
  ar_keylog :: "string option"

text \<open>The conflicts and limits that \<open>clap\<close> enforces.\<close>

definition arguments_ok :: "('e host \<Rightarrow> string \<Rightarrow> string) \<Rightarrow> 'e host \<Rightarrow> arguments \<Rightarrow> bool" where
  "arguments_ok lower H a \<longleftrightarrow>
     ar_verbosity a \<le> 3 \<and> \<not> (0 < ar_verbosity a \<and> ar_quiet a) \<and>
     (ar_load a \<noteq> None \<longrightarrow> \<not> ar_dump a \<and> ar_dump_users a = None) \<and>
     (\<forall>f. ar_log_format a = Some f \<longrightarrow> lower H f \<in> {''full'', ''compact'', ''pretty''})"

definition config_path :: "arguments \<Rightarrow> string" where
  "config_path a = (case ar_config a of Some p \<Rightarrow> p | None \<Rightarrow> ''/etc/difluoroborane.dhall'')"

text \<open>The path of the key log: an empty value means the environment variable, which must then be set.\<close>

definition keylog_path :: "'e host \<Rightarrow> arguments \<Rightarrow> string option option" where
  "keylog_path H a =
     (if ar_keylog a = Some [] then
        (case h_keylog_var H of None \<Rightarrow> None | Some [] \<Rightarrow> None | Some v \<Rightarrow> Some (Some v))
      else Some (ar_keylog a))"

definition override_config :: "arguments \<Rightarrow> string option \<Rightarrow> bffh_config \<Rightarrow> bffh_config" where
  "override_config a keylog config =
     (let verbosity = int (ar_verbosity a) in
      config\<lparr>sc_keylog := keylog,
             bc_verbosity := (if verbosity = 0 \<and> ar_quiet a then - 1 else verbosity),
             bc_log_format := (case ar_log_format a of Some f \<Rightarrow> f | None \<Rightarrow> ''full'')\<rparr>)"

subsection \<open>The program\<close>

datatype main_error =
    MainConfig config_error | MainNotImplemented | MainStart bffh_error | MainDump dump_error | MainLoad load_error

text \<open>How the program ends: with the text it printed, with an exit code, with an error, or having done its work.\<close>

datatype ('e, 'sock) main_exit =
    Printed string
  | ExitCode int
  | Failed main_error
  | Dumped nat fs 'e
  | Loaded 'e
  | NoKeylog
  | Served "'e started" "'sock running"

text \<open>The rest of the server's surroundings, for \<open>Difluoroborane::run\<close>.\<close>

record ('a, 'sock) runtime =
  rt_spawns :: "string \<Rightarrow> string list \<Rightarrow> bool"
  rt_mqtt_url :: "string \<Rightarrow> mqtt_url option"
  rt_broker :: "mqtt_error + unit"
  rt_tls :: tls_lib
  rt_resolve :: "string \<times> nat \<Rightarrow> 'a list option"
  rt_bind :: "'a \<Rightarrow> 'sock option"
  rt_signals :: bool

definition main_start ::
  "('e, 't, 'z) server_scheme \<Rightarrow> 'e host \<Rightarrow> int \<Rightarrow> bffh_config \<Rightarrow> ('e started \<Rightarrow> ('e, 'sock) main_exit outcome) \<Rightarrow>
     ('e, 'sock) main_exit outcome" where
  "main_start S H now config k =
     bind_outcome (difluoroborane_new S H now config) (\<lambda>r. case r of Inl e \<Rightarrow> Value (Failed (MainStart e)) | Inr b \<Rightarrow> k b)"

definition main_serve ::
  "('e, 't, 'z) server_scheme \<Rightarrow> ('a, 'sock) runtime \<Rightarrow> 'e started \<Rightarrow> ('e, 'sock) main_exit outcome" where
  "main_serve S rt b =
     bind_outcome (bffh_run (use_roles (bs_config b) S) (bs_world b) (rt_spawns rt) (rt_mqtt_url rt) (rt_broker rt) (rt_tls rt)
         (rt_resolve rt) (rt_bind rt) (rt_signals rt) (server_config.truncate (bs_config b)) (bs_resources b)) (\<lambda>r.
       case r of Inl e \<Rightarrow> Value (Failed (MainStart e)) | Inr running \<Rightarrow> Value (Served b running))"

definition main ::
  "('e, 't, 'z) server_scheme \<Rightarrow> 'e host \<Rightarrow> ('a, 'sock) runtime \<Rightarrow> int \<Rightarrow> (string \<Rightarrow> string) \<Rightarrow> arguments \<Rightarrow>
     ('e, 'sock) main_exit outcome" where
  "main S H rt now salt a =
     (if ar_print_default a then
        (case h_dhall H bffh_config_default of None \<Rightarrow> Panic | Some encoded \<Rightarrow> Value (Printed encoded))
      else if ar_check_config a then
        (case config_read H (config_path a) of Inr c \<Rightarrow> Value (Printed (h_debug H c)) | Inl e \<Rightarrow> Value (ExitCode (- 1)))
      else
        case config_read H (config_path a) of
          Inl e \<Rightarrow> Value (Failed (MainConfig e))
        | Inr config \<Rightarrow>
            if ar_dump a then Value (Failed MainNotImplemented)
            else (case ar_dump_users a of
              Some path \<Rightarrow>
                main_start S H now config (\<lambda>b.
                  let (r, files) = users_dump_file S (h_files H) (w_env (bs_world b)) path (ar_force a) in
                  (case r of
                     Inl e \<Rightarrow> Value (Failed (MainDump e))
                   | Inr number \<Rightarrow> Value (Dumped number files (w_env (bs_world b)))))
            | None \<Rightarrow>
                (case ar_load a of
                   Some path \<Rightarrow>
                     main_start S H now config (\<lambda>b.
                       bind_outcome (users_load_file S salt (h_files H) (w_env (bs_world b)) path) (\<lambda>r.
                         case r of Inl e \<Rightarrow> Value (Failed (MainLoad e)) | Inr env \<Rightarrow> Value (Loaded env)))
                 | None \<Rightarrow>
                     (case keylog_path H a of
                        None \<Rightarrow> Value NoKeylog
                      | Some keylog \<Rightarrow> main_start S H now (override_config a keylog config) (main_serve S rt)))))"

end
