(* ===== verification/Main_Correct.thy ===== *)
theory Main_Correct
  imports Command_Line
begin

text \<open>
  Properties of the program as a whole: what is left in the databases when it was started, and
  dumping and loading the users.
\<close>

subsection \<open>Starting the server\<close>

lemma map_sum_Inr_iff: "map_sum f g x = Inr z \<longleftrightarrow> (\<exists>y. x = Inr y \<and> z = g y)"
  by (cases x) auto

lemma use_roles_lmdb [simp]: "lmdb_ok (use_roles config S) stored seen = lmdb_ok S stored seen"
  by (simp add: lmdb_ok_def use_roles_def)

text \<open>A machine with a stored state keeps it, a new one is given the free state; nothing else is written.\<close>

lemma inner_new_stored:
  assumes "lmdb_ok S stored seen" "inner_new S w i = Value w'"
  shows "stored (w_env w') =
    (if stored (w_env w) ''state'' i = None
     then (stored (w_env w))(''state'' := (stored (w_env w) ''state'')(i \<mapsto> rk_ser_state S (machine_free None)))
     else stored (w_env w))"
proof (cases "statedb_get S (w_env w) i")
  case (Inr v)
  have v: "v = map_option archived_build (stored (w_env w) ''state'' i)" by (rule statedb_get_stored [OF assms(1) Inr])
  show ?thesis
  proof (cases "stored (w_env w) ''state'' i")
    case None
    then obtain env where put: "statedb_put S (w_env w) i (archive_state S (machine_free None)) = Value (Inr env)" "w_env w' = env"
      using assms(2) Inr v
      by (cases "statedb_put S (w_env w) i (archive_state S (machine_free None))") (auto simp: inner_new_def split: sum.splits)
    show ?thesis
      using statedb_put_stored [OF assms(1), of "w_env w" i "rk_ser_state S (machine_free None)" env] put None
      by (simp add: archive_state_def)
  next
    case (Some b)
    then show ?thesis using assms(2) Inr v by (auto simp: inner_new_def)
  qed
qed (use assms(2) in \<open>simp add: inner_new_def\<close>)

lemma start_resources_stored:
  assumes "lmdb_ok S stored seen" "start_resources S w rs = Value w'"
  shows "stored (w_env w') = (stored (w_env w))(''state'' := (\<lambda>i.
    if stored (w_env w) ''state'' i = None \<and> i \<in> res_id ` set rs then Some (rk_ser_state S (machine_free None))
    else stored (w_env w) ''state'' i))"
  using assms(2)
proof (induction rs arbitrary: w)
  case (Cons r rs)
  obtain w1 where w1: "inner_new S w (res_id r) = Value w1" "start_resources S w1 rs = Value w'"
    using Cons.prems by (auto simp: bind_outcome_Value_iff)
  show ?case
    unfolding Cons.IH [OF w1(2)] inner_new_stored [OF assms(1) w1(1)]
    by (rule ext, rule ext) auto
qed simp

lemma open_databases_stored:
  assumes "lmdb_ok S stored seen" "open_databases S H config = Inr env"
  shows "\<exists>env0. h_open_env H (bc_db_path config) = Inr env0 \<and> stored env = stored env0"
proof -
  obtain env0 env1 where "h_open_env H (bc_db_path config) = Inr env0" "lm_create_db S env0 ''state'' = Inr env1"
      "lm_create_db S env1 ''user'' = Inr env"
    using assms(2)
    by (auto simp: open_databases_def bind_result_Inr_iff statedb_open_env_def users_new_def statedb_create_def userdb_create_def
      raw_create_def map_sum_Inr_iff split: if_splits sum.splits)
  then show ?thesis using lmdb_create [OF assms(1)] by metis
qed

text \<open>What a started server has: the machines of its configuration, with states as they were stored.\<close>

lemma difluoroborane_new_stored:
  assumes "lmdb_ok S stored seen" "difluoroborane_new S H now config = Value (Inr b)"
  shows "\<exists>env0. h_open_env H (bc_db_path config) = Inr env0 \<and>
      stored (w_env (bs_world b)) = (stored env0)(''state'' := (\<lambda>i.
        if stored env0 ''state'' i = None \<and> i \<in> fst ` set (bc_machines config) then Some (rk_ser_state S (machine_free None))
        else stored env0 ''state'' i))"
    and "coherent stored (set (config_resources config)) (bs_world b)"
    and "resources_new (config_resources config) Map.empty = Value (bs_resources b)" "bs_config b = config"
proof -
  let ?S = "use_roles config S"
  obtain env where env: "open_databases ?S H config = Inr env"
    using assms(2) by (auto simp: difluoroborane_new_def split: sum.splits)
  let ?w = "\<lparr>w_env = env, w_audit = Some [], w_signals = Map.empty, w_now = now\<rparr>"
  obtain w resources where w: "start_resources ?S ?w (config_resources config) = Value w"
      "resources_new (config_resources config) Map.empty = Value resources"
      "bs_world b = w" "bs_resources b = resources" "bs_config b = config"
    using assms(2) env by (auto simp: difluoroborane_new_def bind_outcome_Value_iff)
  have ok: "lmdb_ok ?S stored seen" using assms(1) by simp
  obtain env0 where env0: "h_open_env H (bc_db_path config) = Inr env0" "stored env = stored env0"
    using open_databases_stored [OF ok env] by blast
  have ids: "res_id ` set (config_resources config) = fst ` set (bc_machines config)"
    by (force simp: config_resources_def)
  show "\<exists>env0. h_open_env H (bc_db_path config) = Inr env0 \<and>
      stored (w_env (bs_world b)) = (stored env0)(''state'' := (\<lambda>i.
        if stored env0 ''state'' i = None \<and> i \<in> fst ` set (bc_machines config) then Some (rk_ser_state S (machine_free None))
        else stored env0 ''state'' i))"
    using start_resources_stored [OF ok w(1)] env0 by (simp add: w(3) ids use_roles_def cong: if_cong)
  have "coherent stored {} ?w" by (simp add: coherent_def)
  from start_resources_coherent [OF ok w(1) this] show "coherent stored (set (config_resources config)) (bs_world b)"
    by (simp add: w(3))
  show "resources_new (config_resources config) Map.empty = Value (bs_resources b)" "bs_config b = config"
    using w by simp_all
qed

subsection \<open>Dumping and loading users\<close>

lemma fold_updates:
  assumes "\<And>k v v'. \<lbrakk>(k, v) \<in> set xs; (k, v') \<in> set xs\<rbrakk> \<Longrightarrow> v = v'"
  shows "fold (\<lambda>(k, v) out. out(k \<mapsto> f v)) xs m k =
    (if \<exists>v. (k, v) \<in> set xs then Some (f (THE v. (k, v) \<in> set xs)) else m k)"
proof -
  have "(k, v) \<in> set xs \<Longrightarrow> fold (\<lambda>(k, v) out. out(k \<mapsto> f v)) xs m k = Some (f v)" for v
    using assms
  proof (induction xs rule: rev_induct)
    case (snoc x xs)
    show ?case
    proof (cases "fst x = k")
      case True
      then have "snd x = v" using snoc.prems(2) [of k v "snd x"] snoc.prems(1) by (cases x) auto
      then show ?thesis using True by (cases x) simp
    next
      case False
      have "(k, v) \<in> set xs" using snoc.prems(1) False by auto
      moreover have "\<lbrakk>(k, v) \<in> set xs; (k, v') \<in> set xs\<rbrakk> \<Longrightarrow> v = v'" for k v v' using snoc.prems(2) by auto
      ultimately show ?thesis using snoc.IH False by (cases x) simp
    qed
  qed simp
  moreover have "\<nexists>v. (k, v) \<in> set xs \<Longrightarrow> fold (\<lambda>(k, v) out. out(k \<mapsto> f v)) xs m k = m k"
    by (induction xs arbitrary: m) auto
  moreover have "(THE v. (k, v) \<in> set xs) = v" if "(k, v) \<in> set xs" for v using that assms by (intro the_equality) auto
  ultimately show ?thesis by auto
qed

lemma userdb_get_all_view:
  assumes "lmdb_ok U stored seen" "userdb_get_all U env = Inr us"
  shows "us uid = map_option userdata (users_view U stored env uid)"
proof -
  obtain t it where t: "lm_begin_ro U env = Inr t" "db_get_all U aligned_adapter t ''user'' = Inr it"
    and us: "us = fold (\<lambda>(uid, v) out. out(uid \<mapsto> userdata (rk_de_user U (av_data v)))) it Map.empty"
    using assms(2) by (auto simp: userdb_get_all_def bind_result_Inr_iff)
  have it: "(k, v) \<in> set it \<longleftrightarrow> (\<exists>b. stored env ''user'' k = Some b \<and> archived_build b = v)" for k v
    using aligned.db_get_all_seen [OF assms(1) t(2), of k v] lmdb_begin_ro [OF assms(1) t(1)]
    by (simp add: aligned_adapter_def)
  have "us uid = (if \<exists>v. (uid, v) \<in> set it then Some (userdata (rk_de_user U (av_data (THE v. (uid, v) \<in> set it)))) else None)"
    unfolding us by (rule fold_updates) (auto simp: it)
  then show ?thesis by (cases "stored env ''user'' uid") (auto simp: it users_view_def archived_build_def)
qed

lemma users_dump_file_written:
  assumes "users_dump_file U files env path force = (Inr n, files')"
  shows "\<exists>us f. n = 0 \<and> userdb_get_all U env = Inr us \<and> toml_encode U us = Inr f \<and> files' = files(path \<mapsto> File f)"
  using assms by (auto simp: users_dump_file_def Let_def split: if_splits sum.splits)

text \<open>The documented behaviour of the TOML library: what it wrote it reads as the same table.\<close>

definition toml_ok :: "('e, 't, 'z) user_deps_scheme \<Rightarrow> bool" where
  "toml_ok U \<longleftrightarrow> (\<forall>us f. toml_encode U us = Inr f \<longrightarrow>
     (\<exists>l. toml_users U f = Inr l \<and> distinct (map fst l) \<and> map_of l = us))"

text \<open>Users are stored under their own id with hashed passwords.\<close>

definition users_stored_ok :: "(string \<rightharpoonup> user) \<Rightarrow> bool" where
  "users_stored_ok view \<longleftrightarrow>
     (\<forall>uid usr. view uid = Some usr \<longrightarrow> user_id usr = uid \<and>
        (\<forall>p. ud_passwd (userdata usr) = Some p \<longrightarrow> take 7 p = ''$argon2''))"

lemma loaded_as_stored:
  assumes "users_stored_ok view" "view uid = Some usr" "loaded_user U salt uid (userdata usr) usr'"
  shows "usr' = usr"
proof -
  have "load_passwd U (salt uid) (ud_passwd (userdata usr)) = Value (ud_passwd (userdata usr))"
    using assms(1,2) by (cases "ud_passwd (userdata usr)") (auto simp: load_passwd_def users_stored_ok_def)
  moreover have "user_id usr = uid" using assms(1,2) by (simp add: users_stored_ok_def)
  ultimately show ?thesis using assms(3) by (auto simp: loaded_user_def)
qed

lemma dump_load_users:
  assumes "lmdb_ok U stored seen" "user_codec_ok U" "toml_ok U" "users_stored_ok (users_view U stored env)"
    and "users_dump_file U files env path force = (Inr n, files')"
    and "users_load_file U salt files' env1 path = Value (Inr env2)"
  shows "users_view U stored env2 uid = users_view U stored env uid \<or>
    users_view U stored env2 uid = None \<and> (\<exists>t n e. lm_reserve U t ''user'' uid n = Inl e)"
proof -
  obtain us f where us: "userdb_get_all U env = Inr us" "toml_encode U us = Inr f" "files' = files(path \<mapsto> File f)"
    using users_dump_file_written [OF assms(5)] by blast
  obtain l where l: "toml_users U f = Inr l" "distinct (map fst l)" "map_of l = us"
    using assms(3) us(2) by (auto simp: toml_ok_def)
  have path: "files' path = Some (File f)" by (simp add: us(3))
  note view = load_file_view [OF assms(1,2) path l(1,2) assms(6)] and all = userdb_get_all_view [OF assms(1) us(1), of uid]
  show ?thesis
  proof (cases "users_view U stored env uid")
    case None
    then have "uid \<notin> fst ` set l" using all by (simp flip: l(3) add: map_of_eq_None_iff)
    then show ?thesis using view(1) None by simp
  next
    case (Some usr)
    then have "map_of l uid = Some (userdata usr)" using all by (simp add: l(3))
    then have "(uid, userdata usr) \<in> set l" by (rule map_of_SomeD)
    from view(2) [OF this] obtain usr' where usr': "loaded_user U salt uid (userdata usr) usr'"
        "users_view U stored env2 uid = Some usr' \<or>
         users_view U stored env2 uid = None \<and> (\<exists>t n e. lm_reserve U t ''user'' uid n = Inl e)"
      by (elim exE conjE)
    have "usr' = usr" by (rule loaded_as_stored [OF assms(4) Some usr'(1)])
    then show ?thesis using usr'(2) Some by simp
  qed
qed

subsection \<open>The program\<close>

lemma sum_case_iff:
  "(case r of Inl e \<Rightarrow> f e | Inr y \<Rightarrow> g y) = v \<longleftrightarrow> (\<exists>e. r = Inl e \<and> f e = v) \<or> (\<exists>y. r = Inr y \<and> g y = v)"
  by (cases r) auto

lemma main_start_iff:
  "main_start S H now config k = Value x \<longleftrightarrow>
     (\<exists>e. difluoroborane_new S H now config = Value (Inl e) \<and> x = Failed (MainStart e)) \<or>
     (\<exists>b. difluoroborane_new S H now config = Value (Inr b) \<and> k b = Value x)"
  by (cases "difluoroborane_new S H now config") (auto simp: main_start_def split: sum.splits)

lemma main_dumped:
  assumes "main S H rt now salt a = Value (Dumped n files env)"
  shows "\<exists>config b path. config_read H (config_path a) = Inr config \<and> ar_dump_users a = Some path \<and>
    difluoroborane_new S H now config = Value (Inr b) \<and> env = w_env (bs_world b) \<and>
    users_dump_file S (h_files H) env path (ar_force a) = (Inr n, files)"
  using assms
  by (auto simp: main_def main_serve_def main_start_iff bind_outcome_Value_iff case_prod_unfold sum_case_iff Let_def prod_eq_iff
    split: if_splits option.splits)

lemma main_loaded:
  assumes "main S H rt now salt a = Value (Loaded env)"
  shows "\<exists>config b path. config_read H (config_path a) = Inr config \<and> ar_load a = Some path \<and>
    difluoroborane_new S H now config = Value (Inr b) \<and>
    users_load_file S salt (h_files H) (w_env (bs_world b)) path = Value (Inr env)"
  using assms
  by (auto simp: main_def main_serve_def main_start_iff bind_outcome_Value_iff case_prod_unfold sum_case_iff Let_def
    split: if_splits option.splits)

lemma main_served:
  assumes "main S H rt now salt a = Value (Served b r)"
  shows "\<exists>config keylog. config_read H (config_path a) = Inr config \<and> keylog_path H a = Some keylog \<and>
    difluoroborane_new S H now (override_config a keylog config) = Value (Inr b) \<and> main_serve S rt b = Value (Served b r)"
  using assms
  by (auto simp: main_def main_serve_def main_start_iff bind_outcome_Value_iff case_prod_unfold sum_case_iff Let_def
    split: if_splits option.splits)

lemma load_file_cong: "files path = files' path \<Longrightarrow> users_load_file U salt files env path = users_load_file U salt files' env path"
  by (simp add: users_load_file_def)

lemma users_view_stored: "stored env ''user'' = stored env' ''user'' \<Longrightarrow> users_view U stored env = users_view U stored env'"
  by (rule ext) (simp add: users_view_def)

lemma difluoroborane_new_users:
  assumes "lmdb_ok S stored seen" "difluoroborane_new S H now config = Value (Inr b)" "h_open_env H (bc_db_path config) = Inr env0"
  shows "users_view S stored (w_env (bs_world b)) = users_view S stored env0"
  using difluoroborane_new_stored(1) [OF assms(1,2)] assms(3) by (intro users_view_stored) auto


lemma resources_new_set:
  "resources_new rs ids = Value ids' \<Longrightarrow> ids' i = Some r \<longleftrightarrow> ids i = Some r \<or> r \<in> set rs \<and> res_id r = i"
proof (induction rs arbitrary: ids)
  case (Cons r' rs)
  have n: "ids (res_id r') = None" and rec: "resources_new rs (ids(res_id r' \<mapsto> r')) = Value ids'"
    using Cons.prems by (auto split: if_splits)
  show ?case using Cons.IH [OF rec] n by auto
qed simp

lemma bffh_run_running:
  assumes "bffh_run S w spawns parse first L resolve bind signals config resources = Value (Inr r)"
  shows "first = Inr ()" "rn_sockets r = bind_sockets resolve bind (sc_listens config)"
proof -
  obtain options acts where load: "actors_load parse first (module_names.truncate config) resources = Inr (options, acts)"
      "rn_sockets r = bind_sockets resolve bind (sc_listens config)"
    using assms
    by (cases "actors_load parse first (module_names.truncate config) resources")
       (auto simp: bffh_run_def bind_outcome_Value_iff bind_result_Inr_iff split: if_splits)
  show "first = Inr ()"
    using load(1) by (cases first; cases "mqtt_options_of parse (cf_mqtt_url (module_names.truncate config))")
      (simp_all add: actors_load_def)
  show "rn_sockets r = bind_sockets resolve bind (sc_listens config)" by (rule load(2))
qed

text \<open>What the arguments do not change.\<close>

lemma override_config_keeps [simp]:
  "bc_machines (override_config a keylog config) = bc_machines config"
  "bc_db_path (override_config a keylog config) = bc_db_path config"
  "sc_listens (override_config a keylog config) = sc_listens config"
  "config_resources (override_config a keylog config) = config_resources config"
  by (simp_all add: override_config_def config_resources_def Let_def)

text \<open>C7. A server that serves was started from the configuration file: it knows exactly the machines of the file, each
  with its state in the database and in its signal; the users are those of the database, a machine with a
  stored state kept it and a new one is free; the broker answered and a socket is bound for each address.\<close>

theorem served_from_config:
  assumes "lmdb_ok S stored seen" "main S H rt now salt a = Value (Served b r)"
  shows "\<exists>config env0. config_read H (config_path a) = Inr config \<and> h_open_env H (bc_db_path config) = Inr env0 \<and>
    (\<forall>i m. bs_resources b i = Some m \<longleftrightarrow> m \<in> set (config_resources config) \<and> res_id m = i) \<and>
    coherent stored (set (config_resources config)) (bs_world b) \<and>
    users_view S stored (w_env (bs_world b)) = users_view S stored env0 \<and>
    (\<forall>i. stored (w_env (bs_world b)) ''state'' i =
       (if stored env0 ''state'' i = None \<and> i \<in> fst ` set (bc_machines config) then Some (rk_ser_state S (machine_free None))
        else stored env0 ''state'' i)) \<and>
    rt_broker rt = Inr () \<and> rn_sockets r = bind_sockets (rt_resolve rt) (rt_bind rt) (sc_listens config)"
proof -
  obtain config keylog where c: "config_read H (config_path a) = Inr config"
      "difluoroborane_new S H now (override_config a keylog config) = Value (Inr b)" "main_serve S rt b = Value (Served b r)"
    using main_served [OF assms(2)] by blast
  note new = difluoroborane_new_stored [OF assms(1) c(2)]
  obtain env0 where env0: "h_open_env H (bc_db_path config) = Inr env0"
      "stored (w_env (bs_world b)) = (stored env0)(''state'' := (\<lambda>i.
        if stored env0 ''state'' i = None \<and> i \<in> fst ` set (bc_machines config) then Some (rk_ser_state S (machine_free None))
        else stored env0 ''state'' i))"
    using new(1) by auto
  have users: "users_view S stored (w_env (bs_world b)) = users_view S stored env0"
    by (rule users_view_stored) (simp add: env0(2))
  have "bffh_run (use_roles (bs_config b) S) (bs_world b) (rt_spawns rt) (rt_mqtt_url rt) (rt_broker rt) (rt_tls rt)
      (rt_resolve rt) (rt_bind rt) (rt_signals rt) (server_config.truncate (bs_config b)) (bs_resources b) = Value (Inr r)"
    using c(3) by (auto simp: main_serve_def bind_outcome_Value_iff sum_case_iff)
  note run = bffh_run_running [OF this]
  have "sc_listens (server_config.truncate (bs_config b)) = sc_listens config"
    by (simp add: new(4) server_config.defs)
  then have "rn_sockets r = bind_sockets (rt_resolve rt) (rt_bind rt) (sc_listens config)" using run(2) by simp
  moreover have "bs_resources b i = Some m \<longleftrightarrow> m \<in> set (config_resources config) \<and> res_id m = i" for i m
    using resources_new_set [OF new(3), of i m] by simp
  ultimately show ?thesis using c(1) env0 users new(2) run(1) by (intro exI [of _ config] exI [of _ env0]) simp
qed

text \<open>The key log path, the verbosity and the log format of the configuration are overridden by the arguments, also by
  those that were not given; the log level is never looked at.\<close>

lemma configured_logging_ignored:
  "override_config a keylog (config\<lparr>sc_keylog := k, bc_log_format := f\<rparr>) = override_config a keylog config"
  by (simp add: override_config_def Let_def)

lemma log_level_ignored: "main S H rt now salt (a\<lparr>ar_log_level := level\<rparr>) = main S H rt now salt a"
proof -
  have o: "override_config (a\<lparr>ar_log_level := level\<rparr>) = override_config a" by (intro ext) (simp add: override_config_def)
  have p: "config_path (a\<lparr>ar_log_level := level\<rparr>) = config_path a" by (simp add: config_path_def)
  have k: "keylog_path H (a\<lparr>ar_log_level := level\<rparr>) = keylog_path H a" by (simp add: keylog_path_def)
  show ?thesis unfolding main_def o p k by (simp cong: option.case_cong sum.case_cong if_cong)
qed

text \<open>A dump reports that it wrote no users, whatever it wrote.\<close>

lemma dump_reports_zero: "main S H rt now salt a = Value (Dumped n files env) \<Longrightarrow> n = 0"
  using main_dumped users_dump_file_written by fastforce

subsection \<open>A run\<close>

definition hashed_line :: user_data where
  "hashed_line = \<lparr>ud_roles = [''lab/user''], ud_passwd = Some ''$argon2id$salt$secret'', ud_kv = []\<rparr>"

definition cli_server :: "(mem_env, mem_env) server" where
  "cli_server = mem_server\<lparr>toml_users := \<lambda>f. Inr [(''ada'', hashed_line)],
     toml_encode := \<lambda>us. if us = [''ada'' \<mapsto> hashed_line] then Inr [1] else Inl []\<rparr>"

definition cli_env :: mem_env where
  "cli_env = [(''user'', [(''ada'', enc_user \<lparr>user_id = ''ada'', userdata = hashed_line\<rparr>)])]"

definition cli_config :: bffh_config where
  "cli_config = bffh_config_default\<lparr>bc_machines := [(''printer'', res_desc sample_resource)]\<rparr>"

definition cli_host :: "fs \<Rightarrow> mem_env \<Rightarrow> mem_env host" where
  "cli_host files env =
     \<lparr>h_files = files, h_parse = (\<lambda>f. Inr cli_config), h_dhall = (\<lambda>c. None), h_debug = (\<lambda>c. []), h_keylog_var = None,
      h_open_env = (\<lambda>p. Inr env), h_open_audit = (\<lambda>p. True), h_lowercase = (\<lambda>s. s)\<rparr>"

definition cli_arguments :: arguments where
  "cli_arguments =
     \<lparr>ar_config = Some ''c'', ar_verbosity = 0, ar_quiet = False, ar_log_format = None, ar_log_level = None,
      ar_print_default = False, ar_check_config = False, ar_dump = False, ar_dump_users = None, ar_force = False,
      ar_load = None, ar_keylog = None\<rparr>"

definition cli_runtime :: "(nat, nat) runtime" where
  "cli_runtime =
     \<lparr>rt_spawns = (\<lambda>p args. True),
      rt_mqtt_url = (\<lambda>u. Some \<lparr>url_scheme = ''tcp'', url_host = Some ''localhost'', url_port = None, url_username = [], url_password = None\<rparr>),
      rt_broker = Inr (),
      rt_tls = \<lparr>tls_open = (\<lambda>p. True), tls_certs = (\<lambda>p. Some []), tls_read_key = (\<lambda>p. Some (Some (RSAKey []))),
                tls_lowercase = (\<lambda>s. s), tls_build = (\<lambda>v c k. True)\<rparr>,
      rt_resolve = (\<lambda>l. Some [1]), rt_bind = Some, rt_signals = True\<rparr>"

lemma cli_server_ok: "lmdb_ok cli_server mem_contents mem_contents" "user_codec_ok cli_server" "toml_ok cli_server"
  using mem_server_lmdb_ok mem_server_ok
  by (auto simp: lmdb_ok_def user_codec_ok_def toml_ok_def cli_server_def split: if_splits)

definition cli_started :: "mem_env \<Rightarrow> mem_env" where
  "cli_started env = AList.update ''state'' [(''printer'', enc_state (machine_free None))] env"

lemma cli_new:
  assumes "mem_db env ''state'' = []" "bc_machines config = bc_machines cli_config"
  shows "\<exists>b. difluoroborane_new cli_server (cli_host files env) now config = Value (Inr b) \<and>
    w_env (bs_world b) = cli_started env \<and> bs_config b = config"
  using assms
  by (simp add: difluoroborane_new_def open_databases_def statedb_open_env_def users_new_def statedb_create_def userdb_create_def raw_create_def use_roles_def
    cli_server_def mem_server_defs cli_host_def config_resources_def cli_config_def inner_new_def statedb_get_def db_get_def
    raw_get_def statedb_put_def db_put_def raw_reserve_def mem_key_ok_def aligned_adapter_def archive_state_def archived_build_def
    Let_def cli_started_def)

lemma cli_users: "mem_db (cli_started cli_env) ''user'' = mem_db cli_env ''user''"
  by (simp add: cli_started_def cli_env_def mem_db_def)

lemma cli_dump:
  "main cli_server (cli_host [''c'' \<mapsto> File []] cli_env) cli_runtime 0 salt (cli_arguments\<lparr>ar_dump_users := Some ''u''\<rparr>) =
     Value (Dumped 0 [''c'' \<mapsto> File [], ''u'' \<mapsto> File [1]] (cli_started cli_env))"
proof -
  have "mem_db cli_env ''state'' = []" by (simp add: cli_env_def mem_db_def)
  then obtain b where b: "difluoroborane_new cli_server (cli_host [''c'' \<mapsto> File []] cli_env) 0 cli_config = Value (Inr b)"
      "w_env (bs_world b) = cli_started cli_env"
    using cli_new [of cli_env cli_config "[''c'' \<mapsto> File []]" 0] by blast
  have "userdb_get_all cli_server (cli_started cli_env) = Inr [''ada'' \<mapsto> hashed_line]"
    by (simp add: userdb_get_all_def db_get_all_def raw_iter_def cli_server_def mem_server_defs cli_users)
       (simp add: cli_env_def mem_db_def aligned_adapter_def archived_build_def List.map_filter_def)
  then have "users_dump_file cli_server [''c'' \<mapsto> File []] (cli_started cli_env) ''u'' False = (Inr 0, [''c'' \<mapsto> File [], ''u'' \<mapsto> File [1]])"
    by (simp add: users_dump_file_def cli_server_def)
  then show ?thesis
    using b by (simp add: main_def config_read_def cli_arguments_def config_path_def main_start_def cli_host_def)
qed

lemma cli_load:
  "\<exists>env. main cli_server (cli_host [''c'' \<mapsto> File [], ''u'' \<mapsto> File [1]] []) cli_runtime 0 salt (cli_arguments\<lparr>ar_load := Some ''u''\<rparr>) =
     Value (Loaded env)"
proof -
  let ?files = "[''c'' \<mapsto> File [], ''u'' \<mapsto> File [1]]"
  obtain b where b: "difluoroborane_new cli_server (cli_host ?files []) 0 cli_config = Value (Inr b)"
      "w_env (bs_world b) = cli_started []"
    using cli_new [of "[]" cli_config ?files 0] by (auto simp: mem_db_def)
  have "\<exists>env. users_load_file cli_server salt ?files (cli_started []) ''u'' = Value (Inr env)"
    by (simp add: users_load_file_def cli_server_def mem_server_defs userdb_clear_txn_def db_clear_def raw_clear_def load_passwd_def
      hashed_line_def userdb_put_txn_def db_put_def raw_reserve_def mem_key_ok_def aligned_adapter_def archived_build_def)
  then show ?thesis
    using b by (auto simp: main_def config_read_def cli_arguments_def config_path_def main_start_def cli_host_def)
qed


lemma cli_serve:
  "\<exists>b r. main cli_server (cli_host [''c'' \<mapsto> File []] cli_env) cli_runtime 0 (\<lambda>_. []) cli_arguments = Value (Served b r)"
proof -
  let ?config = "override_config cli_arguments None cli_config"
  have "mem_db cli_env ''state'' = []" by (simp add: cli_env_def mem_db_def)
  then obtain b where b: "difluoroborane_new cli_server (cli_host [''c'' \<mapsto> File []] cli_env) 0 ?config = Value (Inr b)"
      "bs_config b = ?config"
    using cli_new [of cli_env ?config "[''c'' \<mapsto> File []]" 0] by auto
  have n: "resources_new (config_resources ?config) Map.empty = Value (bs_resources b)"
    by (rule difluoroborane_new_stored(3) [OF cli_server_ok(1) b(1)])
  then have res: "bs_resources b = [''printer'' \<mapsto> sample_resource]"
    by (simp add: config_resources_def cli_config_def sample_resource_def)
  have "\<exists>r. main_serve cli_server cli_runtime b = Value (Served b r)"
    by (simp add: main_serve_def b(2) bffh_run_def initiators_load_def cli_runtime_def override_config_def cli_config_def
      bffh_config_default_def config_default_def module_names.defs server_config.defs get_by_id_def res cli_arguments_def Let_def
      actors_load_def mqtt_options_of_def tls_config_new_def make_tls_acceptor_def tls_versions_def)
  then show ?thesis
    using b by (auto simp: main_def config_read_def config_path_def main_start_def cli_host_def keylog_path_def cli_arguments_def)
qed

theorem served_from_config_witness:
  "\<exists>b r. main cli_server (cli_host [''c'' \<mapsto> File []] cli_env) cli_runtime 0 (\<lambda>_. []) cli_arguments = Value (Served b r) \<and>
     bs_resources b ''printer'' = Some sample_resource \<and>
     mem_contents (w_env (bs_world b)) ''state'' ''printer'' = Some (enc_state (machine_free None))"
proof -
  obtain b r where s: "main cli_server (cli_host [''c'' \<mapsto> File []] cli_env) cli_runtime 0 (\<lambda>_. []) cli_arguments = Value (Served b r)"
    using cli_serve by blast
  have read: "config_read (cli_host [''c'' \<mapsto> File []] cli_env) (config_path cli_arguments) = Inr cli_config"
    by (simp add: config_read_def cli_host_def config_path_def cli_arguments_def)
  have env: "mem_contents cli_env ''state'' ''printer'' = None" by (simp add: mem_contents_def cli_env_def mem_db_def)
  have "config_resources cli_config = [sample_resource]" "fst ` set (bc_machines cli_config) = {''printer''}"
    "res_id sample_resource = ''printer''" "rk_ser_state cli_server = enc_state"
    "h_open_env (cli_host [''c'' \<mapsto> File []] cli_env) p = Inr cli_env" for p
    by (simp_all add: config_resources_def cli_config_def sample_resource_def cli_server_def mem_server_defs cli_host_def)
  then show ?thesis using served_from_config [OF cli_server_ok(1) s] read env s by auto
qed

end
