(* ===== verification/Machine_Rules.thy ===== *)
theory Machine_Rules
  imports Sample_Server
begin

text \<open>
  The properties of resources: who may change a machine and to what, that the
  stored state, the signal and the audit log agree in every reachable world,
  and that returning a machine through an update keeps its previous user.
\<close>

subsection \<open>The audit log follows the states\<close>

definition audit_faithful ::
  "('e, 't, 'z) server_scheme \<Rightarrow> ('e \<Rightarrow> contents) \<Rightarrow> resource set \<Rightarrow> 'e world \<Rightarrow> bool" where
  "audit_faithful S stored R w \<longleftrightarrow>
     (\<forall>r\<in>R. \<forall>lines. w_audit w = Some lines \<and> filter (\<lambda>l. al_machine l = res_id r) lines \<noteq> [] \<longrightarrow>
        map_option machine_state_fmt (machine_view S stored w r) =
        Some (al_state (last (filter (\<lambda>l. al_machine l = res_id r) lines))))"

lemma state_change_audit:
  assumes "state_change S stored w r m w'" "state_codec_ok S" "audit_faithful S stored R w"
  shows "audit_faithful S stored R w'"
  unfolding audit_faithful_def
proof (intro ballI allI impI)
  fix r' lines'
  assume r': "r' \<in> R" and l: "w_audit w' = Some lines' \<and> filter (\<lambda>l. al_machine l = res_id r') lines' \<noteq> []"
  obtain lines where old: "w_audit w = Some lines"
    and new: "lines' = lines @ [\<lparr>al_timestamp = w_now w, al_machine = res_id r, al_state = machine_state_fmt m\<rparr>]"
    using assms(1) l by (auto simp: state_change_def)
  show "map_option machine_state_fmt (machine_view S stored w' r') =
      Some (al_state (last (filter (\<lambda>l. al_machine l = res_id r') lines')))"
  proof (cases "res_id r' = res_id r")
    case True
    then have "machine_view S stored w' r' = Some m"
      using state_change_view(1) [OF assms(1,2)] by (simp add: machine_view_def)
    then show ?thesis using True new by simp
  next
    case False
    then have "machine_view S stored w' r' = machine_view S stored w r'"
      using state_change_view(2) [OF assms(1,2)] by simp
    then show ?thesis using False new old l assms(3) r' by (auto simp: audit_faithful_def)
  qed
qed

lemma users_change_audit:
  "\<lbrakk>stored env' ''state'' = stored (w_env w) ''state''; audit_faithful S stored R w\<rbrakk>
     \<Longrightarrow> audit_faithful S stored R (w\<lparr>w_env := env'\<rparr>)"
  by (simp add: audit_faithful_def machine_view_def)

lemma srv_step_audit:
  assumes "lmdb_ok S stored seen" "state_codec_ok S" "user_codec_ok S" "srv_step S R w w'"
    and "audit_faithful S stored R w"
  shows "audit_faithful S stored R w'"
  using assms(4)
proof cases
  case (update r ss new)
  then show ?thesis using try_update_effect [OF assms(1,2) update(2)] assms(2,5) state_change_audit
    by (auto split: if_splits)
next
  case (return r ss)
  then show ?thesis using give_back_effect [OF assms(1,2) return(2)] assms(2,5) state_change_audit
    by (auto split: if_splits)
next
  case (force r new)
  then show ?thesis using set_status_change [OF assms(1,2)] assms(2,5) state_change_audit
    unfolding force_set_def by blast
next
  case (put_user uid usr env')
  then have "stored env' ''state'' = stored (w_env w) ''state''"
    using userdb_put_view(2) [OF assms(1,3)] by (simp add: users_put_user_def)
  then show ?thesis using put_user assms(5) by (simp add: users_change_audit)
next
  case (del_user uid env')
  then have "stored env' ''state'' = stored (w_env w) ''state''"
    using userdb_delete_view(2) [OF assms(1)] by (simp add: users_del_user_def)
  then show ?thesis using del_user assms(5) by (simp add: users_change_audit)
next
  case (tick t)
  then show ?thesis using assms(5) by (simp add: audit_faithful_def machine_view_def)
qed

subsection \<open>Moves without the manage permission\<close>

text \<open>The moves of a user without the manage permission; the flag says whether he may write.\<close>

inductive own_move :: "user_ref \<Rightarrow> bool \<Rightarrow> status \<Rightarrow> status \<Rightarrow> bool" where
  stay: "own_move u wr s s"
| take_free: "own_move u True Free (InUse u)"
| reserve: "own_move u True Free (Reserved u)"
| take_reserved: "own_move u True (Reserved u) (InUse u)"
| unreserve: "own_move u wr (Reserved u) Free"
| bring_back: "own_move u wr (InUse u) Free"
| hand_over: "own_move u wr (InUse u) (ToCheck v)"

lemma writer_own_move: "writer_may u old new \<Longrightarrow> own_move u True old new"
  by (auto elim!: writer_may.elims intro: own_move.intros)

lemma everybody_own_move: "everybody_may u old new \<Longrightarrow> own_move u wr old new"
  by (auto elim!: everybody_may.elims intro: own_move.intros)

lemma own_move_foreign: "\<lbrakk>own_move u wr old new; status_user old = Some v; v \<noteq> u\<rbrakk> \<Longrightarrow> new = old"
  by (auto elim: own_move.cases)

subsection \<open>Properties\<close>

text \<open>C1. A status update takes effect exactly when the session's user is granted the manage
  permission of the machine, or the write permission and the writers' rules allow the move, or
  everybody may make it.  Then the stored state, the signal and one line of the audit log change
  and nothing else does; otherwise the world stays as it is.\<close>

theorem try_update_authorised:
  assumes "lmdb_ok S stored seen" "state_codec_ok S" "try_update S w r ss new = Value w'"
  shows "\<exists>old. machine_view S stored w r = Some old \<and>
    (if session_granted S stored w ss (priv_manage (md_privs (res_desc r))) \<or>
        session_granted S stored w ss (priv_write (md_privs (res_desc r))) \<and>
          writer_may (se_user ss) (ms_state old) new \<or>
        everybody_may (se_user ss) (ms_state old) new
     then state_change S stored w r \<lparr>ms_state = new, ms_previous = ms_previous old\<rparr> w' else w' = w)"
  using try_update_effect [OF assms] by (simp add: update_allowed_def get_required_privs_def)

theorem try_update_authorised_witness:
  "\<exists>w'. try_update mem_server (sample_world (machine_free None)) sample_resource \<lparr>se_user = ada\<rparr> (InUse ada) = Value w' \<and>
     state_change mem_server mem_contents (sample_world (machine_free None)) sample_resource
       \<lparr>ms_state = InUse ada, ms_previous = None\<rparr> w'"
proof -
  let ?w = "sample_world (machine_free None)"
  obtain w' where w': "try_update mem_server ?w sample_resource \<lparr>se_user = ada\<rparr> (InUse ada) = Value w'"
    using sample_try_update by blast
  have "session_granted mem_server mem_contents ?w \<lparr>se_user = ada\<rparr> (priv_write (md_privs (res_desc sample_resource)))"
    using has_perm_granted [OF mem_server_lmdb_ok] sample_has_write [of "machine_free None"]
    unfolding has_write_def get_required_privs_def by blast
  then show ?thesis
    using try_update_authorised [OF mem_server_laws(1,2) w'] w' sample_view [of "machine_free None"]
    by (auto simp: machine_free_def)
qed

text \<open>C23. Without the manage permission a user moves a machine only in his own name: he takes or
  reserves a free machine and takes his reservation if he may write, he gives back or hands over
  the machine he uses and drops his reservation, and every other request leaves the status.  In
  particular a machine in the hands of somebody else stays as it is.\<close>

theorem unprivileged_own_moves:
  assumes "lmdb_ok S stored seen" "state_codec_ok S"
    and "\<not> session_granted S stored w ss (priv_manage (md_privs (res_desc r)))"
    and "try_update S w r ss new = Value w' \<or> give_back S w r ss = Value w'"
  shows "\<exists>old new'. machine_view S stored w r = Some old \<and> machine_view S stored w' r = Some new' \<and>
    own_move (se_user ss) (session_granted S stored w ss (priv_write (md_privs (res_desc r))))
      (ms_state old) (ms_state new') \<and>
    (status_user (ms_state old) \<notin> {None, Some (se_user ss)} \<longrightarrow> w' = w)"
  using assms(4)
proof
  assume "try_update S w r ss new = Value w'"
  from try_update_effect [OF assms(1,2) this] assms(3) show ?thesis
    using state_change_view(1) [OF _ assms(2)] writer_own_move everybody_own_move
      writer.foreign_untouched everybody.foreign_untouched own_move.stay
    by (fastforce simp: update_allowed_def get_required_privs_def split: if_splits)
next
  assume "give_back S w r ss = Value w'"
  from give_back_effect [OF assms(1,2) this] show ?thesis
    using state_change_view(1) [OF _ assms(2)] own_move.stay own_move.bring_back
    by (fastforce simp: machine_free_def split: if_splits)
qed

theorem unprivileged_own_moves_witness:
  "\<exists>w'. try_update mem_server (sample_world (machine_used \<lparr>ref_id = ''bob''\<rparr> None)) sample_resource
          \<lparr>se_user = ada\<rparr> Free = Value w' \<and> w' = sample_world (machine_used \<lparr>ref_id = ''bob''\<rparr> None)"
proof -
  let ?m = "machine_used \<lparr>ref_id = ''bob''\<rparr> None"
  let ?w = "sample_world ?m"
  obtain w' where w': "try_update mem_server ?w sample_resource \<lparr>se_user = ada\<rparr> Free = Value w'"
    using sample_try_update by blast
  have "\<not> session_granted mem_server mem_contents ?w \<lparr>se_user = ada\<rparr> (priv_manage (md_privs (res_desc sample_resource)))"
    using has_perm_granted [OF mem_server_lmdb_ok] sample_has_manage [of ?m]
    unfolding has_manage_def get_required_privs_def by blast
  from unprivileged_own_moves [OF mem_server_laws(1,2) this disjI1 [OF w']] show ?thesis
    using w' sample_view [of ?m] by (auto simp: machine_used_def ada_def)
qed





text \<open>Giving a machine back records who used it; freeing it through a status update does not:
  the previous user stays the one recorded before.\<close>

theorem previous_user_recorded_by_give_back_only:
  assumes "lmdb_ok S stored seen" "state_codec_ok S"
    and "machine_view S stored w r = Some \<lparr>ms_state = InUse (se_user ss), ms_previous = prev\<rparr>"
  shows "(give_back S w r ss = Value w' \<longrightarrow>
       machine_view S stored w' r = Some \<lparr>ms_state = Free, ms_previous = Some (se_user ss)\<rparr>) \<and>
    (try_update S w r ss Free = Value w' \<longrightarrow>
       machine_view S stored w' r = Some \<lparr>ms_state = Free, ms_previous = prev\<rparr>)"
proof (intro conjI impI)
  assume "give_back S w r ss = Value w'"
  from give_back_effect [OF assms(1,2) this] assms(3) state_change_view(1) [OF _ assms(2)]
  show "machine_view S stored w' r = Some \<lparr>ms_state = Free, ms_previous = Some (se_user ss)\<rparr>"
    by (simp add: machine_free_def)
next
  assume "try_update S w r ss Free = Value w'"
  from try_update_effect [OF assms(1,2) this] assms(3) state_change_view(1) [OF _ assms(2)]
  show "machine_view S stored w' r = Some \<lparr>ms_state = Free, ms_previous = prev\<rparr>"
    by (simp add: update_allowed_def)
qed

theorem previous_user_recorded_by_give_back_only_witness:
  "\<exists>w1 w2. give_back mem_server (sample_world (machine_used ada None)) sample_resource \<lparr>se_user = ada\<rparr> = Value w1 \<and>
     machine_view mem_server mem_contents w1 sample_resource = Some (machine_free (Some ada)) \<and>
     try_update mem_server (sample_world (machine_used ada None)) sample_resource \<lparr>se_user = ada\<rparr> Free = Value w2 \<and>
     machine_view mem_server mem_contents w2 sample_resource = Some (machine_free None)"
proof -
  let ?w = "sample_world (machine_used ada None)"
  obtain w1 w2 where w: "give_back mem_server ?w sample_resource \<lparr>se_user = ada\<rparr> = Value w1"
      "try_update mem_server ?w sample_resource \<lparr>se_user = ada\<rparr> Free = Value w2"
    using sample_give_back sample_try_update by blast
  have v: "machine_view mem_server mem_contents ?w sample_resource =
      Some \<lparr>ms_state = InUse (se_user \<lparr>se_user = ada\<rparr>), ms_previous = None\<rparr>"
    using sample_view by (simp add: machine_used_def)
  show ?thesis
    using previous_user_recorded_by_give_back_only [OF mem_server_laws(1,2) v] w
    by (simp add: machine_free_def)
qed

end
