(* ===== verification/Machine_API.thy ===== *)
theory Machine_API
  imports User_API_Correct Machine_Rules
begin

text \<open>
  \<open>bffhd/capnp/machine.rs\<close> and \<open>machinesystem.rs\<close>: the machine side of the network
  interface.  A machine object is a session and a resource; describing it hands
  out the capabilities for its methods, and the methods act on the resource.

  The description is proved to show each capability and the status exactly to
  the sessions the permissions allow, and every method call is a run of the
  steps of \<open>srv_step\<close>, so the invariants of a running server hold for clients.
\<close>

subsection \<open>Describing a machine\<close>

datatype api_state =
  ApiFree | ApiBlocked | ApiDisabled | ApiInUse | ApiReserved | ApiToCheck | ApiTotakeover

record machine_reply =
  mr_id :: string
  mr_name :: string
  mr_description :: "string option"
  mr_wiki :: "string option"
  mr_category :: "string option"
  mr_urn :: string
  mr_use :: bool
  mr_manage :: bool
  mr_inuse :: bool
  mr_state :: "api_state option"

fun api_state_of :: "status \<Rightarrow> api_state" where
  "api_state_of Free = ApiFree"
| "api_state_of Disabled = ApiDisabled"
| "api_state_of (Blocked _) = ApiBlocked"
| "api_state_of (InUse _) = ApiInUse"
| "api_state_of (Reserved _) = ApiReserved"
| "api_state_of (ToCheck _) = ApiToCheck"

fun usable_by :: "user_ref \<Rightarrow> status \<Rightarrow> bool" where
  "usable_by u Free \<longleftrightarrow> True"
| "usable_by u (Reserved reserver) \<longleftrightarrow> reserver = u"
| "usable_by u _ \<longleftrightarrow> False"

definition machine_build_into ::
  "('e, 't, 'z) server_scheme \<Rightarrow> 'e world \<Rightarrow> session \<Rightarrow> resource \<Rightarrow> machine_reply outcome" where
  "machine_build_into S w ss r =
     (let usr = get_user_ref ss; desc = res_desc r in
      bind_outcome (get_state_ref w r) (\<lambda>v.
      let st = ms_state (archived_state S v) in
      bind_outcome (has_write S w ss r) (\<lambda>wr.
      bind_outcome (has_manage S w ss r) (\<lambda>mng.
      bind_outcome (has_read S w ss r) (\<lambda>rd.
        Value \<lparr>mr_id = res_id r, mr_name = md_name desc, mr_description = md_description desc,
               mr_wiki = md_wiki desc, mr_category = md_category desc,
               mr_urn = ''urn:fabaccess:resource:'' @ res_id r,
               mr_use = (wr \<and> usable_by usr st), mr_manage = mng, mr_inuse = (st = InUse usr),
               mr_state = (if rd then Some (api_state_of st) else None)\<rparr>)))))"

definition machine_optional_build ::
  "('e, 't, 'z) server_scheme \<Rightarrow> 'e world \<Rightarrow> session \<Rightarrow> resource \<Rightarrow> machine_reply option outcome" where
  "machine_optional_build S w ss r =
     bind_outcome (visible S w r ss) (\<lambda>vis.
     bind_outcome (if vis then Value True else has_read S w ss r) (\<lambda>shown.
       if shown then bind_outcome (machine_build_into S w ss r) (\<lambda>b. Value (Some b)) else Value None))"

subsection \<open>The methods of a machine\<close>

definition lift_world :: "'e world outcome \<Rightarrow> (unit, 'e) reply" where
  "lift_world m = bind_outcome m (\<lambda>w'. Value (Inr (), w'))"

definition machine_use :: "('e, 't, 'z) server_scheme \<Rightarrow> 'e world \<Rightarrow> session \<Rightarrow> resource \<Rightarrow> (unit, 'e) reply" where
  "machine_use S w ss r = lift_world (try_update S w r ss (InUse (get_user_ref ss)))"

definition machine_reserve :: "('e, 't, 'z) server_scheme \<Rightarrow> 'e world \<Rightarrow> session \<Rightarrow> resource \<Rightarrow> (unit, 'e) reply" where
  "machine_reserve S w ss r = lift_world (try_update S w r ss (Reserved (get_user_ref ss)))"

definition machine_give_back :: "('e, 't, 'z) server_scheme \<Rightarrow> 'e world \<Rightarrow> session \<Rightarrow> resource \<Rightarrow> (unit, 'e) reply" where
  "machine_give_back S w ss r = lift_world (give_back S w r ss)"

definition machine_info_extended ::
  "('e, 't, 'z) server_scheme \<Rightarrow> 'e world \<Rightarrow> session \<Rightarrow> resource
     \<Rightarrow> (user_reply option \<times> user_reply option, 'e) reply" where
  "machine_info_extended S w ss r =
     bind_outcome (get_current_user S w r) (\<lambda>cur.
     bind_outcome (user_build_optional S w ss cur) (\<lambda>c.
     bind_outcome (get_previous_user S w r) (\<lambda>prev.
     bind_outcome (user_build_optional S w ss prev) (\<lambda>p. Value (Inr (c, p), w)))))"

definition machine_force_use :: "('e, 't, 'z) server_scheme \<Rightarrow> 'e world \<Rightarrow> session \<Rightarrow> resource \<Rightarrow> (unit, 'e) reply" where
  "machine_force_use S w ss r = lift_world (force_set S w r (InUse (get_user_ref ss)))"

definition machine_force_free :: "('e, 't, 'z) server_scheme \<Rightarrow> 'e world \<Rightarrow> session \<Rightarrow> resource \<Rightarrow> (unit, 'e) reply" where
  "machine_force_free S w ss r = lift_world (force_set S w r Free)"

definition machine_block :: "('e, 't, 'z) server_scheme \<Rightarrow> 'e world \<Rightarrow> session \<Rightarrow> resource \<Rightarrow> (unit, 'e) reply" where
  "machine_block S w ss r = lift_world (force_set S w r (Blocked (get_user_ref ss)))"

definition machine_disable :: "('e, 't, 'z) server_scheme \<Rightarrow> 'e world \<Rightarrow> session \<Rightarrow> resource \<Rightarrow> (unit, 'e) reply" where
  "machine_disable S w ss r = lift_world (force_set S w r Disabled)"

definition machine_force_set_state ::
  "('e, 't, 'z) server_scheme \<Rightarrow> 'e world \<Rightarrow> session \<Rightarrow> resource \<Rightarrow> api_state \<Rightarrow> (unit, 'e) reply" where
  "machine_force_set_state S w ss r st =
     (let usr = get_user_ref ss in
      case st of
        ApiFree \<Rightarrow> lift_world (force_set S w r Free)
      | ApiBlocked \<Rightarrow> lift_world (force_set S w r (Blocked usr))
      | ApiDisabled \<Rightarrow> lift_world (force_set S w r Disabled)
      | ApiInUse \<Rightarrow> lift_world (force_set S w r (InUse usr))
      | ApiReserved \<Rightarrow> lift_world (force_set S w r (Reserved usr))
      | ApiToCheck \<Rightarrow> lift_world (force_set S w r (ToCheck usr))
      | ApiTotakeover \<Rightarrow> Value (Inl (Unimplemented ''totakeover not implemented''), w))"

datatype machine_call =
  GetPropertyList | GetReservationList
| Use | Reserve | Reserveto
| GiveBack | SendRawData
| Check | Reject
| SetProperty | RemoveProperty | ForceUse | ForceFree | ForceTransfer | Block | Disable
| ForceSetState api_state | ForceSetUser | GetAdminPropertyList | SetAdminProperty | RemoveAdminProperty

fun machine_method ::
  "('e, 't, 'z) server_scheme \<Rightarrow> 'e world \<Rightarrow> session \<Rightarrow> resource \<Rightarrow> machine_call \<Rightarrow> (unit, 'e) reply" where
  "machine_method S w ss r Use = machine_use S w ss r"
| "machine_method S w ss r Reserve = machine_reserve S w ss r"
| "machine_method S w ss r GiveBack = machine_give_back S w ss r"
| "machine_method S w ss r ForceUse = machine_force_use S w ss r"
| "machine_method S w ss r ForceFree = machine_force_free S w ss r"
| "machine_method S w ss r Block = machine_block S w ss r"
| "machine_method S w ss r Disable = machine_disable S w ss r"
| "machine_method S w ss r (ForceSetState st) = machine_force_set_state S w ss r st"
| "machine_method S w ss r _ = method_not_implemented w"

subsection \<open>The machine system\<close>

text \<open>The list is built in the order of a hash map: the reply is indexed by the id instead.\<close>

definition get_machine_list ::
  "('e, 't, 'z) server_scheme \<Rightarrow> 'e world \<Rightarrow> session \<Rightarrow> (string \<rightharpoonup> resource)
     \<Rightarrow> string \<Rightarrow> machine_reply option outcome" where
  "get_machine_list S w ss rs i =
     (case rs i of
        None \<Rightarrow> Value None
      | Some r \<Rightarrow>
          bind_outcome (visible S w r ss) (\<lambda>vis.
            if vis then bind_outcome (machine_build_into S w ss r) (\<lambda>b. Value (Some b)) else Value None))"

definition get_machine ::
  "('e, 't, 'z) server_scheme \<Rightarrow> 'e world \<Rightarrow> session \<Rightarrow> (string \<rightharpoonup> resource) \<Rightarrow> string
     \<Rightarrow> machine_reply option outcome" where
  "get_machine S w ss rs i =
     (case get_by_id rs i of None \<Rightarrow> Value None | Some r \<Rightarrow> machine_optional_build S w ss r)"

definition get_machine_urn ::
  "('e, 't, 'z) server_scheme \<Rightarrow> 'e world \<Rightarrow> session \<Rightarrow> (string \<rightharpoonup> resource) \<Rightarrow> string
     \<Rightarrow> machine_reply option outcome" where
  "get_machine_urn S w ss rs urn =
     (case get_by_urn rs urn of None \<Rightarrow> Value None | Some r \<Rightarrow> machine_optional_build S w ss r)"

subsection \<open>Lemmas\<close>

lemma get_state_ref_view:
  assumes "coherent stored R w" "r \<in> R" "get_state_ref w r = Value v"
  shows "machine_view S stored w r = Some (archived_state S v)"
  using assms by (auto simp: coherent_def get_state_ref_def machine_view_def archived_state_def split: option.splits)

lemma machine_build_effect:
  assumes "lmdb_ok S stored seen" "coherent stored R w" "r \<in> R" "machine_build_into S w ss r = Value b"
  shows "\<exists>m. machine_view S stored w r = Some m \<and>
    (mr_use b \<longleftrightarrow> session_granted S stored w ss (priv_write (md_privs (res_desc r))) \<and>
       (ms_state m = Free \<or> ms_state m = Reserved (se_user ss))) \<and>
    (mr_manage b \<longleftrightarrow> session_granted S stored w ss (priv_manage (md_privs (res_desc r)))) \<and>
    (mr_inuse b \<longleftrightarrow> ms_state m = InUse (se_user ss)) \<and>
    mr_state b = (if session_granted S stored w ss (priv_read (md_privs (res_desc r)))
                  then Some (api_state_of (ms_state m)) else None)"
proof -
  obtain v wr mng rd where v: "get_state_ref w r = Value v"
    and p: "has_write S w ss r = Value wr" "has_manage S w ss r = Value mng" "has_read S w ss r = Value rd"
    and b: "mr_use b = (wr \<and> usable_by (se_user ss) (ms_state (archived_state S v)))" "mr_manage b = mng"
      "mr_inuse b = (ms_state (archived_state S v) = InUse (se_user ss))"
      "mr_state b = (if rd then Some (api_state_of (ms_state (archived_state S v))) else None)"
    using assms(4) by (auto simp: machine_build_into_def Let_def bind_outcome_Value_iff get_user_ref_def)
  have "usable_by u st \<longleftrightarrow> st = Free \<or> st = Reserved u" for u st by (cases st) auto
  then show ?thesis
    using get_state_ref_view [OF assms(2,3) v] b p [unfolded has_write_def has_manage_def has_read_def get_required_privs_def]
      has_perm_granted [OF assms(1)] by auto
qed

lemma lift_world_iff: "lift_world m = Value (r, w') \<longleftrightarrow> r = Inr () \<and> m = Value w'"
  by (auto simp: lift_world_def bind_outcome_Value_iff)

lemmas machine_method_defs =
  machine_use_def machine_reserve_def machine_give_back_def machine_force_use_def machine_force_free_def
  machine_block_def machine_disable_def machine_force_set_state_def method_not_implemented_def

lemma machine_method_step:
  assumes "r \<in> R" "machine_method S w ss r c = Value (res, w')"
  shows "w' = w \<or> srv_step S R w w'"
  using assms
  by (cases c)
     (auto simp: machine_method_defs lift_world_iff Let_def split: api_state.splits
        intro: srv_step.update [OF assms(1)] srv_step.return [OF assms(1)] srv_step.force [OF assms(1)])

lemma visible_iff:
  assumes "lmdb_ok S stored seen" "visible S w r ss = Value b"
  shows "b \<longleftrightarrow> session_granted S stored w ss (priv_disclose (md_privs (res_desc r))) \<or>
    (\<exists>m. machine_view S stored w r = Some m \<and> status_user (ms_state m) = Some (se_user ss))"
proof -
  obtain d where d: "has_disclose S w ss r = Value d"
    and rest: "(if d then Value True else is_owned_by S w r (se_user ss)) = Value b"
    using assms(2) unfolding visible_def bind_outcome_Value_iff get_user_ref_def by blast
  have dg: "d \<longleftrightarrow> session_granted S stored w ss (priv_disclose (md_privs (res_desc r)))"
    using has_perm_granted [OF assms(1)] d by (simp add: has_disclose_def get_required_privs_def)
  show ?thesis
  proof (cases d)
    case False
    then obtain v where v: "get_state S w r = Value v"
      and b: "b = (status_user (ms_state (archived_state S v)) = Some (se_user ss))"
      using rest by (auto simp: is_owned_by_def bind_outcome_Value_iff)
    then show ?thesis using get_state_stored(2) [OF assms(1) v] dg False by simp
  qed (use rest dg in auto)
qed

subsection \<open>Clients\<close>

text \<open>The calls of clients that can change the state of the server.\<close>

inductive client_step ::
  "('e, 't, 'z) api_scheme \<Rightarrow> resource set \<Rightarrow> 'e world \<Rightarrow> 'e world \<Rightarrow> bool" for A R where
  machine: "\<lbrakk>r \<in> R; machine_method A w ss r c = Value (res, w')\<rbrakk> \<Longrightarrow> client_step A R w w'"
| pwd: "user_pwd A salt w u old_pw new_pw = Value (res, w') \<Longrightarrow> client_step A R w w'"
| admin_pwd: "admin_pwd A salt w u new_pw = Value (res, w') \<Longrightarrow> client_step A R w w'"
| add_role: "admin_add_role A w u role = Value (res, w') \<Longrightarrow> client_step A R w w'"
| remove_role: "admin_remove_role A w u role = Value (res, w') \<Longrightarrow> client_step A R w w'"
| bind: "card_bind A w u key token = Value (res, w') \<Longrightarrow> client_step A R w w'"
| unbind: "card_unbind A w u token = Value (res, w') \<Longrightarrow> client_step A R w w'"
| add_user: "users_add_user_fallible A salt w ss name pw = Value (added, w') \<Longrightarrow> client_step A R w w'"
| remove_user: "users_remove_user A w who = Value (res, w') \<Longrightarrow> client_step A R w w'"
| time: "w_now w \<le> t \<Longrightarrow> client_step A R w (w\<lparr>w_now := t\<rparr>)"

text \<open>A handler steps when each of its results leaves the world or is a step of the server.\<close>

definition stepping :: "('e, 't, 'z) server_scheme \<Rightarrow> resource set \<Rightarrow> 'e world \<Rightarrow> ('a, 'e) reply \<Rightarrow> bool" where
  "stepping S R w m \<longleftrightarrow> (\<forall>r w'. m = Value (r, w') \<longrightarrow> w' = w \<or> srv_step S R w w')"

named_theorems stepping_intros

lemma stepping_stay [stepping_intros]: "stepping S R w (Value (r, w))"
  by (simp add: stepping_def)

lemma stepping_panic [stepping_intros]: "stepping S R w Panic"
  by (simp add: stepping_def)

lemma stepping_put [stepping_intros]: "stepping S R w (put_user_reply S w uid usr)"
  unfolding stepping_def using put_user_reply_step by blast

lemma steppingD: "\<lbrakk>stepping S R w m; m = Value (r, w')\<rbrakk> \<Longrightarrow> w' = w \<or> srv_step S R w w'"
  by (simp add: stepping_def)

lemma stepping_bind [stepping_intros]: "(\<And>x. stepping S R w (f x)) \<Longrightarrow> stepping S R w (bind_outcome m f)"
  by (cases m) (auto simp: stepping_def)

lemma stepping_if [stepping_intros]:
  "\<lbrakk>stepping S R w m; stepping S R w n\<rbrakk> \<Longrightarrow> stepping S R w (if b then m else n)"
  by simp

lemma stepping_option [stepping_intros]:
  "\<lbrakk>stepping S R w m; \<And>x. stepping S R w (f x)\<rbrakk> \<Longrightarrow> stepping S R w (case y of None \<Rightarrow> m | Some x \<Rightarrow> f x)"
  by (cases y) auto

lemmas user_handler_defs =
  user_pwd_def admin_pwd_def admin_add_role_def admin_remove_role_def card_bind_def card_unbind_def

lemma user_handlers_step:
  "stepping S R w (user_pwd S salt w u old_pw new_pw)" "stepping S R w (admin_pwd S salt w u new_pw)"
  "stepping S R w (admin_add_role S w u role)" "stepping S R w (admin_remove_role S w u role)"
  by (simp_all only: user_handler_defs Let_def) (intro stepping_intros)+

lemma card_handlers_step:
  "stepping A R w (card_bind A w u key token)" "stepping A R w (card_unbind A w u token)"
  by (simp_all only: user_handler_defs Let_def) (intro stepping_intros)+

lemma remove_user_steps: "stepping S R w (users_remove_user S w who)"
  by (cases "users_del_user S (w_env w) who")
     (auto simp: users_remove_user_def stepping_def intro: srv_step.del_user)

lemma add_user_steps: "stepping S R w (users_add_user_fallible S salt w ss name pw)"
proof -
  have fill: "stepping S R w (bind_outcome (put_user_reply S w name usr) (\<lambda>(r, w').
      case r of Inl e \<Rightarrow> Value (Inl e, w')
      | Inr _ \<Rightarrow> bind_outcome (user_fill S w' ss usr) (\<lambda>b. Value (Inr (Inr b), w'))))" for usr
  proof (cases "put_user_reply S w name usr")
    case (Value p)
    obtain q w1 where p: "p = (q, w1)" by (cases p)
    have "w1 = w \<or> srv_step S R w w1" using Value p put_user_reply_step by blast
    then show ?thesis
      using Value p by (cases q) (auto simp: stepping_def bind_outcome_Value_iff)
  qed (simp add: stepping_def)
  show ?thesis unfolding users_add_user_fallible_def by (intro stepping_intros fill)
qed

lemma client_step_srv:
  assumes "client_step A R w w'"
  shows "w' = w \<or> srv_step A R w w'"
  using assms
proof cases
  case (machine r ss c res)
  then show ?thesis by (rule machine_method_step)
next
  case (remove_user who res)
  then show ?thesis by (rule steppingD [OF remove_user_steps])
next
  case (add_user salt ss name pw added)
  then show ?thesis by (rule steppingD [OF add_user_steps])
next
  case (time t)
  then show ?thesis by (auto intro: srv_step.tick)
qed (erule steppingD [rotated], rule user_handlers_step card_handlers_step)+

lemma client_steps_srv: "(client_step A R)\<^sup>*\<^sup>* w w' \<Longrightarrow> (srv_step A R)\<^sup>*\<^sup>* w w'"
  by (induction rule: rtranclp_induct) (auto dest: client_step_srv intro: rtranclp.rtrancl_into_rtrancl)

subsection \<open>Properties\<close>

text \<open>C10. In a coherent world the description of a machine hands out the use capability exactly to
  sessions that may write while the machine is free or reserved by their user, the manage
  capability exactly to managers, the in-use capability exactly to the current user, and shows the
  status exactly to readers.\<close>

theorem machine_reply_capabilities:
  assumes "lmdb_ok S stored seen" "coherent stored R w" "r \<in> R" "machine_build_into S w ss r = Value b"
  shows "\<exists>m. machine_view S stored w r = Some m \<and>
    (mr_use b \<longleftrightarrow> session_granted S stored w ss (priv_write (md_privs (res_desc r))) \<and>
       (ms_state m = Free \<or> ms_state m = Reserved (se_user ss))) \<and>
    (mr_manage b \<longleftrightarrow> session_granted S stored w ss (priv_manage (md_privs (res_desc r)))) \<and>
    (mr_inuse b \<longleftrightarrow> ms_state m = InUse (se_user ss)) \<and>
    mr_state b = (if session_granted S stored w ss (priv_read (md_privs (res_desc r)))
                  then Some (api_state_of (ms_state m)) else None)"
  using assms by (rule machine_build_effect)

theorem machine_reply_capabilities_witness:
  "\<exists>b. machine_build_into mem_server (sample_world (machine_used ada None)) \<lparr>se_user = ada\<rparr> sample_resource = Value b \<and>
     mr_inuse b \<and> \<not> mr_use b \<and> mr_state b = None"
proof -
  let ?w = "sample_world (machine_used ada None)"
  have ref: "get_state_ref ?w sample_resource = Value (archived_build (enc_state (machine_used ada None)))"
    by (simp add: get_state_ref_def sample_world_def sample_resource_def)
  have rd: "has_read mem_server ?w \<lparr>se_user = ada\<rparr> sample_resource = Value False"
    by (simp add: has_read_def sample_has_perm sample_privs_def)
  obtain b where b: "machine_build_into mem_server ?w \<lparr>se_user = ada\<rparr> sample_resource = Value b"
    by (simp add: machine_build_into_def Let_def ref rd sample_has_write sample_has_manage)
  have "\<not> session_granted mem_server mem_contents ?w \<lparr>se_user = ada\<rparr> (priv_read (md_privs (res_desc sample_resource)))"
    using has_perm_granted [OF mem_server_lmdb_ok] rd unfolding has_read_def get_required_privs_def by blast
  then show ?thesis
    using machine_reply_capabilities [OF mem_server_lmdb_ok sample_world_coherent _ b] b sample_view
    by (auto simp: machine_used_def)
qed





end
