(* ===== verification/Card.thy ===== *)
theory Card
  imports Authentication "HOL-Library.Word"
begin

text \<open>
  What the two card mechanisms \<open>bffhd/authentication/fabfire\<close> and \<open>fabfire_bin\<close> share:
  the data of an exchange with a DESFire card, which both declare alike, the errors,
  and the foreign code they call.  The crate \<open>desfire\<close> builds commands and reads
  responses: the record \<open>desfire_lib\<close> has one field per operation the code uses, each
  threading the state of the card driver; a byte is a character.  The record \<open>mechanism_data\<close> is what rsasl
  and the writer offer during one step.

  The locale \<open>card_mechanism\<close> states what a mechanism owes to the server: keys come from
  the callback, challenges are fresh, and a user is validated only after the card has
  answered the challenge with the key of that user.
\<close>

subsection \<open>Errors\<close>

datatype ('x, 'j, 'q) fabfire_error =
  ParseError | SerializationError | DeserializationError 'j | CardError 'x
| InvalidMagic string | InvalidToken string | InvalidURN string
| InvalidCredentialsError string | SessionFailed 'q

datatype mechanism_error_kind = KindParse | KindProtocol

fun fabfire_error_kind :: "('x, 'j, 'q) fabfire_error \<Rightarrow> mechanism_error_kind" where
  "fabfire_error_kind ParseError = KindParse"
| "fabfire_error_kind SerializationError = KindProtocol"
| "fabfire_error_kind (DeserializationError _) = KindParse"
| "fabfire_error_kind (CardError _) = KindProtocol"
| "fabfire_error_kind (InvalidMagic _) = KindProtocol"
| "fabfire_error_kind (InvalidToken _) = KindProtocol"
| "fabfire_error_kind (InvalidURN _) = KindProtocol"
| "fabfire_error_kind (InvalidCredentialsError _) = KindProtocol"
| "fabfire_error_kind (SessionFailed _) = KindProtocol"

text \<open>The inner errors print themselves.\<close>

fun fabfire_error_display ::
  "('x \<Rightarrow> string) \<Rightarrow> ('j \<Rightarrow> string) \<Rightarrow> ('q \<Rightarrow> string) \<Rightarrow> ('x, 'j, 'q) fabfire_error \<Rightarrow> string" where
  "fabfire_error_display fx fj fq ParseError = ''ParseError''"
| "fabfire_error_display fx fj fq SerializationError = ''SerializationError''"
| "fabfire_error_display fx fj fq (DeserializationError e) = ''DeserializationError: '' @ fj e"
| "fabfire_error_display fx fj fq (CardError e) = ''CardError: '' @ fx e"
| "fabfire_error_display fx fj fq (InvalidMagic m) = ''InvalidMagic: '' @ m"
| "fabfire_error_display fx fj fq (InvalidToken t) = ''InvalidToken: '' @ t"
| "fabfire_error_display fx fj fq (InvalidURN u) = ''InvalidURN: '' @ u"
| "fabfire_error_display fx fj fq (InvalidCredentialsError c) = ''InvalidCredentials: '' @ c"
| "fabfire_error_display fx fj fq (SessionFailed e) = ''Session: '' @ fq e"

text \<open>The errors of a step: those the code raises itself and those rsasl hands back.\<close>

datatype ('x, 'j, 'q) session_error =
  InputDataRequired | SessionIo | MechanismFailed "('x, 'j, 'q) fabfire_error" | FromSession 'q

subsection \<open>Data of an exchange\<close>

record card_info =
  ci_uid :: string
  ci_key_old :: "string option"
  ci_key_new :: "string option"

record key_info =
  ki_authid :: string
  ki_key_id :: "8 word"
  ki_key :: string

record auth_info =
  ai_rnd_a :: string
  ai_rnd_b :: string
  ai_iv :: string

datatype card_step = New | SelectApp | VerifyMagic | GetURN | GetToken | Authenticate1 | Authenticate2

text \<open>The last field is the user the SASL session has validated.\<close>

record 'd fabfire =
  ff_step :: card_step
  ff_card_info :: "card_info option"
  ff_key_info :: "key_info option"
  ff_auth_info :: "auth_info option"
  ff_app_id :: "32 word"
  ff_local_urn :: string
  ff_desfire :: 'd
  ff_validated :: "user option"

definition magic :: string where
  "magic = ''FABACCESS'' @ [CHR 0x00] @ ''DESFIRE'' @ [CHR 0x00] @ ''1.0'' @ [CHR 0x00]"

text \<open>\<open>trim_matches(char::from(0))\<close>.\<close>

definition trim_nul :: "string \<Rightarrow> string" where
  "trim_nul s = rev (dropWhile (\<lambda>c. c = CHR 0x00) (rev (dropWhile (\<lambda>c. c = CHR 0x00) s)))"

subsection \<open>Foreign code\<close>

record ('d, 'cmd, 'a, 'x) desfire_lib =
  select_application_cmd :: "'d \<Rightarrow> 32 word \<Rightarrow> ('x + 'cmd) \<times> 'd"
  read_data_chunk_cmd :: "'d \<Rightarrow> 8 word \<Rightarrow> nat \<Rightarrow> nat \<Rightarrow> ('x + 'cmd) \<times> 'd"
  authenticate_iso_aes_challenge_cmd :: "'d \<Rightarrow> 8 word \<Rightarrow> ('x + 'cmd) \<times> 'd"
  authenticate_iso_aes_response_cmd :: "'d \<Rightarrow> string \<Rightarrow> string \<Rightarrow> string \<Rightarrow> ('x + 'cmd \<times> string \<times> string) \<times> 'd"
  authenticate_iso_aes_verify :: "'d \<Rightarrow> string \<Rightarrow> string \<Rightarrow> string \<Rightarrow> string \<Rightarrow> string \<Rightarrow> ('x + unit) \<times> 'd"
  cmd_bytes :: "'cmd \<Rightarrow> 'x + string"
  max_bytes_per_transaction :: nat
  apdu_new :: "string \<Rightarrow> 'a outcome"
  apdu_check :: "'a \<Rightarrow> 'x + unit"
  apdu_body :: "'a \<Rightarrow> string option"
  apdu_show :: "'a \<Rightarrow> string"

text \<open>
  One step of a session: the key of a card through the callback, the validation
  through the callback, whether the writer takes the bytes, and the 16 random bytes.
\<close>

record 'q mechanism_data =
  md_need_key :: "string \<Rightarrow> ('q + string) outcome"
  md_validate :: "string \<Rightarrow> ('q + user option) outcome"
  md_write :: "string \<Rightarrow> bool"
  md_random :: string

text \<open>rsasl answers with what the callback of the server says.\<close>

definition mechanism_data_ok ::
  "('e, 't, 'z) api_scheme \<Rightarrow> 'e world \<Rightarrow> string \<Rightarrow> 'q mechanism_data \<Rightarrow> bool" where
  "mechanism_data_ok A w mech M \<longleftrightarrow>
     (\<forall>authid key. md_need_key M authid = Value (Inr key) \<longrightarrow> callback_card_key A w authid = Value (Inr key)) \<and>
     (\<forall>authid v. md_validate M authid = Value (Inr v) \<longrightarrow>
        callback_validate A w mech \<lparr>cx_authid = Some authid, cx_authzid = None, cx_password = None\<rparr> = Value (Inr v))"

type_synonym ('x, 'j, 'q, 'd) card_result =
  "((('x, 'j, 'q) session_error + sasl_state) \<times> 'd fabfire \<times> string) outcome"

definition step_error :: "('x, 'j, 'q) fabfire_error \<Rightarrow> 'd fabfire \<Rightarrow> ('x, 'j, 'q, 'd) card_result" where
  "step_error e self = Value (Inl (MechanismFailed e), self, [])"

text \<open>The step is set before the bytes are written; when the write fails its output is lost.\<close>

definition write_step ::
  "'q mechanism_data \<Rightarrow> 'd fabfire \<Rightarrow> card_step \<Rightarrow> string \<Rightarrow> ('x, 'j, 'q, 'd) card_result" where
  "write_step M self nxt dat =
     (if md_write M dat then Value (Inr SaslRunning, self\<lparr>ff_step := nxt\<rparr>, dat)
      else Value (Inl SessionIo, self\<lparr>ff_step := nxt\<rparr>, []))"

subsection \<open>The contract of a mechanism\<close>

text \<open>
  The answer of a card to the challenge, accepted by the driver with the key of the
  exchange.  \<open>payload\<close> is what a message of the reader carries from the card.
\<close>

definition answered ::
  "('d, 'cmd, 'a, 'x) desfire_lib \<Rightarrow> (string \<Rightarrow> string option) \<Rightarrow> string \<Rightarrow> key_info \<Rightarrow> auth_info \<Rightarrow> bool" where
  "answered L payload msg ki ai \<longleftrightarrow> (\<exists>raw apdu answer d d'.
     payload msg = Some raw \<and> apdu_new L raw = Value apdu \<and> apdu_check L apdu = Inr () \<and>
     apdu_body L apdu = Some answer \<and>
     authenticate_iso_aes_verify L d answer (ai_rnd_a ai) (ai_rnd_b ai) (ki_key ki) (ai_iv ai) = (Inr (), d'))"

inductive card_reach ::
  "('q mechanism_data \<Rightarrow> 'd fabfire \<Rightarrow> string option \<Rightarrow> ('x, 'j, 'q, 'd) card_result)
     \<Rightarrow> ('q mechanism_data \<times> string) set \<Rightarrow> 'd fabfire \<Rightarrow> 'd fabfire \<Rightarrow> bool" for stp Ms where
  start: "card_reach stp Ms s s"
| step: "\<lbrakk>card_reach stp Ms s s1; (M, msg) \<in> Ms; stp M s1 (Some msg) = Value (r, s2, out)\<rbrakk> \<Longrightarrow> card_reach stp Ms s s2"

text \<open>The contract of one step, for a result of any of the handlers.\<close>

definition honours ::
  "('d, 'cmd, 'a, 'x) desfire_lib \<Rightarrow> (string \<Rightarrow> string option) \<Rightarrow> 'q mechanism_data \<Rightarrow> 'd fabfire \<Rightarrow> string option
     \<Rightarrow> ('x, 'j, 'q, 'd) card_result \<Rightarrow> bool" where
  "honours L payload M s inp res \<longleftrightarrow> (\<forall>r s' out. res = Value (r, s', out) \<longrightarrow>
     (ff_key_info s' = ff_key_info s \<or>
        (\<exists>ki. ff_key_info s' = Some ki \<and> md_need_key M (ki_authid ki) = Value (Inr (ki_key ki)))) \<and>
     (ff_auth_info s' = ff_auth_info s \<or> (\<exists>ai. ff_auth_info s' = Some ai \<and> ai_rnd_a ai = md_random M)) \<and>
     (ff_validated s' = ff_validated s \<or>
        (\<exists>msg ki ai usr. ff_validated s' = Some usr \<and> ff_key_info s = Some ki \<and> ff_auth_info s = Some ai \<and>
           inp = Some msg \<and> answered L payload msg ki ai \<and>
           md_validate M (ki_authid ki) = Value (Inr (Some usr)) \<and> r = Inr (SaslFinished True))))"

lemma honours_Panic [intro, simp]: "honours L payload M s inp Panic"
  by (simp add: honours_def)

lemma honours_Value [simp]:
  "honours L payload M s inp (Value (r, s', out)) \<longleftrightarrow>
     (ff_key_info s' = ff_key_info s \<or>
        (\<exists>ki. ff_key_info s' = Some ki \<and> md_need_key M (ki_authid ki) = Value (Inr (ki_key ki)))) \<and>
     (ff_auth_info s' = ff_auth_info s \<or> (\<exists>ai. ff_auth_info s' = Some ai \<and> ai_rnd_a ai = md_random M)) \<and>
     (ff_validated s' = ff_validated s \<or>
        (\<exists>msg ki ai usr. ff_validated s' = Some usr \<and> ff_key_info s = Some ki \<and> ff_auth_info s = Some ai \<and>
           inp = Some msg \<and> answered L payload msg ki ai \<and> md_validate M (ki_authid ki) = Value (Inr (Some usr)) \<and> r = Inr (SaslFinished True)))"
  by (auto simp: honours_def)

lemma honours_bind: "(\<And>x. m = Value x \<Longrightarrow> honours L payload M s inp (k x)) \<Longrightarrow> honours L payload M s inp (bind_outcome m k)"
  by (cases m) simp_all

lemma honours_write_step:
  "(\<And>r out. honours L payload M s inp (Value (r, s1, out))) \<Longrightarrow> honours L payload M s inp (write_step M' s1 nxt dat)"
  by (auto simp: write_step_def)

lemma answeredI:
  "\<lbrakk>payload msg = Some raw; apdu_new L raw = Value apdu; apdu_check L apdu = Inr (); apdu_body L apdu = Some answer;
    authenticate_iso_aes_verify L d answer (ai_rnd_a ai) (ai_rnd_b ai) (ki_key ki) (ai_iv ai) = (Inr u, d')\<rbrakk>
     \<Longrightarrow> answered L payload msg ki ai"
  by (auto simp: answered_def)

lemma honours_step_error: "honours L payload M s inp (Value (Inl (MechanismFailed e), s1, [])) \<Longrightarrow> honours L payload M s inp (step_error e s1)"
  by (simp add: step_error_def)

subsection \<open>What stands behind a login\<close>

text \<open>The user with this id has this key as the key of his card.\<close>

definition card_owner ::
  "('e, 't, 'z) api_scheme \<Rightarrow> ('e \<Rightarrow> contents) \<Rightarrow> 'e world \<Rightarrow> string \<Rightarrow> string \<Rightarrow> bool" where
  "card_owner A stored w authid key \<longleftrightarrow> (\<exists>usr kv. users_view A stored (w_env w) authid = Some usr \<and>
     map_of (ud_kv (userdata usr)) ''cardkey'' = Some kv \<and> hex_decode A kv = Some key \<and> length key = 16)"

text \<open>
  A session that a card has earned: at some step of the exchange its user was stored
  under the name on the card, the key was the one stored with that name, and the card
  has answered a challenge drawn in this exchange with this key.
\<close>

definition backed_login ::
  "('e, 't, 'z) api_scheme \<Rightarrow> ('e \<Rightarrow> contents) \<Rightarrow> ('d, 'cmd, 'a, 'x) desfire_lib
     \<Rightarrow> (string \<Rightarrow> string option) \<Rightarrow> (('e world \<times> 'q mechanism_data) \<times> string) set \<Rightarrow> session \<Rightarrow> bool" where
  "backed_login A stored L payload ms ss \<longleftrightarrow> (\<exists>ki ai usr w1 M1 m1 w2 M2 m2 w3 M3 m3.
     {((w1, M1), m1), ((w2, M2), m2), ((w3, M3), m3)} \<subseteq> ms \<and> card_owner A stored w1 (ki_authid ki) (ki_key ki) \<and>
     users_view A stored (w_env w2) (ki_authid ki) = Some usr \<and> ss = session_open usr \<and>
     ai_rnd_a ai = md_random M3 \<and> answered L payload m2 ki ai)"

lemma callback_card_key_owner:
  assumes "lmdb_ok A stored seen" "callback_card_key A w authid = Value (Inr key)"
  shows "card_owner A stored w authid key"
proof -
  obtain x where g: "users_get_user A (w_env w) authid = Value x"
    using assms(2) by (auto simp: callback_card_key_def bind_outcome_Value_iff)
  then show ?thesis
    using assms(2) users_get_user_view [OF assms(1) g]
    by (auto simp: callback_card_key_def card_owner_def split: option.splits if_splits)
qed

lemma callback_validate_card:
  assumes "lmdb_ok A stored seen" "mech \<in> {''X-FABFIRE'', ''X-FABFIRE-BIN''}"
    and "callback_validate A w mech \<lparr>cx_authid = Some authid, cx_authzid = None, cx_password = None\<rparr> = Value (Inr (Some usr))"
  shows "users_view A stored (w_env w) authid = Some usr"
  using assms(2,3) users_get_user_view [OF assms(1)]
  by (force simp: callback_validate_def bind_outcome_Value_iff)

locale card_mechanism =
  fixes L :: "('d, 'cmd, 'a, 'x) desfire_lib"
    and payload :: "string \<Rightarrow> string option"
    and stp :: "'q mechanism_data \<Rightarrow> 'd fabfire \<Rightarrow> string option \<Rightarrow> ('x, 'j, 'q, 'd) card_result"
  assumes key_from_callback: "\<lbrakk>stp M s inp = Value (r, s', out); ff_key_info s' = Some ki\<rbrakk>
      \<Longrightarrow> ff_key_info s = Some ki \<or> md_need_key M (ki_authid ki) = Value (Inr (ki_key ki))"
    and challenge_fresh: "\<lbrakk>stp M s inp = Value (r, s', out); ff_auth_info s' = Some ai\<rbrakk>
      \<Longrightarrow> ff_auth_info s = Some ai \<or> ai_rnd_a ai = md_random M"
    and validated_answered: "\<lbrakk>stp M s inp = Value (r, s', out); ff_validated s' = Some usr\<rbrakk>
      \<Longrightarrow> ff_validated s = Some usr \<or> (\<exists>msg ki ai. ff_key_info s = Some ki \<and> ff_auth_info s = Some ai \<and>
            inp = Some msg \<and> answered L payload msg ki ai \<and> md_validate M (ki_authid ki) = Value (Inr (Some usr)))"
    and finished_validated: "\<lbrakk>stp M s inp = Value (r, s', out); ff_validated s' \<noteq> ff_validated s\<rbrakk>
      \<Longrightarrow> r = Inr (SaslFinished True)"
begin

lemma reach_key:
  assumes "card_reach stp Ms s s'" "ff_key_info s' = Some ki" "ff_key_info s = None"
  shows "\<exists>(M, msg)\<in>Ms. md_need_key M (ki_authid ki) = Value (Inr (ki_key ki))"
  using assms by (induction rule: card_reach.induct) (auto dest: key_from_callback)

lemma reach_challenge:
  assumes "card_reach stp Ms s s'" "ff_auth_info s' = Some ai" "ff_auth_info s = None"
  shows "\<exists>(M, msg)\<in>Ms. ai_rnd_a ai = md_random M"
  using assms by (induction rule: card_reach.induct) (auto dest: challenge_fresh)

lemma reach_validated:
  assumes "card_reach stp Ms s s'" "ff_validated s' = Some usr"
    and "ff_validated s = None" "ff_key_info s = None" "ff_auth_info s = None"
  shows "\<exists>ki ai. (\<exists>(M, msg)\<in>Ms. answered L payload msg ki ai \<and> md_validate M (ki_authid ki) = Value (Inr (Some usr))) \<and>
    (\<exists>(M, msg)\<in>Ms. md_need_key M (ki_authid ki) = Value (Inr (ki_key ki))) \<and>
    (\<exists>(M, msg)\<in>Ms. ai_rnd_a ai = md_random M)"
  using assms
proof (induction rule: card_reach.induct)
  case (step s s1 M msg r s2 out)
  then consider "ff_validated s1 = Some usr" | ki ai where "ff_key_info s1 = Some ki" "ff_auth_info s1 = Some ai"
      "answered L payload msg ki ai" "md_validate M (ki_authid ki) = Value (Inr (Some usr))"
    using validated_answered [OF step.hyps(3)] by blast
  then show ?case
    using step reach_key [OF step.hyps(1)] reach_challenge [OF step.hyps(1)] by cases blast+
qed simp

lemma sasl_reach_card:
  "sasl_reach (\<lambda>(w, M) s msg. stp M s (Some msg)) ms s s' \<Longrightarrow> card_reach stp ((\<lambda>((w, M), msg). (M, msg)) ` ms) s s'"
  by (induction rule: sasl_reach.induct) (force intro: card_reach.intros)+

lemma login_backed:
  assumes run: "auth_run A (\<lambda>(w, M) s msg. stp M s (Some msg)) ff_validated (AuthRunning s0) cs = Value (rs, self')"
    and login: "i < length rs" "rs ! i = Inr (Some (Successful dat ss caps))"
    and ok: "lmdb_ok A stored seen" "\<forall>((w, M), msg)\<in>drawn cs. mechanism_data_ok A w mech M"
      "mech \<in> {''X-FABFIRE'', ''X-FABFIRE-BIN''}"
    and fresh: "ff_validated s0 = None" "ff_key_info s0 = None" "ff_auth_info s0 = None"
  shows "backed_login A stored L payload (drawn cs) ss"
proof -
  have "is_login (rs ! i)" using login(2) by (simp add: is_login_def)
  moreover have "sasl_reach (\<lambda>(w, M) s msg. stp M s (Some msg)) (drawn cs) s0 s"
    if "AuthRunning s0 = AuthRunning s" for s using that by (auto intro: sasl_reach.start)
  ultimately obtain s1 usr d caps' where reach: "sasl_reach (\<lambda>(w, M) s msg. stp M s (Some msg)) (drawn cs) s0 s1"
      and val1: "ff_validated s1 = Some usr" "rs ! i = Inr (Some (Successful d (session_open usr) caps'))"
    using auth_run_logins [OF run login(1) _ _ order_refl] by blast
  then have usr: "ff_validated s1 = Some usr" "ss = session_open usr" using login(2) by auto
  from reach_validated [OF sasl_reach_card [OF reach] usr(1) fresh] obtain ki ai M1 M2 M3 w1 w2 w3 m1 m2 m3 where
      M: "((w1, M1), m1) \<in> drawn cs" "((w2, M2), m2) \<in> drawn cs" "((w3, M3), m3) \<in> drawn cs"
      and key: "md_need_key M1 (ki_authid ki) = Value (Inr (ki_key ki))" and ans: "answered L payload m2 ki ai"
      and val: "md_validate M2 (ki_authid ki) = Value (Inr (Some usr))" and rnd: "ai_rnd_a ai = md_random M3"
    by force
  have "mechanism_data_ok A w1 mech M1" "mechanism_data_ok A w2 mech M2" using ok(2) M by auto
  then have "callback_card_key A w1 (ki_authid ki) = Value (Inr (ki_key ki))"
    and "callback_validate A w2 mech \<lparr>cx_authid = Some (ki_authid ki), cx_authzid = None, cx_password = None\<rparr> = Value (Inr (Some usr))"
    using key val by (simp_all add: mechanism_data_ok_def)
  then have "card_owner A stored w1 (ki_authid ki) (ki_key ki)" "users_view A stored (w_env w2) (ki_authid ki) = Some usr"
    using callback_card_key_owner [OF ok(1)] callback_validate_card [OF ok(1,3)] by auto
  then show ?thesis using M rnd ans usr(2) unfolding backed_login_def by blast
qed

end

lemma honours_mechanism:
  assumes "\<And>M s inp. honours L payload M s inp (stp M s inp)"
  shows "card_mechanism L payload stp"
proof -
  have laws: "(ff_key_info s' = ff_key_info s \<or>
        (\<exists>ki. ff_key_info s' = Some ki \<and> md_need_key M (ki_authid ki) = Value (Inr (ki_key ki)))) \<and>
     (ff_auth_info s' = ff_auth_info s \<or> (\<exists>ai. ff_auth_info s' = Some ai \<and> ai_rnd_a ai = md_random M)) \<and>
     (ff_validated s' = ff_validated s \<or>
        (\<exists>msg ki ai usr. ff_validated s' = Some usr \<and> ff_key_info s = Some ki \<and> ff_auth_info s = Some ai \<and>
           inp = Some msg \<and> answered L payload msg ki ai \<and>
           md_validate M (ki_authid ki) = Value (Inr (Some usr)) \<and> r = Inr (SaslFinished True)))"
    if "stp M s inp = Value (r, s', out)" for M s inp r s' out
    using assms [of M s inp] that unfolding honours_def by blast
  show ?thesis by unfold_locales (drule laws, auto)+
qed

end
