(* ===== verification/Fabfire_Bin.thy ===== *)
theory Fabfire_Bin
  imports Card
begin

text \<open>
  \<open>bffhd/authentication/fabfire_bin/server.rs\<close>: the mechanism \<open>X-FABFIRE-BIN\<close>, by which a
  reader forwards the raw messages of a DESFire card.  The server selects the
  application, reads magic string, URN and token, looks up the key of the user the
  token names, and runs the AES challenge and response with it.  One definition per
  step of the state machine.
\<close>

subsection \<open>Steps\<close>

definition bin_new_server :: "string option \<Rightarrow> 'd \<Rightarrow> 'd fabfire" where
  "bin_new_server spacename d =
     (let space = (case spacename of Some space \<Rightarrow> space | None \<Rightarrow> ''generic'') in
      \<lparr>ff_step = New, ff_card_info = None, ff_key_info = None, ff_auth_info = None,
       ff_app_id = 0x464142, ff_local_urn = ''urn:fabaccess:lab:'' @ space,
       ff_desfire = d, ff_validated = None\<rparr>)"

text \<open>Turning a command into bytes and sending them, or failing with a serialisation error.\<close>

definition bin_send ::
  "('d, 'cmd, 'a, 'x) desfire_lib \<Rightarrow> 'q mechanism_data \<Rightarrow> 'd fabfire \<Rightarrow> card_step
     \<Rightarrow> ('x + 'cmd) \<times> 'd \<Rightarrow> ('x, 'j, 'q, 'd) card_result" where
  "bin_send L M self nxt res =
     (let self = self\<lparr>ff_desfire := snd res\<rparr> in
      case fst res of
        Inl e \<Rightarrow> step_error SerializationError self
      | Inr buf \<Rightarrow>
          (case cmd_bytes L buf of
             Inl e \<Rightarrow> step_error SerializationError self
           | Inr dat \<Rightarrow> write_step M self nxt dat))"

definition bin_new ::
  "('d, 'cmd, 'a, 'x) desfire_lib \<Rightarrow> 'q mechanism_data \<Rightarrow> 'd fabfire \<Rightarrow> string option
     \<Rightarrow> ('x, 'j, 'q, 'd) card_result" where
  "bin_new L M self inp =
     (case inp of
        None \<Rightarrow> Value (Inl InputDataRequired, self, [])
      | Some _ \<Rightarrow> bin_send L M self SelectApp (select_application_cmd L (ff_desfire self) (ff_app_id self)))"

text \<open>The response in the input, or the error when there is none.\<close>

definition bin_response ::
  "('d, 'cmd, 'a, 'x) desfire_lib \<Rightarrow> 'd fabfire \<Rightarrow> string option \<Rightarrow> ('a \<Rightarrow> ('x, 'j, 'q, 'd) card_result)
     \<Rightarrow> ('x, 'j, 'q, 'd) card_result" where
  "bin_response L self inp k =
     (case inp of
        Some dat \<Rightarrow> bind_outcome (apdu_new L dat) k
      | None \<Rightarrow> Value (Inl InputDataRequired, self, []))"

definition bin_select_app ::
  "('d, 'cmd, 'a, 'x) desfire_lib \<Rightarrow> 'q mechanism_data \<Rightarrow> 'd fabfire \<Rightarrow> string option
     \<Rightarrow> ('x, 'j, 'q, 'd) card_result" where
  "bin_select_app L M self inp =
     bin_response L self inp (\<lambda>apdu.
     case apdu_check L apdu of
       Inl e \<Rightarrow> step_error (CardError e) self
     | Inr _ \<Rightarrow> bin_send L M self VerifyMagic (read_data_chunk_cmd L (ff_desfire self) 0x01 0 (length magic)))"

definition bin_verify_magic ::
  "('d, 'cmd, 'a, 'x) desfire_lib \<Rightarrow> 'q mechanism_data \<Rightarrow> 'd fabfire \<Rightarrow> string option
     \<Rightarrow> ('x, 'j, 'q, 'd) card_result" where
  "bin_verify_magic L M self inp =
     bin_response L self inp (\<lambda>apdu.
     case apdu_check L apdu of
       Inl e \<Rightarrow> step_error ParseError self
     | Inr _ \<Rightarrow>
         (case apdu_body L apdu of
            None \<Rightarrow> step_error ParseError self
          | Some dat \<Rightarrow>
              if \<not> (from_utf8_ok dat \<and> dat = magic) then step_error ParseError self
              else bin_send L M self GetURN
                     (read_data_chunk_cmd L (ff_desfire self) 0x02 0 (length (ff_local_urn self)))))"

definition bin_get_urn ::
  "('d, 'cmd, 'a, 'x) desfire_lib \<Rightarrow> 'q mechanism_data \<Rightarrow> 'd fabfire \<Rightarrow> string option
     \<Rightarrow> ('x, 'j, 'q, 'd) card_result" where
  "bin_get_urn L M self inp =
     bin_response L self inp (\<lambda>apdu.
     case apdu_check L apdu of
       Inl e \<Rightarrow> step_error ParseError self
     | Inr _ \<Rightarrow>
         (case apdu_body L apdu of
            None \<Rightarrow> step_error ParseError self
          | Some dat \<Rightarrow>
              if \<not> from_utf8_ok dat then Panic
              else if dat \<noteq> ff_local_urn self then step_error ParseError self
              else bin_send L M self GetToken
                     (read_data_chunk_cmd L (ff_desfire self) 0x03 0 (max_bytes_per_transaction L))))"

text \<open>The key is remembered before the challenge is requested, also when that fails.\<close>

definition bin_get_token ::
  "('d, 'cmd, 'a, 'x) desfire_lib \<Rightarrow> 'q mechanism_data \<Rightarrow> 'd fabfire \<Rightarrow> string option
     \<Rightarrow> ('x, 'j, 'q, 'd) card_result" where
  "bin_get_token L M self inp =
     bin_response L self inp (\<lambda>apdu.
     case apdu_check L apdu of
       Inl e \<Rightarrow> step_error ParseError self
     | Inr _ \<Rightarrow>
         (case apdu_body L apdu of
            None \<Rightarrow> step_error ParseError self
          | Some dat \<Rightarrow>
              if \<not> from_utf8_ok dat then Panic
              else
                let authid = trim_nul dat in
                bind_outcome (md_need_key M authid) (\<lambda>r.
                case r of
                  Inl e \<Rightarrow> Value (Inl (FromSession e), self, [])
                | Inr key \<Rightarrow>
                    let ki = \<lparr>ki_authid = authid, ki_key_id = 0x01, ki_key = key\<rparr>;
                        self1 = self\<lparr>ff_key_info := Some ki\<rparr> in
                    bin_send L M self1 Authenticate1
                      (authenticate_iso_aes_challenge_cmd L (ff_desfire self1) (ki_key_id ki)))))"

definition bin_authenticate1 ::
  "('d, 'cmd, 'a, 'x) desfire_lib \<Rightarrow> 'q mechanism_data \<Rightarrow> 'd fabfire \<Rightarrow> string option
     \<Rightarrow> ('x, 'j, 'q, 'd) card_result" where
  "bin_authenticate1 L M self inp =
     bin_response L self inp (\<lambda>apdu.
     case apdu_check L apdu of
       Inl e \<Rightarrow> step_error ParseError self
     | Inr _ \<Rightarrow>
         (case apdu_body L apdu of
            None \<Rightarrow> step_error ParseError self
          | Some rnd_b_enc \<Rightarrow>
              (case ff_key_info self of
                 None \<Rightarrow> Panic
               | Some ki \<Rightarrow>
                   (case authenticate_iso_aes_response_cmd L (ff_desfire self) rnd_b_enc (ki_key ki) (md_random M) of
                      (Inl e, d) \<Rightarrow> Panic
                    | (Inr (cmd, rnd_b, iv), d) \<Rightarrow>
                        let self1 = self\<lparr>ff_desfire := d,
                              ff_auth_info := Some \<lparr>ai_rnd_a = md_random M, ai_rnd_b = rnd_b, ai_iv = iv\<rparr>\<rparr> in
                        (case cmd_bytes L cmd of
                           Inl e \<Rightarrow> step_error SerializationError self1
                         | Inr dat \<Rightarrow> write_step M self1 Authenticate2 dat)))))"

text \<open>An answer the driver does not accept ends the exchange without validating a user.\<close>

definition bin_authenticate2 ::
  "('d, 'cmd, 'a, 'x) desfire_lib \<Rightarrow> 'q mechanism_data \<Rightarrow> 'd fabfire \<Rightarrow> string option
     \<Rightarrow> ('x, 'j, 'q, 'd) card_result" where
  "bin_authenticate2 L M self inp =
     bin_response L self inp (\<lambda>apdu.
     case apdu_check L apdu of
       Inl e \<Rightarrow> step_error (InvalidCredentialsError (apdu_show L apdu)) self
     | Inr _ \<Rightarrow>
         (case apdu_body L apdu of
            None \<Rightarrow> step_error ParseError self
          | Some dat \<Rightarrow>
              (case ff_auth_info self of
                 None \<Rightarrow> step_error ParseError self
               | Some ai \<Rightarrow>
                   (case ff_key_info self of
                      None \<Rightarrow> Panic
                    | Some ki \<Rightarrow>
                        (case authenticate_iso_aes_verify L (ff_desfire self) dat (ai_rnd_a ai) (ai_rnd_b ai)
                                (ki_key ki) (ai_iv ai) of
                           (Inl e, d) \<Rightarrow> Value (Inr (SaslFinished False), self\<lparr>ff_desfire := d\<rparr>, [])
                         | (Inr _, d) \<Rightarrow>
                             let self1 = self\<lparr>ff_desfire := d\<rparr> in
                             bind_outcome (md_validate M (ki_authid ki)) (\<lambda>r.
                             case r of
                               Inl e \<Rightarrow> Value (Inl (FromSession e), self1, [])
                             | Inr None \<Rightarrow> Value (Inr (SaslFinished True), self1, [])
                             | Inr (Some usr) \<Rightarrow>
                                 Value (Inr (SaslFinished True), self1\<lparr>ff_validated := Some usr\<rparr>, [])))))))"

definition bin_step ::
  "('d, 'cmd, 'a, 'x) desfire_lib \<Rightarrow> 'q mechanism_data \<Rightarrow> 'd fabfire \<Rightarrow> string option
     \<Rightarrow> ('x, 'j, 'q, 'd) card_result" where
  "bin_step L M self inp =
     (case ff_step self of
        New \<Rightarrow> bin_new L M self inp
      | SelectApp \<Rightarrow> bin_select_app L M self inp
      | VerifyMagic \<Rightarrow> bin_verify_magic L M self inp
      | GetURN \<Rightarrow> bin_get_urn L M self inp
      | GetToken \<Rightarrow> bin_get_token L M self inp
      | Authenticate1 \<Rightarrow> bin_authenticate1 L M self inp
      | Authenticate2 \<Rightarrow> bin_authenticate2 L M self inp)"

lemmas bin_step_defs = bin_step_def bin_new_def bin_select_app_def bin_verify_magic_def bin_get_urn_def
  bin_get_token_def bin_authenticate1_def bin_authenticate2_def

subsection \<open>The contract\<close>

lemma bin_send_honours:
  "(\<And>r out. honours L Some M s inp (Value (r, s1, out))) \<Longrightarrow> honours L Some M s inp (bin_send L M' s1 nxt res)"
  by (auto simp: bin_send_def Let_def honours_def step_error_def write_step_def split: sum.splits)

lemma bin_response_honours:
  "(\<And>msg apdu. \<lbrakk>inp = Some msg; apdu_new L msg = Value apdu\<rbrakk> \<Longrightarrow> honours L Some M s inp (k apdu))
     \<Longrightarrow> honours L Some M s inp (bin_response L s inp k)"
  by (auto simp: bin_response_def split: option.splits intro!: honours_bind)

lemma bin_authenticate2_honours: "honours L Some M s inp (bin_authenticate2 L M s inp)"
  unfolding bin_authenticate2_def Let_def
  by (rule bin_response_honours)
     (auto split: sum.splits option.splits prod.splits intro!: honours_bind honours_step_error intro: answeredI)

lemma bin_authenticate1_honours: "honours L Some M s inp (bin_authenticate1 L M s inp)"
  unfolding bin_authenticate1_def Let_def
  by (rule bin_response_honours)
     (auto split: sum.splits option.splits prod.splits intro!: honours_write_step honours_step_error)

lemma bin_get_token_honours: "honours L Some M s inp (bin_get_token L M s inp)"
  unfolding bin_get_token_def Let_def
  by (rule bin_response_honours)
     (auto split: sum.splits option.splits intro!: honours_bind bin_send_honours honours_step_error)

lemma bin_early_honours:
  "honours L Some M s inp (bin_new L M s inp)" "honours L Some M s inp (bin_select_app L M s inp)"
  "honours L Some M s inp (bin_verify_magic L M s inp)" "honours L Some M s inp (bin_get_urn L M s inp)"
  unfolding bin_new_def bin_select_app_def bin_verify_magic_def bin_get_urn_def
  by (auto split: option.splits sum.splits intro!: bin_response_honours bin_send_honours honours_step_error)

lemma bin_step_honours: "honours L Some M s inp (bin_step L M s inp)"
  by (simp add: bin_step_def bin_early_honours bin_get_token_honours bin_authenticate1_honours
        bin_authenticate2_honours split: card_step.splits)

interpretation bin_card: card_mechanism L Some "bin_step L" for L
  by (rule honours_mechanism) (rule bin_step_honours)

end
