(* ===== verification/Fabfire_Json.thy ===== *)
theory Fabfire_Json
  imports Card
begin

text \<open>
  \<open>bffhd/authentication/fabfire/server.rs\<close>: the mechanism \<open>X-FABFIRE\<close>, the same exchange
  with a card as the binary mechanism, with every message wrapped in a JSON command
  for the reader.  JSON itself is foreign: \<open>json_lib\<close> reads the description of a card
  and commands and writes commands.
\<close>

subsection \<open>Commands of the reader\<close>

datatype card_command =
  Message "32 word option" "string option" "string option"
| SendPICC string
| ReadPICC string
| HaltPICC
| KeyCommand string
| ConfirmUser

record 'j json_lib =
  json_card_info :: "string \<Rightarrow> 'j + card_info"
  json_read :: "string \<Rightarrow> 'j + card_command"
  json_write :: "card_command \<Rightarrow> 'j + string"

subsection \<open>Steps\<close>

text \<open>The URN is fixed in the source.\<close>

definition json_new_server :: "'d \<Rightarrow> 'd fabfire" where
  "json_new_server d =
     \<lparr>ff_step = New, ff_card_info = None, ff_key_info = None, ff_auth_info = None,
      ff_app_id = 0x464142, ff_local_urn = ''urn:fabaccess:lab:innovisionlab'',
      ff_desfire = d, ff_validated = None\<rparr>"

text \<open>Turning a command of the card into a command of the reader and sending it.\<close>

definition json_send_bytes ::
  "'j json_lib \<Rightarrow> 'q mechanism_data \<Rightarrow> 'd fabfire \<Rightarrow> card_step \<Rightarrow> string \<Rightarrow> ('x, 'j, 'q, 'd) card_result" where
  "json_send_bytes J M self nxt buf =
     (case json_write J (SendPICC buf) of
        Inl e \<Rightarrow> step_error SerializationError self
      | Inr send_buf \<Rightarrow> write_step M self nxt send_buf)"

definition json_send ::
  "('d, 'cmd, 'a, 'x) desfire_lib \<Rightarrow> 'j json_lib \<Rightarrow> 'q mechanism_data \<Rightarrow> 'd fabfire \<Rightarrow> card_step
     \<Rightarrow> ('x + 'cmd) \<times> 'd \<Rightarrow> ('x, 'j, 'q, 'd) card_result" where
  "json_send L J M self nxt res =
     (let self = self\<lparr>ff_desfire := snd res\<rparr> in
      case fst res of
        Inl e \<Rightarrow> step_error SerializationError self
      | Inr buf \<Rightarrow>
          (case cmd_bytes L buf of
             Inl e \<Rightarrow> step_error SerializationError self
           | Inr dat \<Rightarrow> json_send_bytes J M self nxt dat))"

definition json_new ::
  "('d, 'cmd, 'a, 'x) desfire_lib \<Rightarrow> 'j json_lib \<Rightarrow> 'q mechanism_data \<Rightarrow> 'd fabfire \<Rightarrow> string option
     \<Rightarrow> ('x, 'j, 'q, 'd) card_result" where
  "json_new L J M self inp =
     (case inp of
        None \<Rightarrow> Value (Inl InputDataRequired, self, [])
      | Some cardinfo \<Rightarrow>
          (case json_card_info J cardinfo of
             Inl e \<Rightarrow> step_error (DeserializationError e) self
           | Inr ci \<Rightarrow>
               let self1 = self\<lparr>ff_card_info := Some ci\<rparr> in
               json_send L J M self1 SelectApp (select_application_cmd L (ff_desfire self1) (ff_app_id self1))))"

text \<open>The response inside the command of the reader.\<close>

definition json_response ::
  "('d, 'cmd, 'a, 'x) desfire_lib \<Rightarrow> 'j json_lib \<Rightarrow> 'd fabfire \<Rightarrow> string option
     \<Rightarrow> ('a \<Rightarrow> ('x, 'j, 'q, 'd) card_result) \<Rightarrow> ('x, 'j, 'q, 'd) card_result" where
  "json_response L J self inp k =
     (case inp of
        None \<Rightarrow> Value (Inl InputDataRequired, self, [])
      | Some buf \<Rightarrow>
          (case json_read J buf of
             Inl e \<Rightarrow> step_error (DeserializationError e) self
           | Inr (ReadPICC dat) \<Rightarrow> bind_outcome (apdu_new L dat) k
           | Inr _ \<Rightarrow> step_error ParseError self))"

definition json_select_app ::
  "('d, 'cmd, 'a, 'x) desfire_lib \<Rightarrow> 'j json_lib \<Rightarrow> 'q mechanism_data \<Rightarrow> 'd fabfire \<Rightarrow> string option
     \<Rightarrow> ('x, 'j, 'q, 'd) card_result" where
  "json_select_app L J M self inp =
     json_response L J self inp (\<lambda>apdu.
     case apdu_check L apdu of
       Inl e \<Rightarrow> step_error (CardError e) self
     | Inr _ \<Rightarrow> json_send L J M self VerifyMagic (read_data_chunk_cmd L (ff_desfire self) 0x01 0 (length magic)))"

definition json_verify_magic ::
  "('d, 'cmd, 'a, 'x) desfire_lib \<Rightarrow> 'j json_lib \<Rightarrow> 'q mechanism_data \<Rightarrow> 'd fabfire \<Rightarrow> string option
     \<Rightarrow> ('x, 'j, 'q, 'd) card_result" where
  "json_verify_magic L J M self inp =
     json_response L J self inp (\<lambda>apdu.
     case apdu_check L apdu of
       Inl e \<Rightarrow> step_error ParseError self
     | Inr _ \<Rightarrow>
         (case apdu_body L apdu of
            None \<Rightarrow> step_error ParseError self
          | Some dat \<Rightarrow>
              if \<not> (from_utf8_ok dat \<and> dat = magic) then step_error ParseError self
              else json_send L J M self GetURN
                     (read_data_chunk_cmd L (ff_desfire self) 0x02 0 (length (ff_local_urn self)))))"

definition json_get_urn ::
  "('d, 'cmd, 'a, 'x) desfire_lib \<Rightarrow> 'j json_lib \<Rightarrow> 'q mechanism_data \<Rightarrow> 'd fabfire \<Rightarrow> string option
     \<Rightarrow> ('x, 'j, 'q, 'd) card_result" where
  "json_get_urn L J M self inp =
     json_response L J self inp (\<lambda>apdu.
     case apdu_check L apdu of
       Inl e \<Rightarrow> step_error ParseError self
     | Inr _ \<Rightarrow>
         (case apdu_body L apdu of
            None \<Rightarrow> step_error ParseError self
          | Some dat \<Rightarrow>
              if \<not> from_utf8_ok dat then Panic
              else if dat \<noteq> ff_local_urn self then step_error ParseError self
              else json_send L J M self GetToken
                     (read_data_chunk_cmd L (ff_desfire self) 0x03 0 (max_bytes_per_transaction L))))"

text \<open>The key is remembered before the challenge is requested, also when that fails.\<close>

definition json_get_token ::
  "('d, 'cmd, 'a, 'x) desfire_lib \<Rightarrow> 'j json_lib \<Rightarrow> 'q mechanism_data \<Rightarrow> 'd fabfire \<Rightarrow> string option
     \<Rightarrow> ('x, 'j, 'q, 'd) card_result" where
  "json_get_token L J M self inp =
     json_response L J self inp (\<lambda>apdu.
     case apdu_check L apdu of
       Inl e \<Rightarrow> step_error ParseError self
     | Inr _ \<Rightarrow>
         (case apdu_body L apdu of
            None \<Rightarrow> step_error ParseError self
          | Some dat \<Rightarrow>
              if \<not> from_utf8_ok dat then Panic
              else
                let authid = trim_nul dat in
                bind_outcome (md_need_key M authid) (\<lambda>r.
                case r of
                  Inl e \<Rightarrow> Value (Inl (FromSession e), self, [])
                | Inr key \<Rightarrow>
                    let ki = \<lparr>ki_authid = authid, ki_key_id = 0x01, ki_key = key\<rparr>;
                        self1 = self\<lparr>ff_key_info := Some ki\<rparr> in
                    json_send L J M self1 Authenticate1
                      (authenticate_iso_aes_challenge_cmd L (ff_desfire self1) (ki_key_id ki)))))"

definition json_authenticate1 ::
  "('d, 'cmd, 'a, 'x) desfire_lib \<Rightarrow> 'j json_lib \<Rightarrow> 'q mechanism_data \<Rightarrow> 'd fabfire \<Rightarrow> string option
     \<Rightarrow> ('x, 'j, 'q, 'd) card_result" where
  "json_authenticate1 L J M self inp =
     json_response L J self inp (\<lambda>apdu.
     case apdu_check L apdu of
       Inl e \<Rightarrow> step_error ParseError self
     | Inr _ \<Rightarrow>
         (case apdu_body L apdu of
            None \<Rightarrow> step_error ParseError self
          | Some rnd_b_enc \<Rightarrow>
              (case ff_key_info self of
                 None \<Rightarrow> Panic
               | Some ki \<Rightarrow>
                   (case authenticate_iso_aes_response_cmd L (ff_desfire self) rnd_b_enc (ki_key ki) (md_random M) of
                      (Inl e, d) \<Rightarrow> Panic
                    | (Inr (cmd, rnd_b, iv), d) \<Rightarrow>
                        let self1 = self\<lparr>ff_desfire := d,
                              ff_auth_info := Some \<lparr>ai_rnd_a = md_random M, ai_rnd_b = rnd_b, ai_iv = iv\<rparr>\<rparr> in
                        (case cmd_bytes L cmd of
                           Inl e \<Rightarrow> step_error SerializationError self1
                         | Inr dat \<Rightarrow> json_send_bytes J M self1 Authenticate2 dat)))))"

text \<open>
  After the card has answered, the reader is told before the user is validated; the step
  falls back to the first half of the authentication.
\<close>

definition json_authenticate2 ::
  "('d, 'cmd, 'a, 'x) desfire_lib \<Rightarrow> 'j json_lib \<Rightarrow> 'q mechanism_data \<Rightarrow> 'd fabfire \<Rightarrow> string option
     \<Rightarrow> ('x, 'j, 'q, 'd) card_result" where
  "json_authenticate2 L J M self inp =
     json_response L J self inp (\<lambda>apdu.
     case apdu_check L apdu of
       Inl e \<Rightarrow> step_error (InvalidCredentialsError (apdu_show L apdu)) self
     | Inr _ \<Rightarrow>
         (case apdu_body L apdu of
            None \<Rightarrow> step_error ParseError self
          | Some dat \<Rightarrow>
              (case ff_auth_info self of
                 None \<Rightarrow> step_error ParseError self
               | Some ai \<Rightarrow>
                   (case ff_key_info self of
                      None \<Rightarrow> Panic
                    | Some ki \<Rightarrow>
                        (case authenticate_iso_aes_verify L (ff_desfire self) dat (ai_rnd_a ai) (ai_rnd_b ai)
                                (ki_key ki) (ai_iv ai) of
                           (Inl e, d) \<Rightarrow> Value (Inr (SaslFinished False), self\<lparr>ff_desfire := d\<rparr>, [])
                         | (Inr _, d) \<Rightarrow>
                             let self1 = self\<lparr>ff_desfire := d\<rparr> in
                             (case json_write J (Message (Some 4) None (Some [])) of
                                Inl e \<Rightarrow> step_error SerializationError self1
                              | Inr send_buf \<Rightarrow>
                                  let self2 = self1\<lparr>ff_step := Authenticate1\<rparr> in
                                  if \<not> md_write M send_buf then Value (Inl SessionIo, self2, [])
                                  else bind_outcome (md_validate M (ki_authid ki)) (\<lambda>r.
                                    case r of
                                      Inl e \<Rightarrow> Value (Inl (FromSession e), self2, send_buf)
                                    | Inr None \<Rightarrow> Value (Inr (SaslFinished True), self2, send_buf)
                                    | Inr (Some usr) \<Rightarrow>
                                        Value (Inr (SaslFinished True), self2\<lparr>ff_validated := Some usr\<rparr>, send_buf))))))))"

definition json_step ::
  "('d, 'cmd, 'a, 'x) desfire_lib \<Rightarrow> 'j json_lib \<Rightarrow> 'q mechanism_data \<Rightarrow> 'd fabfire \<Rightarrow> string option
     \<Rightarrow> ('x, 'j, 'q, 'd) card_result" where
  "json_step L J M self inp =
     (case ff_step self of
        New \<Rightarrow> json_new L J M self inp
      | SelectApp \<Rightarrow> json_select_app L J M self inp
      | VerifyMagic \<Rightarrow> json_verify_magic L J M self inp
      | GetURN \<Rightarrow> json_get_urn L J M self inp
      | GetToken \<Rightarrow> json_get_token L J M self inp
      | Authenticate1 \<Rightarrow> json_authenticate1 L J M self inp
      | Authenticate2 \<Rightarrow> json_authenticate2 L J M self inp)"

lemmas json_step_defs = json_step_def json_new_def json_select_app_def json_verify_magic_def json_get_urn_def
  json_get_token_def json_authenticate1_def json_authenticate2_def

text \<open>What a message of the reader carries from the card.\<close>

definition json_payload :: "'j json_lib \<Rightarrow> string \<Rightarrow> string option" where
  "json_payload J msg = (case json_read J msg of Inr (ReadPICC dat) \<Rightarrow> Some dat | _ \<Rightarrow> None)"

subsection \<open>The contract\<close>

lemma json_send_bytes_honours:
  "(\<And>r out. honours L (json_payload J) M s inp (Value (r, s1, out))) \<Longrightarrow> honours L (json_payload J) M s inp (json_send_bytes J M' s1 nxt dat)"
  by (auto simp: json_send_bytes_def honours_def step_error_def write_step_def split: sum.splits)

lemma json_send_honours:
  "(\<And>r out. honours L (json_payload J) M s inp (Value (r, s1, out))) \<Longrightarrow> honours L (json_payload J) M s inp (json_send L J M' s1 nxt res)"
  by (auto simp: json_send_def json_send_bytes_def Let_def honours_def step_error_def write_step_def split: sum.splits)

lemma json_response_honours:
  "(\<And>msg raw apdu. \<lbrakk>inp = Some msg; json_payload J msg = Some raw; apdu_new L raw = Value apdu\<rbrakk>
      \<Longrightarrow> honours L (json_payload J) M s inp (k apdu))
     \<Longrightarrow> honours L (json_payload J) M s inp (json_response L J s inp k)"
  by (auto simp: json_response_def json_payload_def split: option.splits sum.splits card_command.splits
        intro!: honours_bind honours_step_error)

lemma json_authenticate2_honours: "honours L (json_payload J) M s inp (json_authenticate2 L J M s inp)"
  unfolding json_authenticate2_def Let_def
  by (rule json_response_honours)
     (auto split: sum.splits option.splits prod.splits intro!: honours_bind honours_step_error intro: answeredI)

lemma json_authenticate1_honours: "honours L (json_payload J) M s inp (json_authenticate1 L J M s inp)"
  unfolding json_authenticate1_def Let_def
  by (rule json_response_honours)
     (auto split: sum.splits option.splits prod.splits intro!: json_send_bytes_honours honours_step_error)

lemma json_get_token_honours: "honours L (json_payload J) M s inp (json_get_token L J M s inp)"
  unfolding json_get_token_def Let_def
  by (rule json_response_honours)
     (auto split: sum.splits option.splits intro!: honours_bind json_send_honours honours_step_error)

lemma json_early_honours:
  "honours L (json_payload J) M s inp (json_new L J M s inp)" "honours L (json_payload J) M s inp (json_select_app L J M s inp)"
  "honours L (json_payload J) M s inp (json_verify_magic L J M s inp)" "honours L (json_payload J) M s inp (json_get_urn L J M s inp)"
  unfolding json_new_def json_select_app_def json_verify_magic_def json_get_urn_def Let_def
  by (auto split: option.splits sum.splits intro!: json_response_honours json_send_honours honours_step_error)

lemma json_step_honours: "honours L (json_payload J) M s inp (json_step L J M s inp)"
  by (simp add: json_step_def json_early_honours json_get_token_honours json_authenticate1_honours
        json_authenticate2_honours split: card_step.splits)

interpretation json_card: card_mechanism L "json_payload J" "json_step L J" for L J
  by (rule honours_mechanism) (rule json_step_honours)

end
