(* ===== verification/Card_Correct.thy ===== *)
theory Card_Correct
  imports Fabfire_Bin Fabfire_Json
begin

text \<open>
  What the card mechanisms promise when they run inside the authentication object: who
  is logged in has shown a card with the right key, which messages of a card make a
  step panic, and that a genuine card gets through.
\<close>

subsection \<open>The key is there when it is unwrapped\<close>

definition card_keyed :: "'d fabfire \<Rightarrow> bool" where
  "card_keyed s \<longleftrightarrow> (ff_step s \<in> {Authenticate1, Authenticate2} \<longrightarrow> ff_key_info s \<noteq> None)"

definition keyed_result :: "('x, 'j, 'q, 'd) card_result \<Rightarrow> bool" where
  "keyed_result res \<longleftrightarrow> (\<forall>r s out. res = Value (r, s, out) \<longrightarrow> card_keyed s)"

named_theorems keyed_intros

lemma keyed_Value [simp]: "keyed_result (Value (r, s, out)) \<longleftrightarrow> card_keyed s"
  by (auto simp: keyed_result_def)

lemma keyed_Panic [simp]: "keyed_result Panic"
  by (simp add: keyed_result_def)

lemma keyed_bind [keyed_intros]: "(\<And>x. m = Value x \<Longrightarrow> keyed_result (k x)) \<Longrightarrow> keyed_result (bind_outcome m k)"
  by (cases m) simp_all

lemma keyed_step_error [keyed_intros]: "card_keyed s \<Longrightarrow> keyed_result (step_error e s)"
  by (simp add: step_error_def)

lemma keyed_write_step [keyed_intros]:
  "(nxt \<in> {Authenticate1, Authenticate2} \<Longrightarrow> ff_key_info s \<noteq> None) \<Longrightarrow> keyed_result (write_step M s nxt dat)"
  by (auto simp: write_step_def card_keyed_def)

lemma card_keyed_desfire [simp]: "card_keyed (s\<lparr>ff_desfire := d\<rparr>) \<longleftrightarrow> card_keyed s"
  by (simp add: card_keyed_def)

lemma card_keyed_info [simp]: "card_keyed (s\<lparr>ff_key_info := Some ki\<rparr>)" "card_keyed (s\<lparr>ff_validated := v\<rparr>) \<longleftrightarrow> card_keyed s"
  "card_keyed (s\<lparr>ff_card_info := ci\<rparr>) \<longleftrightarrow> card_keyed s" "card_keyed (s\<lparr>ff_auth_info := ai\<rparr>) \<longleftrightarrow> card_keyed s"
  by (simp_all add: card_keyed_def)

lemma bin_send_keyed [keyed_intros]:
  "\<lbrakk>card_keyed s; nxt \<in> {Authenticate1, Authenticate2} \<Longrightarrow> ff_key_info s \<noteq> None\<rbrakk> \<Longrightarrow> keyed_result (bin_send L M s nxt res)"
  by (auto simp: bin_send_def Let_def split: sum.splits intro!: keyed_step_error keyed_write_step)

lemma json_send_keyed [keyed_intros]:
  "\<lbrakk>card_keyed s; nxt \<in> {Authenticate1, Authenticate2} \<Longrightarrow> ff_key_info s \<noteq> None\<rbrakk>
     \<Longrightarrow> keyed_result (json_send_bytes J M s nxt dat) \<and> keyed_result (json_send L J M s nxt res)"
  by (auto simp: json_send_def json_send_bytes_def Let_def split: sum.splits intro!: keyed_step_error keyed_write_step)

lemmas json_sends_keyed [keyed_intros] = json_send_keyed [THEN conjunct1] json_send_keyed [THEN conjunct2]

lemma bin_response_keyed [keyed_intros]:
  "\<lbrakk>card_keyed s; \<And>apdu. keyed_result (k apdu)\<rbrakk> \<Longrightarrow> keyed_result (bin_response L s inp k)"
  by (auto simp: bin_response_def split: option.splits intro: keyed_bind)

lemma json_response_keyed [keyed_intros]:
  "\<lbrakk>card_keyed s; \<And>apdu. keyed_result (k apdu)\<rbrakk> \<Longrightarrow> keyed_result (json_response L J s inp k)"
  by (auto simp: json_response_def split: option.splits sum.splits card_command.splits
        intro: keyed_bind keyed_step_error)

lemma bin_step_keyed: "card_keyed s \<Longrightarrow> keyed_result (bin_step L M s inp)"
  unfolding bin_step_def
proof (cases "ff_step s", goal_cases)
  case 6
  then show ?case
    by (auto simp: bin_authenticate1_def Let_def split: sum.splits option.splits prod.splits intro!: keyed_intros)
next
  case 7
  then show ?case
    by (auto simp: bin_authenticate2_def Let_def split: sum.splits option.splits prod.splits intro!: keyed_intros)
qed (auto simp: bin_new_def bin_select_app_def bin_verify_magic_def bin_get_urn_def bin_get_token_def Let_def
       split: sum.splits option.splits intro!: keyed_intros)

lemma json_step_keyed: "card_keyed s \<Longrightarrow> keyed_result (json_step L J M s inp)"
  unfolding json_step_def
proof (cases "ff_step s", goal_cases)
  case 6
  then show ?case
    by (auto simp: json_authenticate1_def Let_def split: sum.splits option.splits prod.splits intro!: keyed_intros)
next
  case 7
  then have "ff_key_info s \<noteq> None" by (simp add: card_keyed_def)
  with 7 show ?case
    by (auto simp: json_authenticate2_def Let_def split: sum.splits option.splits prod.splits intro!: keyed_intros)
       (auto simp: card_keyed_def)
qed (auto simp: json_new_def json_select_app_def json_verify_magic_def json_get_urn_def json_get_token_def Let_def
       split: sum.splits option.splits intro!: keyed_intros)

lemma card_reach_keyed:
  assumes "card_reach stp Ms s s'" "card_keyed s" "\<And>M s inp. card_keyed s \<Longrightarrow> keyed_result (stp M s inp)"
  shows "card_keyed s'"
  using assms by (induction rule: card_reach.induct) (simp, unfold keyed_result_def, blast)

subsection \<open>Panics\<close>

text \<open>The data of a card that a step unwraps without looking.\<close>

definition bad_card_data ::
  "('d, 'cmd, 'a, 'x) desfire_lib \<Rightarrow> 'q mechanism_data \<Rightarrow> 'd fabfire \<Rightarrow> string \<Rightarrow> bool" where
  "bad_card_data L M s raw \<longleftrightarrow> (\<exists>apdu dat. apdu_new L raw = Value apdu \<and> apdu_check L apdu = Inr () \<and>
     apdu_body L apdu = Some dat \<and>
     (ff_step s \<in> {GetURN, GetToken} \<and> \<not> from_utf8_ok dat \<or>
      ff_step s = Authenticate1 \<and> (\<exists>ki e d. ff_key_info s = Some ki \<and>
        authenticate_iso_aes_response_cmd L (ff_desfire s) dat (ki_key ki) (md_random M) = (Inl e, d))))"

text \<open>The foreign code itself does not panic.\<close>

definition foreign_total :: "('d, 'cmd, 'a, 'x) desfire_lib \<Rightarrow> 'q mechanism_data \<Rightarrow> bool" where
  "foreign_total L M \<longleftrightarrow> (\<forall>raw. apdu_new L raw \<noteq> Panic) \<and> (\<forall>a. md_need_key M a \<noteq> Panic) \<and> (\<forall>a. md_validate M a \<noteq> Panic)"

lemma bind_Panic_iff: "m \<noteq> Panic \<Longrightarrow> bind_outcome m k = Panic \<longleftrightarrow> (\<exists>x. m = Value x \<and> k x = Panic)"
  by (cases m) auto

named_theorems panic_simps

lemma case_eq_Panic [panic_simps]:
  "(case r of Inl e \<Rightarrow> f1 e | Inr x \<Rightarrow> g1 x) = Panic \<longleftrightarrow> (\<exists>e. r = Inl e \<and> f1 e = Panic) \<or> (\<exists>x. r = Inr x \<and> g1 x = Panic)"
  "(case v of None \<Rightarrow> n | Some x \<Rightarrow> g2 x) = Panic \<longleftrightarrow> v = None \<and> n = Panic \<or> (\<exists>x. v = Some x \<and> g2 x = Panic)"
  "(case q of (a, b) \<Rightarrow> g3 a b) = Panic \<longleftrightarrow> (\<exists>a b. q = (a, b) \<and> g3 a b = Panic)"
  "(if c then t else u) = Panic \<longleftrightarrow> c \<and> t = Panic \<or> \<not> c \<and> u = Panic"
  by (auto split: sum.splits option.splits prod.splits)

lemma write_step_returns [simp]: "write_step M s nxt dat \<noteq> Panic" "step_error e s \<noteq> Panic"
  by (simp_all add: write_step_def step_error_def)

lemma bin_send_returns [simp]: "bin_send L M s nxt res \<noteq> Panic"
  by (simp add: bin_send_def Let_def split: sum.splits)

lemma json_send_returns [simp]: "json_send_bytes J M s nxt dat \<noteq> Panic" "json_send L J M s nxt res \<noteq> Panic"
  by (simp_all add: json_send_def json_send_bytes_def Let_def split: sum.splits)

text \<open>What happens with a response, in either mechanism, decides about the panic.\<close>

lemma bin_response_Panic:
  "foreign_total L M \<Longrightarrow> bin_response L s (Some msg) k = Panic \<longleftrightarrow> (\<exists>apdu. apdu_new L msg = Value apdu \<and> k apdu = Panic)"
  by (auto simp: bin_response_def foreign_total_def bind_Panic_iff)

lemma json_response_Panic:
  "foreign_total L M \<Longrightarrow> json_response L J s (Some msg) k = Panic \<longleftrightarrow>
     (\<exists>raw apdu. json_payload J msg = Some raw \<and> apdu_new L raw = Value apdu \<and> k apdu = Panic)"
  by (auto simp: json_response_def json_payload_def foreign_total_def bind_Panic_iff
        split: sum.splits card_command.splits)

lemma need_key_Panic:
  "foreign_total L M \<Longrightarrow> bind_outcome (md_need_key M a) k = Panic \<longleftrightarrow> (\<exists>x. md_need_key M a = Value x \<and> k x = Panic)"
  "foreign_total L M \<Longrightarrow> bind_outcome (md_validate M a) k' = Panic \<longleftrightarrow> (\<exists>x. md_validate M a = Value x \<and> k' x = Panic)"
  by (simp_all add: foreign_total_def bind_Panic_iff)

lemma bin_step_Panic:
  assumes "foreign_total L M" "card_keyed s"
  shows "bin_step L M s (Some msg) = Panic \<longleftrightarrow> bad_card_data L M s msg"
proof (cases "ff_step s")
  case Authenticate1
  then obtain ki where "ff_key_info s = Some ki" using assms(2) by (auto simp: card_keyed_def)
  then show ?thesis using Authenticate1
    by (auto simp: bin_step_def bin_authenticate1_def bad_card_data_def bin_response_Panic [OF assms(1)] Let_def
          panic_simps)
next
  case Authenticate2
  then obtain ki where "ff_key_info s = Some ki" using assms(2) by (auto simp: card_keyed_def)
  then show ?thesis using Authenticate2
    by (auto simp: bin_step_def bin_authenticate2_def bad_card_data_def bin_response_Panic [OF assms(1)] Let_def
          need_key_Panic [OF assms(1)] panic_simps)
qed (auto simp: bin_step_def bin_new_def bin_select_app_def bin_verify_magic_def bin_get_urn_def bin_get_token_def
       bad_card_data_def bin_response_Panic [OF assms(1)] need_key_Panic [OF assms(1)] Let_def panic_simps)

lemma json_step_Panic:
  assumes "foreign_total L M" "card_keyed s"
  shows "json_step L J M s (Some msg) = Panic \<longleftrightarrow> (\<exists>raw. json_payload J msg = Some raw \<and> bad_card_data L M s raw)"
proof (cases "ff_step s")
  case Authenticate1
  then obtain ki where "ff_key_info s = Some ki" using assms(2) by (auto simp: card_keyed_def)
  then show ?thesis using Authenticate1
    by (auto simp: json_step_def json_authenticate1_def bad_card_data_def json_response_Panic [OF assms(1)] Let_def
          panic_simps)
next
  case Authenticate2
  then obtain ki where "ff_key_info s = Some ki" using assms(2) by (auto simp: card_keyed_def)
  then show ?thesis using Authenticate2
    by (auto simp: json_step_def json_authenticate2_def bad_card_data_def json_response_Panic [OF assms(1)] Let_def
          need_key_Panic [OF assms(1)] panic_simps)
qed (auto simp: json_step_def json_new_def json_select_app_def json_verify_magic_def json_get_urn_def json_get_token_def
       bad_card_data_def json_response_Panic [OF assms(1)] need_key_Panic [OF assms(1)] Let_def panic_simps)

subsection \<open>A genuine card\<close>

text \<open>The message brings this text from the card.\<close>

definition card_says :: "('d, 'cmd, 'a, 'x) desfire_lib \<Rightarrow> string \<Rightarrow> string \<Rightarrow> bool" where
  "card_says L msg dat \<longleftrightarrow> (\<exists>apdu. apdu_new L msg = Value apdu \<and> apdu_check L apdu = Inr () \<and> apdu_body L apdu = Some dat)"

text \<open>The driver can build the commands of the exchange.\<close>

definition driver_works :: "('d, 'cmd, 'a, 'x) desfire_lib \<Rightarrow> bool" where
  "driver_works L \<longleftrightarrow>
     (\<forall>d app. \<exists>cmd d'. select_application_cmd L d app = (Inr cmd, d')) \<and>
     (\<forall>d file n. \<exists>cmd d'. read_data_chunk_cmd L d file 0 n = (Inr cmd, d')) \<and>
     (\<forall>d key. \<exists>cmd d'. authenticate_iso_aes_challenge_cmd L d key = (Inr cmd, d')) \<and>
     (\<forall>cmd. \<exists>dat. cmd_bytes L cmd = Inr dat)"

text \<open>The steps of an exchange, until one does not ask for more.\<close>

fun card_run ::
  "('q mechanism_data \<Rightarrow> 'd fabfire \<Rightarrow> string option \<Rightarrow> ('x, 'j, 'q, 'd) card_result) \<Rightarrow> 'q mechanism_data \<Rightarrow> 'd fabfire
     \<Rightarrow> string list \<Rightarrow> ((('x, 'j, 'q) session_error + sasl_state) \<times> 'd fabfire) outcome" where
  "card_run stp M s [] = Value (Inr SaslRunning, s)"
| "card_run stp M s (msg # msgs) =
     bind_outcome (stp M s (Some msg)) (\<lambda>(r, s', out).
       if r = Inr SaslRunning then card_run stp M s' msgs else Value (r, s'))"

lemma bin_send_works:
  fixes L :: "('d, 'cmd, 'a, 'x) desfire_lib" and M :: "'q mechanism_data"
  assumes "driver_works L" "\<forall>dat. md_write M dat" "res = (Inr cmd, d)"
  shows "\<exists>out. (bin_send L M s nxt res :: ('x, unit, 'q, 'd) card_result) =
    Value (Inr SaslRunning, s\<lparr>ff_desfire := d, ff_step := nxt\<rparr>, out)"
proof -
  obtain dat where "cmd_bytes L cmd = Inr dat" using assms(1) unfolding driver_works_def by blast
  then show ?thesis using assms(2,3) by (simp add: bin_send_def write_step_def)
qed

lemma driver_cmds:
  assumes "driver_works L"
  shows "\<exists>cmd d'. select_application_cmd L d app = (Inr cmd, d')"
    and "\<exists>cmd d'. read_data_chunk_cmd L d file 0 n = (Inr cmd, d')"
    and "\<exists>cmd d'. authenticate_iso_aes_challenge_cmd L d key = (Inr cmd, d')"
  using assms unfolding driver_works_def by blast+

definition bin_advances ::
  "('d, 'cmd, 'a, 'x) desfire_lib \<Rightarrow> 'q mechanism_data \<Rightarrow> string \<Rightarrow> 'd fabfire \<Rightarrow> 'd fabfire \<Rightarrow> bool" where
  "bin_advances L M msg s s' \<longleftrightarrow>
     (\<exists>out. bin_step L M s (Some msg) = (Value (Inr SaslRunning, s', out) :: ('x, unit, 'q, 'd) card_result))"

lemma card_run_advances:
  "bin_advances L M msg s s' \<Longrightarrow>
     card_run (bin_step L) M s (msg # msgs) = (card_run (bin_step L) M s' msgs :: ((('x, unit, 'q) session_error + sasl_state) \<times> 'd fabfire) outcome)"
  for L :: "('d, 'cmd, 'a, 'x) desfire_lib" and M :: "'q mechanism_data"
  by (auto simp: bin_advances_def)

lemma magic_utf8 [simp]: "from_utf8_ok magic"
  by (simp add: magic_def from_utf8_ok_def)

lemma bin_steps_advance:
  assumes "driver_works L" "\<forall>dat. md_write M dat"
  shows "ff_step s = New \<Longrightarrow> \<exists>d. bin_advances L M msg s (s\<lparr>ff_desfire := d, ff_step := SelectApp\<rparr>)"
    and "\<lbrakk>ff_step s = SelectApp; card_says L msg dat\<rbrakk> \<Longrightarrow> \<exists>d. bin_advances L M msg s (s\<lparr>ff_desfire := d, ff_step := VerifyMagic\<rparr>)"
    and "\<lbrakk>ff_step s = VerifyMagic; card_says L msg magic\<rbrakk> \<Longrightarrow> \<exists>d. bin_advances L M msg s (s\<lparr>ff_desfire := d, ff_step := GetURN\<rparr>)"
    and "\<lbrakk>ff_step s = GetURN; card_says L msg (ff_local_urn s); from_utf8_ok (ff_local_urn s)\<rbrakk>
      \<Longrightarrow> \<exists>d. bin_advances L M msg s (s\<lparr>ff_desfire := d, ff_step := GetToken\<rparr>)"
    and "\<lbrakk>ff_step s = GetToken; card_says L msg token; from_utf8_ok token; md_need_key M (trim_nul token) = Value (Inr key)\<rbrakk>
      \<Longrightarrow> \<exists>d. bin_advances L M msg s (s\<lparr>ff_key_info := Some \<lparr>ki_authid = trim_nul token, ki_key_id = 1, ki_key = key\<rparr>,
             ff_desfire := d, ff_step := Authenticate1\<rparr>)"
proof -
  note send = bin_send_works [OF assms]
  show "ff_step s = New \<Longrightarrow> \<exists>d. bin_advances L M msg s (s\<lparr>ff_desfire := d, ff_step := SelectApp\<rparr>)"
    using driver_cmds(1) [OF assms(1), of "ff_desfire s" "ff_app_id s"] send
    by (auto simp: bin_advances_def bin_step_def bin_new_def) metis
  show "\<lbrakk>ff_step s = SelectApp; card_says L msg dat\<rbrakk> \<Longrightarrow> \<exists>d. bin_advances L M msg s (s\<lparr>ff_desfire := d, ff_step := VerifyMagic\<rparr>)"
    using driver_cmds(2) [OF assms(1), of "ff_desfire s" 1 "length magic"] send
    by (auto simp: bin_advances_def bin_step_def bin_select_app_def bin_response_def card_says_def) metis
  show "\<lbrakk>ff_step s = VerifyMagic; card_says L msg magic\<rbrakk> \<Longrightarrow> \<exists>d. bin_advances L M msg s (s\<lparr>ff_desfire := d, ff_step := GetURN\<rparr>)"
    using driver_cmds(2) [OF assms(1), of "ff_desfire s" 2 "length (ff_local_urn s)"] send
    by (auto simp: bin_advances_def bin_step_def bin_verify_magic_def bin_response_def card_says_def) metis
  show "\<lbrakk>ff_step s = GetURN; card_says L msg (ff_local_urn s); from_utf8_ok (ff_local_urn s)\<rbrakk>
      \<Longrightarrow> \<exists>d. bin_advances L M msg s (s\<lparr>ff_desfire := d, ff_step := GetToken\<rparr>)"
    using driver_cmds(2) [OF assms(1), of "ff_desfire s" 3 "max_bytes_per_transaction L"] send
    by (auto simp: bin_advances_def bin_step_def bin_get_urn_def bin_response_def card_says_def) metis
  show "\<lbrakk>ff_step s = GetToken; card_says L msg token; from_utf8_ok token; md_need_key M (trim_nul token) = Value (Inr key)\<rbrakk>
      \<Longrightarrow> \<exists>d. bin_advances L M msg s (s\<lparr>ff_key_info := Some \<lparr>ki_authid = trim_nul token, ki_key_id = 1, ki_key = key\<rparr>,
             ff_desfire := d, ff_step := Authenticate1\<rparr>)"
    using driver_cmds(3) [OF assms(1), of "ff_desfire s" 1] send
    by (auto simp: bin_advances_def bin_step_def bin_get_token_def bin_response_def card_says_def Let_def) metis
qed

lemma bin_honest_run:
  fixes L :: "('d, 'cmd, 'a, 'x) desfire_lib" and M :: "'q mechanism_data"
  assumes lib: "driver_works L" "\<forall>dat. md_write M dat"
    and card: "card_says L m1 x" "card_says L m2 magic" "card_says L m3 (ff_local_urn (bin_new_server space d))"
      "card_says L m4 token" "card_says L m5 rnd_b_enc" "card_says L m6 answer"
    and utf8: "from_utf8_ok (ff_local_urn (bin_new_server space d))" "from_utf8_ok token"
    and user: "md_need_key M (trim_nul token) = Value (Inr key)" "md_validate M (trim_nul token) = Value (Inr (Some usr))"
    and aes: "\<forall>d. \<exists>cmd d'. authenticate_iso_aes_response_cmd L d rnd_b_enc key (md_random M) = (Inr (cmd, rnd_b, iv), d')"
      "\<forall>d. \<exists>d'. authenticate_iso_aes_verify L d answer (md_random M) rnd_b key iv = (Inr (), d')"
  shows "\<exists>s. card_run (bin_step L) M (bin_new_server space d) [m0, m1, m2, m3, m4, m5, m6] =
      (Value (Inr (SaslFinished True), s) :: ((('x, unit, 'q) session_error + sasl_state) \<times> 'd fabfire) outcome) \<and>
    ff_validated s = Some usr"
proof -
  note adv = bin_steps_advance [OF lib]
  let ?s0 = "bin_new_server space d"
  let ?ki = "\<lparr>ki_authid = trim_nul token, ki_key_id = 1, ki_key = key\<rparr>"
  have n: "ff_step ?s0 = New" by (simp add: bin_new_server_def Let_def)
  obtain d1 where s1: "bin_advances L M m0 ?s0 (?s0\<lparr>ff_desfire := d1, ff_step := SelectApp\<rparr>)"
    using adv(1) [OF n] by blast
  obtain d2 where s2: "bin_advances L M m1 (?s0\<lparr>ff_desfire := d1, ff_step := SelectApp\<rparr>) (?s0\<lparr>ff_desfire := d2, ff_step := VerifyMagic\<rparr>)"
    using adv(2) [OF _ card(1), of "?s0\<lparr>ff_desfire := d1, ff_step := SelectApp\<rparr>"] by auto
  obtain d3 where s3: "bin_advances L M m2 (?s0\<lparr>ff_desfire := d2, ff_step := VerifyMagic\<rparr>) (?s0\<lparr>ff_desfire := d3, ff_step := GetURN\<rparr>)"
    using adv(3) [OF _ card(2), of "?s0\<lparr>ff_desfire := d2, ff_step := VerifyMagic\<rparr>"] by auto
  obtain d4 where s4: "bin_advances L M m3 (?s0\<lparr>ff_desfire := d3, ff_step := GetURN\<rparr>) (?s0\<lparr>ff_desfire := d4, ff_step := GetToken\<rparr>)"
    using adv(4) [of "?s0\<lparr>ff_desfire := d3, ff_step := GetURN\<rparr>" m3] card(3) utf8(1) by auto
  obtain d5 where s5: "bin_advances L M m4 (?s0\<lparr>ff_desfire := d4, ff_step := GetToken\<rparr>)
      (?s0\<lparr>ff_key_info := Some ?ki, ff_desfire := d5, ff_step := Authenticate1\<rparr>)"
    using adv(5) [OF _ card(4) utf8(2) user(1), of "?s0\<lparr>ff_desfire := d4, ff_step := GetToken\<rparr>"] by auto
  obtain cmd d6 where r: "authenticate_iso_aes_response_cmd L d5 rnd_b_enc key (md_random M) = (Inr (cmd, rnd_b, iv), d6)"
    using aes(1) by blast
  obtain dat where "cmd_bytes L cmd = Inr dat" using lib(1) unfolding driver_works_def by blast
  then have s6: "bin_advances L M m5 (?s0\<lparr>ff_key_info := Some ?ki, ff_desfire := d5, ff_step := Authenticate1\<rparr>)
      (?s0\<lparr>ff_key_info := Some ?ki, ff_desfire := d5, ff_step := Authenticate1, ff_desfire := d6,
         ff_auth_info := Some \<lparr>ai_rnd_a = md_random M, ai_rnd_b = rnd_b, ai_iv = iv\<rparr>, ff_step := Authenticate2\<rparr>)"
    using card(5) r lib(2)
    by (auto simp: bin_advances_def bin_step_def bin_authenticate1_def bin_response_def card_says_def write_step_def)
  obtain d7 where "authenticate_iso_aes_verify L d6 answer (md_random M) rnd_b key iv = (Inr (), d7)"
    using aes(2) by blast
  then show ?thesis
    using card(6) user(2)
    by (auto simp: card_run_advances [OF s1] card_run_advances [OF s2] card_run_advances [OF s3]
          card_run_advances [OF s4] card_run_advances [OF s5] card_run_advances [OF s6] simp del: card_run.simps)
       (auto simp: bin_step_def bin_authenticate2_def bin_response_def card_says_def)
qed

subsection \<open>A sample card\<close>

text \<open>A card whose messages are their own content and that proves its key by repeating it.\<close>

definition toy_card :: "(unit, string, string, unit) desfire_lib" where
  "toy_card =
     \<lparr>select_application_cmd = (\<lambda>d a. (Inr ''select'', ())), read_data_chunk_cmd = (\<lambda>d f off n. (Inr ''read'', ())),
      authenticate_iso_aes_challenge_cmd = (\<lambda>d k. (Inr ''challenge'', ())),
      authenticate_iso_aes_response_cmd = (\<lambda>d b k a. (if b = [] then Inl () else Inr (''response'', b, []), ())),
      authenticate_iso_aes_verify = (\<lambda>d ans a b k iv. (if ans = k @ a @ b then Inr () else Inl (), ())),
      cmd_bytes = Inr, max_bytes_per_transaction = 47, apdu_new = Value, apdu_check = (\<lambda>_. Inr ()),
      apdu_body = Some, apdu_show = (\<lambda>a. a)\<rparr>"

definition card_user :: user where
  "card_user = eve_user\<lparr>userdata := (userdata eve_user)\<lparr>ud_kv := [(''cardkey'', ''41414141414141414141414141414141'')]\<rparr>\<rparr>"

definition card_world :: "mem_env world" where
  "card_world = eve_world\<lparr>w_env := [(''user'', [(''eve'', enc_user card_user)])]\<rparr>"

definition card_md :: "string \<Rightarrow> unit mechanism_data" where
  "card_md mech =
     \<lparr>md_need_key = (\<lambda>a. bind_outcome (callback_card_key mem_api card_world a) (\<lambda>r.
        Value (map_sum (\<lambda>_. ()) (\<lambda>k. k) r))),
      md_validate = (\<lambda>a. bind_outcome (callback_validate mem_api card_world mech
          \<lparr>cx_authid = Some a, cx_authzid = None, cx_password = None\<rparr>) (\<lambda>r. Value (map_sum (\<lambda>_. ()) (\<lambda>k. k) r))),
      md_write = (\<lambda>_. True), md_random = ''nonce''\<rparr>"

lemma map_sum_unit_Inr: "map_sum f (\<lambda>k. k) r = Inr k \<longleftrightarrow> r = Inr k"
  by (cases r) auto

lemma card_md_ok: "mechanism_data_ok mem_api card_world mech (card_md mech)"
  by (auto simp: mechanism_data_ok_def card_md_def bind_outcome_Value_iff map_sum_unit_Inr)

lemma card_get_eve: "users_get_user mem_api (w_env card_world) ''eve'' = Value (Some card_user)"
  by (simp add: users_get_user_def userdb_get_def db_get_def raw_get_def mem_api_defs card_world_def mem_db_def
        aligned_adapter_def archived_build_def)

lemma letter_A: "char_of (65 :: nat) = CHR ''A''"
  by code_simp

lemma card_md_eve:
  "md_need_key (card_md mech) ''eve'' = Value (Inr ''AAAAAAAAAAAAAAAA'')"
  "mech \<in> {''X-FABFIRE'', ''X-FABFIRE-BIN''} \<Longrightarrow> md_validate (card_md mech) ''eve'' = Value (Inr (Some card_user))"
proof -
  have "hex_decode mem_api ''41414141414141414141414141414141'' = Some ''AAAAAAAAAAAAAAAA''"
    by (simp add: mem_api_defs digit_hex_def letter_A)
  then show "md_need_key (card_md mech) ''eve'' = Value (Inr ''AAAAAAAAAAAAAAAA'')"
    by (simp add: card_md_def callback_card_key_def card_get_eve) (simp add: card_user_def)
  show "mech \<in> {''X-FABFIRE'', ''X-FABFIRE-BIN''} \<Longrightarrow> md_validate (card_md mech) ''eve'' = Value (Inr (Some card_user))"
    by (auto simp: card_md_def callback_validate_def card_get_eve)
qed

lemma toy_says: "card_says toy_card msg msg"
  by (simp add: card_says_def toy_card_def)

lemma toy_works: "driver_works toy_card" "\<forall>dat. md_write (card_md mech) dat"
  by (simp_all add: driver_works_def toy_card_def card_md_def)

lemma mem_get_user_returns: "\<exists>x. users_get_user mem_api env uid = Value x"
  by (cases "map_of (mem_db env ''user'') uid")
     (simp_all add: users_get_user_def userdb_get_def db_get_def raw_get_def mem_api_defs aligned_adapter_def
        archived_build_def)

lemma toy_total: "foreign_total toy_card (card_md mech)"
proof -
  have "callback_card_key mem_api w a \<noteq> Panic" for w a
    using mem_get_user_returns [of "w_env w" a] by (auto simp: callback_card_key_def panic_simps)
  moreover have "callback_validate mem_api w mech \<lparr>cx_authid = Some a, cx_authzid = None, cx_password = None\<rparr> \<noteq> Panic" for w a
    using mem_get_user_returns [of "w_env w" a] by (auto simp: callback_validate_def)
  ultimately show ?thesis
    by (simp add: foreign_total_def toy_card_def card_md_def bind_Panic_iff)
qed

lemma card_has_perm: "has_perm mem_api card_world \<lparr>se_user = \<lparr>ref_id = ''eve''\<rparr>\<rparr> perm = Value False"
  by (simp add: has_perm_def card_get_eve get_username_def)
     (simp add: card_user_def eve_user_def user_data_default_def is_permitted_def)

lemma card_session: "\<exists>caps. api_session_build mem_api card_world (session_open card_user) = Value caps"
  by (simp add: api_session_build_def session_open_def user_ref_new_def card_user_def eve_user_def card_has_perm)

lemma new_server_fresh:
  "ff_validated (bin_new_server space d) = None" "ff_key_info (bin_new_server space d) = None"
  "ff_auth_info (bin_new_server space d) = None"
  "ff_validated (json_new_server d) = None" "ff_key_info (json_new_server d) = None"
  "ff_auth_info (json_new_server d) = None"
  by (simp_all add: bin_new_server_def json_new_server_def Let_def)

lemma new_server_keyed: "card_keyed (bin_new_server space d)" "card_keyed (json_new_server d)"
  by (simp_all add: card_keyed_def bin_new_server_def json_new_server_def Let_def)

lemma bin_reach_keyed: "card_reach (bin_step L) Ms (bin_new_server space d) s \<Longrightarrow> card_keyed s"
  by (erule card_reach_keyed [OF _ new_server_keyed(1)]) (rule bin_step_keyed)

lemma json_reach_keyed: "card_reach (json_step L J) Ms (json_new_server d) s \<Longrightarrow> card_keyed s"
  by (erule card_reach_keyed [OF _ new_server_keyed(2)]) (rule json_step_keyed)

abbreviation toy_step ::
  "unit mechanism_data \<Rightarrow> unit fabfire \<Rightarrow> string option \<Rightarrow> (unit, unit, unit, unit) card_result" where
  "toy_step \<equiv> bin_step toy_card"

lemma toy_reach_step:
  "\<lbrakk>card_reach toy_step Ms s0 s1; bin_advances toy_card M m s1 s2; (M, m) \<in> Ms\<rbrakk> \<Longrightarrow> card_reach toy_step Ms s0 s2"
  unfolding bin_advances_def by (blast intro: card_reach.step)

subsection \<open>Properties\<close>

text \<open>C5. Whoever logs in with a card, through either card mechanism and whatever messages the
  client sends, has shown a card with the right key: the session belongs to the user stored
  under the name the card gave, the key was the card key stored with that name, and a message
  of the exchange answered a challenge the server drew in this exchange with that key.\<close>

theorem card_login_backed:
  assumes "lmdb_ok A stored seen" "\<forall>((w, M), msg)\<in>drawn cs. mechanism_data_ok A w mech M"
    and "i < length rs" "rs ! i = Inr (Some (Successful dat ss caps))"
  shows "(mech = ''X-FABFIRE-BIN'' \<and> auth_run A (\<lambda>(w, M) s msg. bin_step L M s (Some msg)) ff_validated
            (AuthRunning (bin_new_server space d)) cs = Value (rs, self')
          \<longrightarrow> backed_login A stored L Some (drawn cs) ss) \<and>
    (mech = ''X-FABFIRE'' \<and> auth_run A (\<lambda>(w, M) s msg. json_step L J M s (Some msg)) ff_validated
            (AuthRunning (json_new_server d)) cs = Value (rs, self')
          \<longrightarrow> backed_login A stored L (json_payload J) (drawn cs) ss)"
proof (intro conjI impI; elim conjE)
  assume "mech = ''X-FABFIRE-BIN''" "auth_run A (\<lambda>(w, M) s msg. bin_step L M s (Some msg)) ff_validated
            (AuthRunning (bin_new_server space d)) cs = Value (rs, self')"
  from bin_card.login_backed [OF this(2) assms(3,4,1,2) _ new_server_fresh(1-3)] this(1)
  show "backed_login A stored L Some (drawn cs) ss" by simp
next
  assume "mech = ''X-FABFIRE''" "auth_run A (\<lambda>(w, M) s msg. json_step L J M s (Some msg)) ff_validated
            (AuthRunning (json_new_server d)) cs = Value (rs, self')"
  from json_card.login_backed [OF this(2) assms(3,4,1,2) _ new_server_fresh(4-6)] this(1)
  show "backed_login A stored L (json_payload J) (drawn cs) ss" by simp
qed

theorem card_login_backed_witness:
  "backed_login mem_api mem_contents toy_card Some
     (drawn (map (\<lambda>msg. Step card_world (card_world, card_md ''X-FABFIRE-BIN'') (Some msg))
        [''hello'', ''ok'', magic, ''urn:fabaccess:lab:lab'', ''eve'', ''b'', ''AAAAAAAAAAAAAAAAnonceb'']))
     (session_open card_user)"
proof -
  let ?msgs = "[''hello'', ''ok'', magic, ''urn:fabaccess:lab:lab'', ''eve'', ''b'', ''AAAAAAAAAAAAAAAAnonceb'']"
  let ?cs = "map (\<lambda>msg. Step card_world (card_world, card_md ''X-FABFIRE-BIN'') (Some msg)) ?msgs"
  let ?stp = "(\<lambda>(w, M) s msg. bin_step toy_card M s (Some msg)) ::
    (mem_env world \<times> unit mechanism_data) \<Rightarrow> (unit fabfire, (unit, unit, unit) session_error) sasl_step"
  obtain caps where caps: "api_session_build mem_api card_world (session_open card_user) = Value caps"
    using card_session by blast
  have "trim_nul ''eve'' = ''eve''" by (simp add: trim_nul_def)
  then have run: "\<exists>rs self'. auth_run mem_api ?stp ff_validated (AuthRunning (bin_new_server (Some ''lab'') ())) ?cs = Value (rs, self') \<and>
      length rs = 7 \<and> rs ! 6 = Inr (Some (Successful (Some []) (session_open card_user) caps))"
    using caps card_md_eve [of "''X-FABFIRE-BIN''"] magic_utf8
    by (simp add: auth_step_def bin_step_defs bin_new_server_def bin_send_def bin_response_def write_step_def step_error_def
          toy_card_def Let_def from_utf8_ok_def) (simp add: card_md_def)
  then obtain rs self' where rs: "auth_run mem_api ?stp ff_validated (AuthRunning (bin_new_server (Some ''lab'') ())) ?cs = Value (rs, self')"
    "6 < length rs" "rs ! 6 = Inr (Some (Successful (Some []) (session_open card_user) caps))" by auto
  have "\<forall>((w, M), msg)\<in>drawn ?cs. mechanism_data_ok mem_api w ''X-FABFIRE-BIN'' M"
    by (auto simp: drawn_def card_md_ok)
  from card_login_backed [OF mem_api_lmdb_ok this rs(2,3), THEN conjunct1, THEN mp, OF conjI [OF refl rs(1)]]
  show ?thesis .
qed



text \<open>C17. A genuine card logs its user in: when the card answers with the magic string, the URN of
  this space, a token that names a user with a card key, and a response the driver accepts
  with that key, the exchange finishes and has validated that user.\<close>

theorem genuine_card_validates:
  fixes L :: "('d, 'cmd, 'a, 'x) desfire_lib" and M :: "'q mechanism_data"
  assumes "driver_works L" "\<forall>dat. md_write M dat"
    and "card_says L m1 x" "card_says L m2 magic" "card_says L m3 (ff_local_urn (bin_new_server space d))"
      "card_says L m4 token" "card_says L m5 rnd_b_enc" "card_says L m6 answer"
    and "from_utf8_ok (ff_local_urn (bin_new_server space d))" "from_utf8_ok token"
    and "md_need_key M (trim_nul token) = Value (Inr key)" "md_validate M (trim_nul token) = Value (Inr (Some usr))"
    and "\<forall>d. \<exists>cmd d'. authenticate_iso_aes_response_cmd L d rnd_b_enc key (md_random M) = (Inr (cmd, rnd_b, iv), d')"
      "\<forall>d. \<exists>d'. authenticate_iso_aes_verify L d answer (md_random M) rnd_b key iv = (Inr (), d')"
  shows "\<exists>s. card_run (bin_step L) M (bin_new_server space d) [m0, m1, m2, m3, m4, m5, m6] =
      (Value (Inr (SaslFinished True), s) :: ((('x, unit, 'q) session_error + sasl_state) \<times> 'd fabfire) outcome) \<and>
    ff_validated s = Some usr"
  by (rule bin_honest_run [OF assms])

theorem genuine_card_validates_witness:
  "\<exists>s. card_run (bin_step toy_card) (card_md ''X-FABFIRE-BIN'') (bin_new_server (Some ''lab'') ())
       [''hello'', ''ok'', magic, ''urn:fabaccess:lab:lab'', ''eve'' @ [CHR 0x00], ''b'', ''AAAAAAAAAAAAAAAAnonceb''] =
      (Value (Inr (SaslFinished True), s) :: (((unit, unit, unit) session_error + sasl_state) \<times> unit fabfire) outcome) \<and>
    ff_validated s = Some card_user"
proof (rule genuine_card_validates)
  have t: "trim_nul (''eve'' @ [CHR 0x00]) = ''eve''" by (simp add: trim_nul_def)
  show "md_need_key (card_md ''X-FABFIRE-BIN'') (trim_nul (''eve'' @ [CHR 0x00])) = Value (Inr ''AAAAAAAAAAAAAAAA'')"
    "md_validate (card_md ''X-FABFIRE-BIN'') (trim_nul (''eve'' @ [CHR 0x00])) = Value (Inr (Some card_user))"
    unfolding t by (simp_all add: card_md_eve)
  have u: "ff_local_urn (bin_new_server (Some ''lab'') ()) = ''urn:fabaccess:lab:lab''" by (simp add: bin_new_server_def)
  show "card_says toy_card ''urn:fabaccess:lab:lab'' (ff_local_urn (bin_new_server (Some ''lab'') ()))"
    "from_utf8_ok (ff_local_urn (bin_new_server (Some ''lab'') ()))"
    unfolding u by (simp_all add: toy_says from_utf8_ok_def)
  show "\<forall>d. \<exists>cmd d'. authenticate_iso_aes_response_cmd toy_card d ''b'' ''AAAAAAAAAAAAAAAA'' (md_random (card_md ''X-FABFIRE-BIN'')) = (Inr (cmd, ''b'', []), d')"
    "\<forall>d. \<exists>d'. authenticate_iso_aes_verify toy_card d ''AAAAAAAAAAAAAAAAnonceb'' (md_random (card_md ''X-FABFIRE-BIN'')) ''b'' ''AAAAAAAAAAAAAAAA'' [] = (Inr (), d')"
    by (simp_all add: toy_card_def card_md_def)
qed (rule toy_says toy_works | simp add: from_utf8_ok_def)+

end
