(* ===== verification/Initiators_Correct.thy ===== *)
theory Initiators_Correct
  imports Initiators Sample_Server
begin

text \<open>
  The process initiator handles one line per poll.  \<open>settled\<close> describes the buffers on which its
  loop over the lines ends; on every other buffer it goes round forever.
\<close>

subsection \<open>Finding newlines\<close>

lemma newline_at_None_iff: "newline_at s = None \<longleftrightarrow> newline \<notin> set s"
  by (induction s) auto

lemma newline_at_None [simp]: "newline \<notin> set s \<Longrightarrow> newline_at s = None"
  by (simp add: newline_at_None_iff)

lemma newline_at_Some: "newline_at s = Some i \<Longrightarrow> i < length s \<and> s ! i = newline \<and> (\<forall>j<i. s ! j \<noteq> newline)"
proof (induction s arbitrary: i)
  case (Cons c s)
  show ?case
  proof (cases "c = newline")
    case False
    then obtain k where "i = Suc k" "newline_at s = Some k" using Cons.prems by auto
    then show ?thesis using Cons.IH [of k] False by (auto simp: nth_Cons split: nat.splits)
  qed (use Cons.prems in auto)
qed simp

lemma newline_at_append: "newline \<notin> set l \<Longrightarrow> newline_at (l @ newline # r) = Some (length l)"
  by (induction l) auto

subsection \<open>Buffers on which the loop ends\<close>

text \<open>At most one line with something in it, at the very front, then newlines and an unfinished rest.\<close>

definition settled :: "string \<Rightarrow> string \<Rightarrow> nat \<Rightarrow> string \<Rightarrow> bool" where
  "settled buf line k rest \<longleftrightarrow>
     buf = line @ replicate k newline @ rest \<and> newline \<notin> set line \<and> newline \<notin> set rest \<and> (k = 0 \<longrightarrow> line = [])"

lemma drop_replicate_append:
  "j \<le> k \<Longrightarrow> drop (length l + j) (l @ replicate k c @ r) = replicate (k - j) c @ r"
  by simp

lemma scan_newlines:
  "\<lbrakk>newline \<notin> set rest; j \<le> k; k - j < n\<rbrakk> \<Longrightarrow>
     scan_lines f n (line @ replicate k newline @ rest) (length line + j) s = Some (Value (length line + k, s))"
proof (induction n arbitrary: j)
  case (Suc n)
  show ?case
  proof (cases "j = k")
    case False
    have "replicate (k - j) newline @ rest = newline # replicate (k - Suc j) newline @ rest"
      using False Suc.prems(2) by (cases "k - j") (auto simp: Suc_diff_Suc)
    then have "newline_at (drop (length line + j) (line @ replicate k newline @ rest)) = Some 0"
      using drop_replicate_append [of j k line newline rest] Suc.prems(2) by simp
    then show ?thesis using Suc.IH [of "Suc j"] Suc.prems False by simp
  qed (use Suc.prems in simp)
qed simp

lemma scan_settled:
  assumes "settled buf line k rest"
  shows "scan_lines f (k + 2) buf 0 s =
    (if line = [] then Some (Value (k, s)) else case f s line of Panic \<Rightarrow> Some Panic | Value s' \<Rightarrow> Some (Value (length line + k, s')))"
proof (cases "line = []")
  case True
  then show ?thesis using assms scan_newlines [of rest 0 k "k + 2" f "[]" s] by (simp add: settled_def)
next
  case False
  have buf: "buf = line @ replicate k newline @ rest" "newline \<notin> set line" "newline \<notin> set rest" "0 < k"
    using assms False by (auto simp: settled_def)
  then have "newline_at buf = Some (length line)" by (cases k) (simp_all add: newline_at_append)
  moreover have "slice buf 0 (0 + length line) = Value line" by (simp add: slice_def buf(1))
  ultimately show ?thesis
    using scan_newlines [of rest 0 k "k + 1" f line] buf False by (simp split: outcome.splits)
qed

text \<open>Any other buffer: a newline, later something else, then the last newlines.\<close>

lemma split_end:
  obtains ys zs where "xs = ys @ zs" "\<forall>z\<in>set zs. P z" "ys = [] \<or> \<not> P (last ys)"
proof
  show "xs = rev (dropWhile P (rev xs)) @ rev (takeWhile P (rev xs))"
    by (metis rev_append rev_rev_ident takeWhile_dropWhile_id)
  show "\<forall>z\<in>set (rev (takeWhile P (rev xs))). P z" by (auto dest: set_takeWhileD)
  show "rev (dropWhile P (rev xs)) = [] \<or> \<not> P (last (rev (dropWhile P (rev xs))))"
    by (metis hd_dropWhile last_rev rev_is_Nil_conv)
qed

lemma settled_cases:
  obtains line k rest where "settled buf line k rest"
  | pre c k rest where "buf = (pre @ [c]) @ newline # replicate k newline @ rest" "c \<noteq> newline" "newline \<in> set pre"
proof -
  obtain ys rest where ys: "buf = ys @ rest" "\<forall>z\<in>set rest. z \<noteq> newline" "ys = [] \<or> last ys = newline"
    using split_end [of buf "\<lambda>z. z \<noteq> newline"] by blast
  obtain q zs where q: "ys = q @ zs" "\<forall>z\<in>set zs. z = newline" "q = [] \<or> last q \<noteq> newline"
    using split_end [of ys "\<lambda>z. z = newline"] by blast
  have zs: "zs = replicate (length zs) newline" using q(2) by (simp add: replicate_eqI)
  have buf: "buf = q @ replicate (length zs) newline @ rest" using ys(1) q(1) zs by simp
  show thesis
  proof (cases "newline \<in> set q")
    case False
    have "length zs = 0 \<Longrightarrow> q = []" using ys(3) q(1,3) by auto
    then have "settled buf q (length zs) rest" unfolding settled_def using buf False ys(2) by auto
    then show thesis by (rule that(1))
  next
    case True
    then obtain pre c where pre: "q = pre @ [c]" by (cases q rule: rev_cases) auto
    have c: "c \<noteq> newline" using q(3) pre by simp
    have "zs \<noteq> []" using ys(3) q(1,3) True by auto
    then obtain k where k: "length zs = Suc k" by (cases zs) auto
    show thesis by (rule that(2) [of pre c k rest]) (use buf pre c True k in auto)
  qed
qed

lemma scan_unsettled:
  assumes buf: "buf = (pre @ [c]) @ newline # tail" "c \<noteq> newline" "newline \<in> set pre"
  shows "pos \<le> length pre \<Longrightarrow> scan_lines f n buf pos s \<noteq> Some (Value r)"
proof (induction n arbitrary: pos s)
  case (Suc n)
  have at: "buf ! Suc (length pre) = newline" "buf ! length pre = c" using buf(1) by (simp_all add: nth_append)
  have len: "Suc (length pre) < length buf" using buf(1) by simp
  obtain idx where idx: "newline_at (drop pos buf) = Some idx"
    using Suc.prems buf(1) by (cases "newline_at (drop pos buf)") (auto simp: newline_at_None_iff)
  have i: "buf ! (pos + idx) = newline" "\<forall>j<idx. buf ! (pos + j) \<noteq> newline"
    using newline_at_Some [OF idx] len Suc.prems by auto
  have upto: "pos + idx \<le> Suc (length pre)"
    using i(2) at(1) Suc.prems by (metis le_add_diff_inverse le_SucI not_le_imp_less nat_add_left_cancel_less)
  have less: "idx \<le> length pre"
  proof (cases "pos = 0")
    case True
    obtain j where "j < length pre" "pre ! j = newline" using buf(3) by (metis in_set_conv_nth)
    then have "j < length pre \<and> buf ! j = newline" using buf(1) by (simp add: nth_append)
    then show ?thesis using i(2) True by (metis add_0 linorder_not_less nless_le order_le_less_trans)
  qed (use upto in simp)
  show ?case
  proof (cases "idx = 0")
    case True
    then have "pos \<noteq> length pre" using i(1) at(2) buf(2) by auto
    then show ?thesis using Suc.IH [of "pos + 1" s] Suc.prems idx True len by simp
  next
    case False
    then show ?thesis using Suc.IH [OF less] idx by (auto split: outcome.splits)
  qed
qed simp

lemma scan_more: "scan_lines f n buf pos s = Some r \<Longrightarrow> scan_lines f (n + m) buf pos s = Some r"
proof (induction n arbitrary: pos s)
  case (Suc n)
  then show ?case by (auto split: option.splits outcome.splits if_splits)
qed simp

lemma scan_deterministic:
  "\<lbrakk>scan_lines f n buf pos s = Some r; scan_lines f m buf pos s = Some r'\<rbrakk> \<Longrightarrow> r = r'"
  using scan_more [of f n buf pos s r m] scan_more [of f m buf pos s r' n] by (simp add: add.commute)

lemma try_process_iff:
  "(\<exists>fuel. try_process S json res fuel buf w = Some (Value (n, w'))) \<longleftrightarrow>
   (\<exists>line k rest. settled buf line k rest \<and> n = length line + k \<and> process_line S json res w line = Value w')"
proof (cases rule: settled_cases [of buf])
  case (1 line k rest)
  have empty: "process_line S json res w [] = Value w" by (simp add: process_line_def)
  have run: "try_process S json res (k + 2) buf w =
      (case process_line S json res w line of Panic \<Rightarrow> Some Panic | Value s' \<Rightarrow> Some (Value (length line + k, s')))"
    using scan_settled [OF 1, of "process_line S json res" w] empty by (cases "line = []") (simp_all add: try_process_def)
  have unique: "line' = line \<and> k' = k" if "settled buf line' k' rest'" for line' k' rest'
  proof -
    have "scan_lines (\<lambda>s l. Value (s @ l)) (k' + 2) buf 0 [] = Some (Value (length line' + k', line'))"
      using scan_settled [OF that, of "\<lambda>s l. Value (s @ l)" "[]"] by (cases "line' = []") simp_all
    moreover have "scan_lines (\<lambda>s l. Value (s @ l)) (k + 2) buf 0 [] = Some (Value (length line + k, line))"
      using scan_settled [OF 1, of "\<lambda>s l. Value (s @ l)" "[]"] by (cases "line = []") simp_all
    ultimately show ?thesis using scan_deterministic by fastforce
  qed
  show ?thesis
  proof
    assume "\<exists>fuel. try_process S json res fuel buf w = Some (Value (n, w'))"
    then obtain fuel where fuel: "try_process S json res fuel buf w = Some (Value (n, w'))" by blast
    obtain r where r: "try_process S json res (k + 2) buf w = Some r" using run by (cases "process_line S json res w line") auto
    have "r = Value (n, w')" by (rule scan_deterministic [OF r [unfolded try_process_def] fuel [unfolded try_process_def]])
    then have "try_process S json res (k + 2) buf w = Some (Value (n, w'))" using r by simp
    then show "\<exists>line k rest. settled buf line k rest \<and> n = length line + k \<and> process_line S json res w line = Value w'"
      using run 1 by (auto split: outcome.splits)
  next
    assume "\<exists>line k rest. settled buf line k rest \<and> n = length line + k \<and> process_line S json res w line = Value w'"
    then have "n = length line + k \<and> process_line S json res w line = Value w'" using unique by blast
    then show "\<exists>fuel. try_process S json res fuel buf w = Some (Value (n, w'))" using run by auto
  qed
next
  case (2 pre c k rest)
  have "try_process S json res fuel buf w \<noteq> Some (Value (n, w'))" for fuel
    unfolding try_process_def by (rule scan_unsettled [OF 2]) simp
  moreover have "\<not> settled buf line' k' rest'" for line' k' rest'
  proof
    assume "settled buf line' k' rest'"
    from scan_settled [OF this, of "\<lambda>s l. Value s" "()"] show False
      using scan_unsettled [OF 2, of 0 "\<lambda>s l. Value s" "k' + 2" "()"] by (auto split: if_splits)
  qed
  ultimately show ?thesis by blast
qed

text \<open>C32. The process initiator gets through the lines of its buffer exactly when the buffer starts
  with at most one line that is not empty, followed by newlines and an unfinished line.  It then
  sets the status of this line, if it carries one, and consumes everything up to the unfinished
  line.  As soon as a second line arrives in the same buffer, it never gets through: after a
  line the loop continues at a position relative to the line instead of behind it.\<close>

theorem process_initiator_lines:
  "(\<exists>fuel. try_process S json res fuel buf w = Some (Value (n, w'))) \<longleftrightarrow>
   (\<exists>line k rest. settled buf line k rest \<and> n = length line + k \<and> process_line S json res w line = Value w')"
  by (rule try_process_iff)

subsection \<open>A whole poll\<close>

lemma bind_loop_Value: "bind_loop m f = Some (Value y) \<longleftrightarrow> (\<exists>x. m = Some (Value x) \<and> f x = Some (Value y))"
  by (cases "(m, f)" rule: bind_loop.cases) auto

lemma lb_deref_Value: "lb_deref buf = Value bytes \<longleftrightarrow> lb_ok buf \<and> bytes = lb_abs buf"
  by (auto simp: lb_deref_def lb_ok_def lb_abs_def slice_def)

lemma scan_no_newline: "\<lbrakk>newline \<notin> set buf; scan_lines f n buf 0 s = Some r\<rbrakk> \<Longrightarrow> r = Value (0, s)"
  by (cases n) auto

text \<open>What is read from the error output stays in its buffer: the lines are looked for in the buffer of the
  standard output, which has none left.\<close>

lemma stderr_not_consumed:
  assumes "process_poll S json res fuel status outs errs self w = Some (Value (False, self', w'))" "\<not> pi_stderr_closed self"
  shows "\<exists>err e. read_loop errs (pi_err_buffer self) = Some (Value (err, e)) \<and> lb_consume err 0 = Value (pi_err_buffer self')"
proof -
  obtain buf bytes processed w1 buf' err e bytes' consumed err' where p:
      "lb_deref buf = Value bytes" "try_process S json res fuel bytes w = Some (Value (processed, w1))"
      "lb_consume buf processed = Value buf'" "read_loop errs (pi_err_buffer self) = Some (Value (err, e))"
      "lb_deref buf' = Value bytes'" "scan_lines (\<lambda>u line. Value u) fuel bytes' 0 () = Some (Value (consumed, ()))"
      "lb_consume err consumed = Value err'" "pi_err_buffer self' = err'"
    using assms by (auto simp: process_poll_def bind_loop_Value split: if_splits)
  obtain line k rest where st: "settled bytes line k rest" "processed = length line + k"
    using try_process_iff [of S json res bytes w processed w1] p(2) by blast
  have ok: "lb_ok buf" "bytes = lb_abs buf" using p(1) by (simp_all add: lb_deref_Value)
  have "processed \<le> length (lb_abs buf)" using st ok(2) by (simp add: settled_def)
  then have "lb_abs buf' = drop processed bytes" using lines.pop_ok [OF ok(1), of processed] p(3) ok(2) by auto
  then have "bytes' = rest" using p(5) st by (simp add: lb_deref_Value settled_def)
  then have "consumed = 0" using scan_no_newline [OF _ p(6)] st(1) by (simp add: settled_def)
  then show ?thesis using p(4,7,8) by auto
qed

text \<open>At the end of the file of the standard output the poll does not return while the child lives.\<close>

lemma read_loop_eof: "lb_ok buf \<Longrightarrow> read_loop (replicate n (ReadOk fresh [])) buf = None"
proof (induction n arbitrary: buf)
  case (Suc n)
  have "\<exists>buf'. lb_read 512 buf fresh [] = Value buf' \<and> lb_ok buf'"
    using Suc.prems by (auto simp: lb_read_def get_mut_write_def advance_valid_def lb_write_def lb_resize_def lb_ok_def Let_def)
  then show ?case using Suc.IH by auto
qed simp

subsection \<open>The dummy initiator\<close>

text \<open>Each time the timer fires the dummy initiator tries one status, alternately free and in use by its own
  user, and it never finds its next status missing.\<close>

fun flips :: "session \<Rightarrow> status \<Rightarrow> nat \<Rightarrow> status list" where
  "flips ss st 0 = []"
| "flips ss st (Suc n) = st # flips ss (flip_next ss st) n"

lemma flips_alternate: "flips ss Free n = map (\<lambda>i. if even i then Free else InUse (get_user_ref ss)) [0..<n]"
proof -
  have "flips ss (if even k then Free else InUse (get_user_ref ss)) n =
      map (\<lambda>i. if even i then Free else InUse (get_user_ref ss)) [k..<k + n]" for k
  proof (induction n arbitrary: k)
    case (Suc n)
    have "flip_next ss (if even k then Free else InUse (get_user_ref ss)) = (if even (Suc k) then Free else InUse (get_user_ref ss))"
      by (simp add: flip_next_def)
    then show ?case using Suc [of "Suc k"] by (simp add: upt_rec)
  qed simp
  from this [of 0] show ?thesis by simp
qed

lemma dummy_poll_sleeping:
  "\<lbrakk>di_state self = Sleeping (Some st); dummy_poll S res (replicate n True) self w tried = Value (self', w', tried')\<rbrakk>
     \<Longrightarrow> tried' = tried @ flips (di_session self) st n"
proof (induction n arbitrary: self st w tried)
  case 0
  then show ?case by (simp add: dummy_poll.simps [of S res "[]" self w])
next
  case (Suc n)
  let ?up = "self\<lparr>di_state := Updating st\<rparr>"
  have "dummy_poll S res (replicate n True) ?up w tried = Value (self', w', tried')"
    using Suc.prems by (simp add: dummy_poll.simps [of S res "True # replicate n True" self w])
  then obtain w1 where "dummy_poll S res (replicate n True) (self\<lparr>di_state := Sleeping (Some (flip_next (di_session self) st))\<rparr>) w1
      (tried @ [st]) = Value (self', w', tried')"
    by (auto simp: dummy_poll.simps [of S res _ ?up w] bind_outcome_Value_iff)
  from Suc.IH [OF _ this] show ?case by simp
qed

lemma dummy_alternates:
  assumes "dummy_poll S res (replicate n True) \<lparr>di_session = ss, di_state = DummyEmpty\<rparr> w [] = Value (self', w', tried)"
  shows "tried = map (\<lambda>i. if even i then Free else InUse (get_user_ref ss)) [0..<n]"
proof -
  have "dummy_poll S res (replicate n True) \<lparr>di_session = ss, di_state = Sleeping (Some Free)\<rparr> w [] = Value (self', w', tried)"
    using assms by (simp add: dummy_poll.simps [of S res _ "\<lparr>di_session = ss, di_state = DummyEmpty\<rparr>"])
  from dummy_poll_sleeping [OF _ this] show ?thesis by (simp add: flips_alternate)
qed

end
