(* ===== verification/State_Values.thy ===== *)
theory State_Values
  imports Oid
begin

text \<open>
  \<open>resources/state/value.rs\<close>: the registry that maps the type identifier of an archived value to the
  table of its methods, and the cache of that table in the value.  A table is its address.
\<close>

record impl_data =
  im_vtable :: nat
  im_name :: string
  im_info :: "string \<times> nat \<times> nat"

type_synonym impl_id = "u8 list"

record impl_entry =
  ie_id :: impl_id
  ie_data :: impl_data

type_synonym impl_registry = "impl_id \<rightharpoonup> impl_data"

text \<open>What a type declares with the macros: its identifier, its name, the table of its methods, the place of the
  declaration.  The entry submitted for it is made of these.\<close>

record registered_type =
  rt_type_oid :: object_identifier
  rt_type_name :: string
  rt_vtable :: nat
  rt_debug_info :: "string \<times> nat \<times> nat"

definition impl_id_new :: "registered_type \<Rightarrow> impl_id" where
  "impl_id_new T = oid_as_bytes (rt_type_oid T)"

definition impl_entry_new :: "registered_type \<Rightarrow> impl_entry" where
  "impl_entry_new T =
     \<lparr>ie_id = impl_id_new T, ie_data = \<lparr>im_vtable = rt_vtable T, im_name = rt_type_name T, im_info = rt_debug_info T\<rparr>\<rparr>"

definition impl_registry_new :: impl_registry where
  "impl_registry_new = Map.empty"

text \<open>A conflict is reported and the new entry wins; the result says whether there was one.\<close>

definition add_entry :: "impl_registry \<Rightarrow> impl_entry \<Rightarrow> bool \<times> impl_registry" where
  "add_entry self entry = (self (ie_id entry) \<noteq> None, self(ie_id entry \<mapsto> ie_data entry))"

definition impl_get :: "impl_registry \<Rightarrow> impl_id \<Rightarrow> impl_data option" where
  "impl_get self i = self i"

text \<open>The registry is filled from all submitted entries when it is first used.\<close>

definition impl_registry_of :: "impl_entry list \<Rightarrow> impl_registry" where
  "impl_registry_of entries = foldl (\<lambda>reg e. snd (add_entry reg e)) impl_registry_new entries"

record value_metadata =
  vm_type_oid :: impl_id
  vm_vtable_cache :: nat

text \<open>A new value is stored with an empty cache.\<close>

definition resolve_metadata :: "impl_id \<Rightarrow> value_metadata" where
  "resolve_metadata oid = \<lparr>vm_type_oid = oid, vm_vtable_cache = 0\<rparr>"

text \<open>The metadata of a value are written with the identifier of its archived type.\<close>

definition serialize_metadata :: "registered_type \<Rightarrow> value_metadata" where
  "serialize_metadata T = resolve_metadata (oid_as_bytes (rt_type_oid T))"

definition metadata_vtable :: "impl_registry \<Rightarrow> value_metadata \<Rightarrow> (nat \<times> value_metadata) outcome" where
  "metadata_vtable reg self =
     (if vm_vtable_cache self \<noteq> 0 then Value (vm_vtable_cache self, self)
      else case impl_get reg (vm_type_oid self) of
        None \<Rightarrow> Panic
      | Some d \<Rightarrow> Value (im_vtable d, self\<lparr>vm_vtable_cache := im_vtable d\<rparr>))"

text \<open>The pointer to a value is made of its address and the table of its methods.\<close>

definition pointer_metadata :: "impl_registry \<Rightarrow> value_metadata \<Rightarrow> (nat \<times> value_metadata) outcome" where
  "pointer_metadata reg archived = metadata_vtable reg archived"

subsection \<open>Looking up the methods of a value\<close>

lemma impl_registry_snoc: "impl_registry_of (es @ [e]) = (impl_registry_of es)(ie_id e \<mapsto> ie_data e)"
  by (simp add: impl_registry_of_def impl_registry_new_def add_entry_def)

text \<open>The registry holds the last entry for an identifier.\<close>

lemma impl_registry_last:
  "impl_get (impl_registry_of es) i =
     (case filter (\<lambda>e. ie_id e = i) (rev es) of [] \<Rightarrow> None | e # _ \<Rightarrow> Some (ie_data e))"
proof (induction es rule: rev_induct)
  case Nil
  then show ?case by (simp add: impl_registry_of_def impl_registry_new_def impl_get_def)
next
  case (snoc e es)
  then show ?case by (simp add: impl_registry_snoc impl_get_def)
qed

text \<open>A cache that holds the registered table stays so, and a value of a registered type always finds its table;
  one of an unknown type panics.\<close>

definition cache_ok :: "impl_registry \<Rightarrow> value_metadata \<Rightarrow> bool" where
  "cache_ok reg self \<longleftrightarrow>
     vm_vtable_cache self = 0 \<or> (\<exists>d. reg (vm_type_oid self) = Some d \<and> vm_vtable_cache self = im_vtable d)"

lemma metadata_vtable_spec:
  assumes "cache_ok reg self"
  shows "case reg (vm_type_oid self) of
      Some d \<Rightarrow> \<exists>self'. metadata_vtable reg self = Value (im_vtable d, self') \<and> cache_ok reg self' \<and> vm_type_oid self' = vm_type_oid self
    | None \<Rightarrow> metadata_vtable reg self = Panic"
  using assms by (auto simp: metadata_vtable_def cache_ok_def impl_get_def split: option.splits)

lemma resolve_metadata_ok: "cache_ok reg (resolve_metadata oid)"
  by (simp add: cache_ok_def resolve_metadata_def)

text \<open>Values are read with the methods of the type they were written as, provided no two types share an identifier.
  The second read takes the table from the cache.\<close>

lemma impl_registry_types:
  assumes "distinct (map (oid_nodes \<circ> rt_type_oid) Ts)" "T \<in> set Ts"
  shows "impl_registry_of (map impl_entry_new Ts) (impl_id_new T) = Some (ie_data (impl_entry_new T))"
  using assms
proof (induction Ts rule: rev_induct)
  case (snoc U Us)
  then show ?case
    by (cases "T = U") (auto simp: impl_registry_snoc impl_entry_new_def impl_id_new_def oid_as_bytes_def rev_image_eqI)
qed simp

lemma stored_value_methods:
  assumes "distinct (map (oid_nodes \<circ> rt_type_oid) Ts)" "T \<in> set Ts"
  defines "reg \<equiv> impl_registry_of (map impl_entry_new Ts)"
  shows "\<exists>m. pointer_metadata reg (serialize_metadata T) = Value (rt_vtable T, m) \<and> pointer_metadata reg m = Value (rt_vtable T, m)"
  using impl_registry_types [OF assms(1,2)]
  by (auto simp: reg_def pointer_metadata_def serialize_metadata_def metadata_vtable_def resolve_metadata_def impl_get_def
      impl_id_new_def impl_entry_new_def)

text \<open>With two types of one identifier the one registered last wins, and values of the other are read with the
  wrong methods.\<close>

lemma shared_oid_confuses:
  assumes "oid_nodes (rt_type_oid T) = oid_nodes (rt_type_oid U)"
  shows "\<exists>m. pointer_metadata (impl_registry_of [impl_entry_new T, impl_entry_new U]) (serialize_metadata T) = Value (rt_vtable U, m)"
  using assms
  by (simp add: pointer_metadata_def serialize_metadata_def metadata_vtable_def resolve_metadata_def impl_get_def
      impl_registry_of_def impl_registry_new_def add_entry_def impl_entry_new_def impl_id_new_def oid_as_bytes_def)

end
