(* ===== verification/Lightproc.thy ===== *)
theory Lightproc
  imports Proc_State
begin

text \<open>
  \<open>runtime/lightproc/src\<close>: a light process, the unit that the executor runs.  A process lives
  in one allocation that holds its state word, the waker of whoever awaits it, and a place for
  the future or its output.  It is referred to by \<open>LightProc\<close> values, which are queued or run,
  by wakers, and by at most one handle.

  An operation is one function on the process.  Its loops around \<open>compare_exchange_weak\<close> retry
  with the state they find, so each takes effect on the state it meets when it succeeds: that
  is the state the function reads.  Reading or freeing memory that is not there is a fault,
  since the code does not check for it.
\<close>

subsection \<open>The process\<close>

datatype 'r slot = FutureIn | OutputIn 'r | Vacant

datatype fault = UseAfterFree | NoFuture | NoOutput | Aborting | Spinning

text \<open>The queue counts the \<open>LightProc\<close> values that exist and are not being run; the wakers that
  were woken are kept in order.\<close>

record ('r, 'w) proc =
  pr_state :: atomic_state
  pr_awaiter :: "'w option"
  pr_slot :: "'r slot"
  pr_live :: bool
  pr_queue :: nat
  pr_woken :: "'w list"

type_synonym ('r, 'w) pres = "fault + ('r, 'w) proc"

definition proc_load :: "('r, 'w) proc \<Rightarrow> state" where
  "proc_load p = atomic_load (pr_state p)"

text \<open>A \<open>compare_exchange\<close> that expects the state just found.\<close>

definition proc_exchange :: "('r, 'w) proc \<Rightarrow> state \<Rightarrow> ('r, 'w) proc" where
  "proc_exchange p new = p\<lparr>pr_state := snd (compare_exchange (pr_state p) (proc_load p) new)\<rparr>"

definition live_proc :: "('r, 'w) proc \<Rightarrow> ('r, 'w) pres" where
  "live_proc p = (if pr_live p then Inr p else Inl UseAfterFree)"

definition allocate :: "('r, 'w) proc" where
  "allocate =
     \<lparr>pr_state = atomic_new (state_new (SCHEDULED OR HANDLE) 1), pr_awaiter = None, pr_slot = FutureIn,
      pr_live = True, pr_queue = 1, pr_woken = []\<rparr>"

subsection \<open>Parts of a process\<close>

definition schedule :: "('r, 'w) proc \<Rightarrow> ('r, 'w) proc" where
  "schedule p = p\<lparr>pr_queue := pr_queue p + 1\<rparr>"

definition drop_future :: "('r, 'w) proc \<Rightarrow> ('r, 'w) pres" where
  "drop_future p = bind_result (live_proc p) (\<lambda>p.
     case pr_slot p of FutureIn \<Rightarrow> Inr (p\<lparr>pr_slot := Vacant\<rparr>) | _ \<Rightarrow> Inl NoFuture)"

definition read_output :: "('r, 'w) proc \<Rightarrow> fault + ('r \<times> ('r, 'w) proc)" where
  "read_output p = bind_result (live_proc p) (\<lambda>p.
     case pr_slot p of OutputIn out \<Rightarrow> Inr (out, p\<lparr>pr_slot := Vacant\<rparr>) | _ \<Rightarrow> Inl NoOutput)"

definition destroy :: "('r, 'w) proc \<Rightarrow> ('r, 'w) pres" where
  "destroy p = bind_result (live_proc p) (\<lambda>p. Inr (p\<lparr>pr_live := False\<rparr>))"

definition saturating_sub :: "u32 \<Rightarrow> u32 \<Rightarrow> u32" where
  "saturating_sub a b = (if b \<le> a then a - b else 0)"

definition decrement :: "('r, 'w) proc \<Rightarrow> ('r, 'w) pres" where
  "decrement p = bind_result (live_proc p) (\<lambda>p.
     let (old, st) = fetch_sub (pr_state p) 1;
         new = set_refcount old (saturating_sub (get_refcount old) 1);
         p1 = p\<lparr>pr_state := st\<rparr> in
     if get_refcount new = 0 \<and> \<not> is_handle new then destroy p1 else Inr p1)"

subsection \<open>The awaiter\<close>

text \<open>
  The spin loop around the lock.  It leaves when the word it finds is already locked, so on
  a free lock it goes round once and then meets its own lock: two rounds always do.
\<close>

definition acquire_round :: "atomic_state \<Rightarrow> u32 \<Rightarrow> bool \<times> atomic_state" where
  "acquire_round a v = (let (st, a') = fetch_or a v in (is_locked st, a'))"

fun acquire :: "nat \<Rightarrow> atomic_state \<Rightarrow> u32 \<Rightarrow> atomic_state option" where
  "acquire 0 a v = None"
| "acquire (Suc n) a v = (let (leave, a') = acquire_round a v in if leave then Some a' else acquire n a' v)"

text \<open>The flags set by the loop and kept by the release.\<close>

definition acquire_flags :: "'w option \<Rightarrow> u32" where
  "acquire_flags new = (if new = None then LOCKED else LOCKED OR AWAITER)"

definition release_flags :: "'w option \<Rightarrow> u32" where
  "release_flags new = (if new = None then flags_not LOCKED AND flags_not AWAITER else flags_not LOCKED)"

text \<open>Threads that swap the awaiter at the same time, one atomic operation at a time: a round of the loop
  or, when the thread has left the loop, the swap and the release.\<close>

datatype swap_pc = Spins | Swaps | Finished

fun swap_step :: "'w option \<Rightarrow> 't \<Rightarrow> atomic_state \<times> ('t \<Rightarrow> swap_pc) \<Rightarrow> atomic_state \<times> ('t \<Rightarrow> swap_pc)" where
  "swap_step new t (a, pc) =
     (case pc t of
        Spins \<Rightarrow> let (leave, a') = acquire_round a (acquire_flags new) in (a', if leave then pc(t := Swaps) else pc)
      | Swaps \<Rightarrow> (snd (fetch_and a (release_flags new)), pc(t := Finished))
      | Finished \<Rightarrow> (a, pc))"

definition swap_awaiter :: "('r, 'w) proc \<Rightarrow> 'w option \<Rightarrow> fault + ('w option \<times> ('r, 'w) proc)" where
  "swap_awaiter p new = bind_result (live_proc p) (\<lambda>p.
     case acquire 2 (pr_state p) (acquire_flags new) of
       None \<Rightarrow> Inl Spinning
     | Some a \<Rightarrow> Inr (pr_awaiter p, p\<lparr>pr_awaiter := new, pr_state := snd (fetch_and a (release_flags new))\<rparr>))"

definition notify :: "('r, 'w) proc \<Rightarrow> ('r, 'w) pres" where
  "notify p = bind_result (swap_awaiter p None) (\<lambda>(old, p1).
     case old of None \<Rightarrow> Inr p1 | Some waker \<Rightarrow> Inr (p1\<lparr>pr_woken := pr_woken p1 @ [waker]\<rparr>))"

definition notify_unless :: "('r, 'w) proc \<Rightarrow> 'w \<Rightarrow> ('r, 'w) pres" where
  "notify_unless p current = bind_result (swap_awaiter p None) (\<lambda>(old, p1).
     case old of
       None \<Rightarrow> Inr p1
     | Some waker \<Rightarrow> if waker \<noteq> current then Inr (p1\<lparr>pr_woken := pr_woken p1 @ [waker]\<rparr>) else Inr p1)"

definition pdata_cancel :: "('r, 'w) proc \<Rightarrow> ('r, 'w) pres" where
  "pdata_cancel p = bind_result (live_proc p) (\<lambda>p.
     let st = proc_load p; (flags, references) = parts st in
     if intersects flags (COMPLETED OR CLOSED) then Inr p
     else
       let p1 = proc_exchange p (state_new (flags OR CLOSED) references) in
       if is_awaiter st then notify p1 else Inr p1)"

subsection \<open>Wakers\<close>

definition wake :: "('r, 'w) proc \<Rightarrow> ('r, 'w) pres" where
  "wake p = bind_result (live_proc p) (\<lambda>p.
     let st = proc_load p; (flags, references) = parts st in
     if intersects flags (COMPLETED OR CLOSED) then decrement p
     else if is_scheduled st then decrement (proc_exchange p st)
     else
       let p1 = proc_exchange p (state_new (flags OR SCHEDULED) references) in
       if \<not> is_running st then Inr (schedule p1) else decrement p1)"

definition wake_by_ref :: "('r, 'w) proc \<Rightarrow> ('r, 'w) pres" where
  "wake_by_ref p = bind_result (live_proc p) (\<lambda>p.
     let st = proc_load p; (flags, references) = parts st in
     if intersects flags (COMPLETED OR CLOSED) then Inr p
     else if is_scheduled st then Inr (proc_exchange p st)
     else if \<not> intersects flags (SCHEDULED OR RUNNING)
     then Inr (schedule (proc_exchange p (state_new (flags OR SCHEDULED) (references + 1))))
     else Inr (proc_exchange p (state_new (flags OR SCHEDULED) references)))"

definition clone_waker :: "('r, 'w) proc \<Rightarrow> ('r, 'w) pres" where
  "clone_waker p = bind_result (live_proc p) (\<lambda>p.
     let (old, st) = fetch_add (pr_state p) 1 in
     if get_refcount old > 2147483647 then Inl Aborting else Inr (p\<lparr>pr_state := st\<rparr>))"

subsection \<open>Running\<close>

text \<open>Up to the poll: the result says whether the future is polled.\<close>

definition tick_begin :: "('r, 'w) proc \<Rightarrow> fault + (bool \<times> ('r, 'w) proc)" where
  "tick_begin p = bind_result (live_proc p) (\<lambda>p.
     let st = proc_load p; (flags, references) = parts st in
     if is_closed st then
       bind_result (if is_awaiter st then notify p else Inr p) (\<lambda>p1.
       bind_result (drop_future p1) (\<lambda>p2.
       bind_result (decrement p2) (\<lambda>p3. Inr (False, p3))))
     else Inr (True, proc_exchange p (state_new ((flags AND flags_not SCHEDULED) OR RUNNING) references)))"

definition tick_ready :: "('r, 'w) proc \<Rightarrow> 'r \<Rightarrow> ('r, 'w) pres" where
  "tick_ready p out =
     bind_result (drop_future p) (\<lambda>p.
     let p = p\<lparr>pr_slot := OutputIn out\<rparr>; st = proc_load p; (flags, references) = parts st;
         new_flags = (if \<not> is_handle st
                      then (flags AND flags_not (RUNNING AND SCHEDULED)) OR COMPLETED OR CLOSED
                      else (flags AND flags_not (RUNNING AND SCHEDULED)) OR COMPLETED);
         p1 = proc_exchange p (state_new new_flags references) in
     bind_result (if \<not> is_handle st \<or> is_closed st
                  then bind_result (read_output p1) (\<lambda>(out, p). Inr p) else Inr p1) (\<lambda>p2.
     bind_result (if is_awaiter st then notify p2 else Inr p2) decrement))"

definition tick_pending :: "('r, 'w) proc \<Rightarrow> ('r, 'w) pres" where
  "tick_pending p = bind_result (live_proc p) (\<lambda>p.
     let st = proc_load p; (flags, references) = parts st;
         new_flags = (if is_closed st then flags AND flags_not (RUNNING OR SCHEDULED) else flags AND flags_not RUNNING);
         p1 = proc_exchange p (state_new new_flags references) in
     if is_closed st then bind_result (drop_future p1) decrement
     else if is_scheduled st then Inr (schedule p1)
     else decrement p1)"

text \<open>The guard that closes the process when polling panics.\<close>

definition guard_drop :: "('r, 'w) proc \<Rightarrow> ('r, 'w) pres" where
  "guard_drop p = bind_result (live_proc p) (\<lambda>p.
     let st = proc_load p; (flags, references) = parts st in
     if is_closed st then
       bind_result (drop_future (p\<lparr>pr_state := snd (fetch_and (pr_state p) (flags_not SCHEDULED))\<rparr>)) decrement
     else
       let p1 = proc_exchange p (state_new ((flags AND flags_not (RUNNING AND SCHEDULED)) OR CLOSED) references) in
       bind_result (drop_future p1) (\<lambda>p2.
       bind_result (if is_awaiter st then notify p2 else Inr p2) decrement))"

datatype 'r poll = Ready 'r | Pending | Panicked

text \<open>A whole tick, with the future as a function that may use its waker while it is polled.\<close>

definition tick ::
  "(('r, 'w) proc \<Rightarrow> fault + ('r poll \<times> ('r, 'w) proc)) \<Rightarrow> ('r, 'w) proc \<Rightarrow> ('r, 'w) pres" where
  "tick future p =
     bind_result (tick_begin p) (\<lambda>(polling, p1).
     if \<not> polling then Inr p1
     else if pr_slot p1 \<noteq> FutureIn then Inl NoFuture
     else bind_result (future p1) (\<lambda>(r, p2).
       case r of Ready out \<Rightarrow> tick_ready p2 out | Pending \<Rightarrow> tick_pending p2 | Panicked \<Rightarrow> guard_drop p2))"

definition lightproc_run ::
  "(('r, 'w) proc \<Rightarrow> fault + ('r poll \<times> ('r, 'w) proc)) \<Rightarrow> ('r, 'w) proc \<Rightarrow> ('r, 'w) pres" where
  "lightproc_run future p = tick future (p\<lparr>pr_queue := pr_queue p - 1\<rparr>)"

definition lightproc_cancel :: "('r, 'w) proc \<Rightarrow> ('r, 'w) pres" where
  "lightproc_cancel p = pdata_cancel p"

definition lightproc_drop :: "('r, 'w) proc \<Rightarrow> ('r, 'w) pres" where
  "lightproc_drop p =
     bind_result (pdata_cancel (p\<lparr>pr_queue := pr_queue p - 1\<rparr>)) (\<lambda>p1.
     bind_result (drop_future p1) decrement)"

subsection \<open>The handle\<close>

definition handle_cancel :: "('r, 'w) proc \<Rightarrow> ('r, 'w) pres" where
  "handle_cancel p = bind_result (live_proc p) (\<lambda>p.
     let st = proc_load p; (flags, references) = parts st in
     if intersects flags (COMPLETED OR CLOSED) then Inr p
     else
       let new = (if intersects flags (SCHEDULED OR RUNNING)
                  then state_new (flags OR SCHEDULED OR CLOSED) (references + 1)
                  else state_new (flags OR CLOSED) references);
           p1 = proc_exchange p new;
           p2 = (if \<not> intersects flags (SCHEDULED OR RUNNING) then schedule p1 else p1) in
       if is_awaiter st then notify p2 else Inr p2)"

datatype 'r handle_result = HandlePending | HandleReady "'r option"

text \<open>Taking the output of a completed process.\<close>

definition handle_take :: "('r, 'w) proc \<Rightarrow> 'w \<Rightarrow> fault + ('r handle_result \<times> ('r, 'w) proc)" where
  "handle_take p waker =
     (let st = proc_load p; (flags, references) = parts st;
          p1 = proc_exchange p (state_new (flags OR CLOSED) references) in
      bind_result (if is_awaiter st then notify_unless p1 waker else Inr p1) (\<lambda>p2.
      bind_result (read_output p2) (\<lambda>(out, p3). Inr (HandleReady (Some out), p3))))"

definition handle_poll :: "('r, 'w) proc \<Rightarrow> 'w \<Rightarrow> fault + ('r handle_result \<times> ('r, 'w) proc)" where
  "handle_poll p waker = bind_result (live_proc p) (\<lambda>p.
     let st = proc_load p in
     if is_closed st then bind_result (notify_unless p waker) (\<lambda>p1. Inr (HandleReady None, p1))
     else if \<not> is_completed st then
       bind_result (swap_awaiter p (Some waker)) (\<lambda>(old, p1).
       let st1 = proc_load p1 in
       if is_closed st1 then bind_result (notify_unless p1 waker) (\<lambda>p2. Inr (HandleReady None, p2))
       else if \<not> is_completed st1 then Inr (HandlePending, p1)
       else handle_take p1 waker)
     else handle_take p waker)"

text \<open>The second half of dropping the handle: unsetting its flag.\<close>

definition handle_release :: "('r, 'w) proc \<Rightarrow> ('r, 'w) pres" where
  "handle_release p =
     (let st = proc_load p; (flags, references) = parts st;
          new = (if get_refcount st = 0 \<and> \<not> is_closed st then state_new (SCHEDULED OR CLOSED) 1
                 else state_new (flags AND flags_not HANDLE) references);
          p1 = proc_exchange p new in
      if get_refcount st = 0 then (if \<not> is_closed st then Inr (schedule p1) else destroy p1) else Inr p1)"

definition handle_drop :: "('r, 'w) proc \<Rightarrow> ('r, 'w) pres" where
  "handle_drop p = bind_result (live_proc p) (\<lambda>p.
     case compare_exchange (pr_state p) (state_new (SCHEDULED OR HANDLE) 1) (state_new SCHEDULED 1) of
       (Inr _, a) \<Rightarrow> Inr (p\<lparr>pr_state := a\<rparr>)
     | (Inl st, a) \<Rightarrow>
         let (flags, references) = parts st in
         if is_completed st \<and> \<not> is_closed st then
           bind_result (read_output (proc_exchange p (state_new (flags OR CLOSED) references))) (\<lambda>(out, p1).
             handle_release p1)
         else handle_release p)"

subsection \<open>Recoverable processes\<close>

text \<open>\<open>CatchUnwind\<close> turns a panic of the future into a result, so the process never closes by a panic.\<close>

datatype ('r, 'x) inner_poll = InnerReady 'r | InnerPending | InnerPanic 'x

fun catch_unwind :: "('r, 'x) inner_poll \<Rightarrow> ('x + 'r) poll" where
  "catch_unwind (InnerReady r) = Ready (Inr r)"
| "catch_unwind InnerPending = Pending"
| "catch_unwind (InnerPanic e) = Ready (Inl e)"

text \<open>The handle calls its callback at most once; the reasons it got are kept in order.\<close>

record ('x) recoverable =
  rc_callback :: bool
  rc_reasons :: "'x list"

fun recoverable_result ::
  "'x recoverable \<Rightarrow> ('x + 'r) handle_result \<Rightarrow> 'r handle_result \<times> 'x recoverable" where
  "recoverable_result self HandlePending = (HandlePending, self)"
| "recoverable_result self (HandleReady None) = (HandleReady None, self)"
| "recoverable_result self (HandleReady (Some (Inr val))) = (HandleReady (Some val), self)"
| "recoverable_result self (HandleReady (Some (Inl e))) =
     (HandleReady None,
      if rc_callback self then self\<lparr>rc_callback := False, rc_reasons := rc_reasons self @ [e]\<rparr> else self)"

definition recoverable_poll ::
  "'x recoverable \<Rightarrow> ('x + 'r, 'w) proc \<Rightarrow> 'w
     \<Rightarrow> fault + ('r handle_result \<times> 'x recoverable \<times> ('x + 'r, 'w) proc)" where
  "recoverable_poll self p waker =
     bind_result (handle_poll p waker) (\<lambda>(r, p1).
       let (r', self') = recoverable_result self r in Inr (r', self', p1))"

definition recoverable_new :: "'x recoverable" where
  "recoverable_new = \<lparr>rc_callback = False, rc_reasons = []\<rparr>"

definition on_panic :: "'x recoverable \<Rightarrow> 'x recoverable" where
  "on_panic self = self\<lparr>rc_callback := True\<rparr>"

text \<open>A process and its handle share the allocation; a recoverable one runs the future that catches panics.\<close>

definition lightproc_build :: "('r, 'w) proc" where
  "lightproc_build = allocate"

definition lightproc_recoverable :: "('x + 'r, 'w) proc \<times> 'x recoverable" where
  "lightproc_recoverable = (lightproc_build, recoverable_new)"

fun recoverable_results :: "'x recoverable \<Rightarrow> ('x + 'r) handle_result list \<Rightarrow> 'r handle_result list \<times> 'x recoverable" where
  "recoverable_results self [] = ([], self)"
| "recoverable_results self (r # rs) =
     (let (r', self') = recoverable_result self r; (rs', self'') = recoverable_results self' rs in (r' # rs', self''))"

text \<open>The callback gets the reason of the first panic and is not called again.\<close>

definition panic_reasons :: "('x + 'r) handle_result list \<Rightarrow> 'x list" where
  "panic_reasons rs = List.map_filter (\<lambda>r. case r of HandleReady (Some (Inl e)) \<Rightarrow> Some e | _ \<Rightarrow> None) rs"

lemma recoverable_without_callback:
  "\<not> rc_callback self \<Longrightarrow> snd (recoverable_results self rs) = self"
proof (induction rs arbitrary: self)
  case (Cons r rs)
  have "snd (recoverable_result self r) = self"
    using Cons.prems by (cases "(self, r)" rule: recoverable_result.cases) simp_all
  then show ?case using Cons.IH [OF Cons.prems] by (simp add: case_prod_beta)
qed simp

lemma panic_reasons_simps [simp]:
  "panic_reasons [] = []" "panic_reasons (HandlePending # rs) = panic_reasons rs"
  "panic_reasons (HandleReady None # rs) = panic_reasons rs" "panic_reasons (HandleReady (Some (Inr v)) # rs) = panic_reasons rs"
  "panic_reasons (HandleReady (Some (Inl e)) # rs) = e # panic_reasons rs"
  by (simp_all add: panic_reasons_def map_filter_simps)

lemma recoverable_callback_once:
  "rc_callback self \<Longrightarrow> rc_reasons (snd (recoverable_results self rs)) = rc_reasons self @ take 1 (panic_reasons rs)"
proof (induction rs arbitrary: self)
  case (Cons r rs)
  show ?case
  proof (cases "(self, r)" rule: recoverable_result.cases)
    case (4 self' e)
    then show ?thesis
      using Cons.prems recoverable_without_callback [of "self\<lparr>rc_callback := False, rc_reasons := rc_reasons self @ [e]\<rparr>" rs]
      by (simp add: case_prod_beta)
  qed (use Cons in \<open>simp_all add: case_prod_beta\<close>)
qed simp

end
