(* ===== verification/Lightproc_Correct.thy ===== *)
theory Lightproc_Correct
  imports Lightproc
begin

text \<open>
  The life of a light process.  \<open>life\<close> adds to the process what refers to it: the number of
  wakers, whether it is being polled, whether the handle exists.  \<open>life_do\<close> performs one
  operation of the executor, the future, a waker or the handle, as far as a reference allows
  it.  The invariant \<open>life_ok\<close> ties flags, reference count and memory to these references.
\<close>

subsection \<open>The operations on flags and count\<close>

abbreviation word_of :: "u32 \<Rightarrow> u32 \<Rightarrow> atomic_state" where
  "word_of f r \<equiv> into_u64 (state_new f r)"

lemma from_u64_word: "into_u64 (from_u64 a) = a"
  by (cases a rule: atomic_cases) simp

lemma proc_load_word [simp]: "pr_state p = word_of f r \<Longrightarrow> proc_load p = state_new f r"
  by (simp add: proc_load_def atomic_load_def)

lemma proc_exchange_word [simp]: "proc_exchange p new = p\<lparr>pr_state := into_u64 new\<rparr>"
  by (simp add: proc_exchange_def proc_load_def atomic_load_def compare_exchange_def from_u64_word)

lemma u32_less [simp]: "unat (r :: u32) < 4294967296"
  using unsigned_less [of r, where ?'a = nat] by simp

lemma unat_pos_less: "0 < unat r \<longleftrightarrow> r \<noteq> (0 :: u32)"
  by (simp add: unat_gt_0)

text \<open>
  What matters of a process: the flags for scheduled, running, completed, closed and the handle,
  the count, the slot, whether the memory is there, and the queue.
\<close>

definition proc_at ::
  "('r, 'w) proc \<Rightarrow> bool \<Rightarrow> bool \<Rightarrow> bool \<Rightarrow> bool \<Rightarrow> bool \<Rightarrow> nat \<Rightarrow> 'r slot \<Rightarrow> bool \<Rightarrow> nat \<Rightarrow> bool" where
  "proc_at p sc ru co cl ha n s l q \<longleftrightarrow> (\<exists>f r. pr_state p = word_of f r \<and> unat r = n \<and>
     bit f 0 = sc \<and> bit f 1 = ru \<and> bit f 2 = co \<and> bit f 3 = cl \<and> bit f 4 = ha \<and>
     pr_slot p = s \<and> pr_live p = l \<and> pr_queue p = q)"

text \<open>The operation succeeds and leaves such a process.\<close>

definition gives ::
  "('r, 'w) pres \<Rightarrow> bool \<Rightarrow> bool \<Rightarrow> bool \<Rightarrow> bool \<Rightarrow> bool \<Rightarrow> nat \<Rightarrow> 'r slot \<Rightarrow> bool \<Rightarrow> nat \<Rightarrow> bool" where
  "gives res sc ru co cl ha n s l q \<longleftrightarrow> (\<exists>p. res = Inr p \<and> proc_at p sc ru co cl ha n s l q)"

lemma gives_Inr [simp]: "gives (Inr p) sc ru co cl ha n s l q \<longleftrightarrow> proc_at p sc ru co cl ha n s l q"
  by (simp add: gives_def)

lemma gives_bind:
  "\<lbrakk>gives m sc ru co cl ha n s l q; \<And>p. proc_at p sc ru co cl ha n s l q \<Longrightarrow> gives (k p) sc' ru' co' cl' ha' n' s' l' q'\<rbrakk>
     \<Longrightarrow> gives (bind_result m k) sc' ru' co' cl' ha' n' s' l' q'"
  by (auto simp: gives_def)

lemma proc_at_update [simp]:
  "proc_at (p\<lparr>pr_awaiter := aw\<rparr>) sc ru co cl ha n s l q \<longleftrightarrow> proc_at p sc ru co cl ha n s l q"
  "proc_at (p\<lparr>pr_woken := ws\<rparr>) sc ru co cl ha n s l q \<longleftrightarrow> proc_at p sc ru co cl ha n s l q"
  by (simp_all add: proc_at_def)

lemma proc_at_parts:
  "proc_at p sc ru co cl ha n s l q \<Longrightarrow> proc_at (p\<lparr>pr_slot := s'\<rparr>) sc ru co cl ha n s' l q"
  "proc_at p sc ru co cl ha n s l q \<Longrightarrow> proc_at (p\<lparr>pr_queue := q'\<rparr>) sc ru co cl ha n s l q'"
  "proc_at p sc ru co cl ha n s l q \<Longrightarrow> proc_at (schedule p) sc ru co cl ha n s l (q + 1)"
  by (auto simp: proc_at_def schedule_def)

lemma live_at: "proc_at p sc ru co cl ha n s True q \<Longrightarrow> live_proc p = Inr p"
  by (auto simp: proc_at_def live_proc_def)

lemma decrement_at:
  assumes "proc_at p sc ru co cl ha n s True q" "0 < n"
  shows "gives (decrement p) sc ru co cl ha (n - 1) s (n \<noteq> 1 \<or> ha) q"
proof -
  obtain f r where p: "pr_state p = word_of f r" "unat r = n" "bit f 0 = sc" "bit f 1 = ru" "bit f 2 = co" "bit f 3 = cl"
      "bit f 4 = ha" "pr_slot p = s" "pr_live p" "pr_queue p = q"
    using assms(1) by (auto simp: proc_at_def)
  have one: "unat (1 :: u32) \<le> unat r" "(1 :: u32) \<le> r" using assms(2) p(2) by (simp_all add: word_le_nat_alt)
  have r1: "unat (r - 1) = n - 1" using one p(2) by (simp add: unat_sub)
  have z: "r = 1 \<longleftrightarrow> n = 1" using p(2) by (metis unat_1 word_unat_eq_iff)
  have "decrement p = (if n = 1 \<and> \<not> ha then destroy (p\<lparr>pr_state := word_of f (r - 1)\<rparr>) else Inr (p\<lparr>pr_state := word_of f (r - 1)\<rparr>))"
    using p one by (simp add: decrement_def live_proc_def fetch_sub_new [OF one(1)] saturating_sub_def is_handle_def z Let_def)
  moreover have "proc_at (p\<lparr>pr_state := word_of f (r - 1)\<rparr>) sc ru co cl ha (n - 1) s True q"
    using p r1 unfolding proc_at_def by (intro exI [of _ f] exI [of _ "r - 1"]) simp
  moreover have "proc_at (p\<lparr>pr_state := word_of f (r - 1), pr_live := False\<rparr>) sc ru co cl ha (n - 1) s False q"
    using p r1 unfolding proc_at_def by (intro exI [of _ f] exI [of _ "r - 1"]) simp
  ultimately show ?thesis
    using p(9) by (cases "n = 1 \<and> \<not> ha") (auto simp: destroy_def live_proc_def)
qed

lemma exchange_at:
  assumes "proc_at p sc ru co cl ha n s l q" "unat r' = n'"
    and "bit f' 0 = sc'" "bit f' 1 = ru'" "bit f' 2 = co'" "bit f' 3 = cl'" "bit f' 4 = ha'"
  shows "proc_at (p\<lparr>pr_state := word_of f' r'\<rparr>) sc' ru' co' cl' ha' n' s l q"
proof -
  have "pr_slot p = s" "pr_live p = l" "pr_queue p = q" using assms(1) unfolding proc_at_def by blast+
  then show ?thesis unfolding proc_at_def using assms(2-) by (intro exI [of _ f'] exI [of _ r']) simp
qed

lemma acquire_word: "bit v 6 \<Longrightarrow> acquire 2 (word_of f r) v = Some (word_of (f OR v) r)"
  by (simp add: numeral_2_eq_2 acquire_round_def fetch_or_new is_locked_def bit_or_iff or.assoc)

text \<open>Swapping the awaiter touches only the two flags of the awaiter.\<close>

lemma swap_awaiter_at:
  assumes "proc_at p sc ru co cl ha n s True q"
  shows "\<exists>p'. swap_awaiter p new = Inr (pr_awaiter p, p') \<and> proc_at p' sc ru co cl ha n s True q"
proof -
  obtain f r where p: "pr_state p = word_of f r" "pr_live p" "unat r = n" "bit f 0 = sc" "bit f 1 = ru" "bit f 2 = co"
      "bit f 3 = cl" "bit f 4 = ha" using assms by (auto simp: proc_at_def)
  let ?v = "acquire_flags new" and ?rel = "release_flags new"
  have "bit ?v 6" by (simp add: acquire_flags_def bit_or_iff)
  then have "swap_awaiter p new = Inr (pr_awaiter p, p\<lparr>pr_awaiter := new, pr_state := word_of ((f OR ?v) AND ?rel) r\<rparr>)"
    using p(1,2) by (simp add: swap_awaiter_def live_proc_def acquire_word fetch_and_new Let_def)
  moreover have "proc_at (p\<lparr>pr_awaiter := new, pr_state := word_of ((f OR ?v) AND ?rel) r\<rparr>) sc ru co cl ha n s True q"
    by (rule exchange_at [of "p\<lparr>pr_awaiter := new\<rparr>" sc ru co cl ha n s True q])
       (use assms p in \<open>auto simp: acquire_flags_def release_flags_def bit_simps\<close>)
  ultimately show ?thesis by blast
qed

lemma notify_at:
  assumes "proc_at p sc ru co cl ha n s True q"
  shows "gives (notify p) sc ru co cl ha n s True q" "gives (notify_unless p w) sc ru co cl ha n s True q"
  using swap_awaiter_at [OF assms, of None] by (auto simp: notify_def notify_unless_def split: option.splits)

lemma notify_if_at:
  "proc_at p sc ru co cl ha n s True q \<Longrightarrow> gives (if b then notify p else Inr p) sc ru co cl ha n s True q"
  "proc_at p sc ru co cl ha n s True q \<Longrightarrow> gives (if b then notify_unless p w else Inr p) sc ru co cl ha n s True q"
  by (simp_all add: notify_at)

lemma drop_future_at:
  "proc_at p sc ru co cl ha n FutureIn True q \<Longrightarrow> gives (drop_future p) sc ru co cl ha n Vacant True q"
  by (auto simp: drop_future_def live_at gives_def proc_at_def)

lemma read_output_at:
  "proc_at p sc ru co cl ha n (OutputIn out) True q \<Longrightarrow>
     \<exists>p'. read_output p = Inr (out, p') \<and> proc_at p' sc ru co cl ha n Vacant True q"
  by (auto simp: read_output_def live_at proc_at_def)

subsection \<open>One operation each\<close>

lemma load_at:
  assumes "proc_at p sc ru co cl ha n s l q"
  obtains f r where "proc_load p = state_new f r" "unat r = n" "bit f 0 = sc" "bit f 1 = ru" "bit f 2 = co"
    "bit f 3 = cl" "bit f 4 = ha"
  using assms proc_load_word unfolding proc_at_def by metis

lemmas op_simps = live_at state_flag_defs Let_def bit_simps

lemma pdata_cancel_at:
  assumes "proc_at p sc ru co cl ha n s True q"
  shows "gives (pdata_cancel p) sc ru co (cl \<or> \<not> co) ha n s True q"
proof -
  obtain f r where l: "proc_load p = state_new f r" "unat r = n" "bit f 0 = sc" "bit f 1 = ru" "bit f 2 = co"
      "bit f 3 = cl" "bit f 4 = ha" by (rule load_at [OF assms])
  have x: "proc_at (p\<lparr>pr_state := word_of (f OR CLOSED) r\<rparr>) sc ru co True ha n s True q"
    by (rule exchange_at [OF assms]) (use l in \<open>auto simp: bit_simps\<close>)
  show ?thesis
    using l live_at [OF assms] assms x notify_at(1) [OF x]
    by (cases co; cases cl) (simp_all add: pdata_cancel_def Let_def)
qed

lemma wake_at:
  assumes "proc_at p sc ru co cl ha n s True q" "0 < n"
  shows "if co \<or> cl \<or> sc then gives (wake p) sc ru co cl ha (n - 1) s (n \<noteq> 1 \<or> ha) q
    else if ru then gives (wake p) True ru co cl ha (n - 1) s (n \<noteq> 1 \<or> ha) q
    else gives (wake p) True ru co cl ha n s True (q + 1)"
proof -
  obtain f r where l: "proc_load p = state_new f r" "unat r = n" "bit f 0 = sc" "bit f 1 = ru" "bit f 2 = co"
      "bit f 3 = cl" "bit f 4 = ha" by (rule load_at [OF assms(1)])
  have same: "proc_at (p\<lparr>pr_state := word_of f r\<rparr>) sc ru co cl ha n s True q"
    by (rule exchange_at [OF assms(1)]) (use l in auto)
  have sched: "proc_at (p\<lparr>pr_state := word_of (f OR SCHEDULED) r\<rparr>) True ru co cl ha n s True q"
    by (rule exchange_at [OF assms(1)]) (use l in \<open>auto simp: bit_simps\<close>)
  note d = decrement_at [OF assms] decrement_at [OF same assms(2)] decrement_at [OF sched assms(2)]
  show ?thesis
    using l live_at [OF assms(1)] d proc_at_parts(3) [OF sched]
    by (cases sc; cases ru; cases co; cases cl) (simp_all add: wake_def is_scheduled_def is_running_def Let_def)
qed

lemma wake_by_ref_at:
  assumes "proc_at p sc ru co cl ha n s True q" "n + 1 < 2 ^ 32"
  shows "if co \<or> cl \<or> sc then gives (wake_by_ref p) sc ru co cl ha n s True q
    else if ru then gives (wake_by_ref p) True ru co cl ha n s True q
    else gives (wake_by_ref p) True ru co cl ha (n + 1) s True (q + 1)"
proof -
  obtain f r where l: "proc_load p = state_new f r" "unat r = n" "bit f 0 = sc" "bit f 1 = ru" "bit f 2 = co"
      "bit f 3 = cl" "bit f 4 = ha" by (rule load_at [OF assms(1)])
  have same: "proc_at (p\<lparr>pr_state := word_of f r\<rparr>) sc ru co cl ha n s True q"
    by (rule exchange_at [OF assms(1)]) (use l in auto)
  have sched: "proc_at (p\<lparr>pr_state := word_of (f OR SCHEDULED) r\<rparr>) True ru co cl ha n s True q"
    by (rule exchange_at [OF assms(1)]) (use l in \<open>auto simp: bit_simps\<close>)
  have "unat (r + 1) = n + 1" using assms(2) l(2) by (simp add: unat_plus_if')
  then have more: "proc_at (p\<lparr>pr_state := word_of (f OR SCHEDULED) (r + 1)\<rparr>) True ru co cl ha (n + 1) s True q"
    by (intro exchange_at [OF assms(1)]) (use l in \<open>auto simp: bit_simps\<close>)
  show ?thesis
    using l live_at [OF assms(1)] assms(1) same sched proc_at_parts(3) [OF more]
    by (cases sc; cases ru; cases co; cases cl) (simp_all add: wake_by_ref_def is_scheduled_def is_running_def Let_def)
qed

lemma clone_waker_at:
  assumes "proc_at p sc ru co cl ha n s True q" "n + 1 < 2 ^ 32"
  shows "if n > 2147483647 then clone_waker p = Inl Aborting else gives (clone_waker p) sc ru co cl ha (n + 1) s True q"
proof -
  obtain f r where l: "pr_state p = word_of f r" "unat r = n" "bit f 0 = sc" "bit f 1 = ru" "bit f 2 = co"
      "bit f 3 = cl" "bit f 4 = ha" using assms(1) by (auto simp: proc_at_def)
  have r1: "unat (r + 1) = n + 1" using assms(2) l(2) by (simp add: unat_plus_if')
  then have "proc_at (p\<lparr>pr_state := word_of f (r + 1)\<rparr>) sc ru co cl ha (n + 1) s True q"
    by (intro exchange_at [OF assms(1)]) (use l in auto)
  moreover have "unat r + unat (1 :: u32) < 2 ^ 32" using assms(2) l(2) by simp
  ultimately show ?thesis
    using l live_at [OF assms(1)] by (simp add: clone_waker_def fetch_add_new word_less_nat_alt)
qed

lemma tick_begin_at:
  assumes "proc_at p sc ru co cl ha n s True q"
  shows "\<not> cl \<Longrightarrow> \<exists>p'. tick_begin p = Inr (True, p') \<and> proc_at p' False True co cl ha n s True q"
    and "\<lbrakk>cl; s = FutureIn; 0 < n\<rbrakk> \<Longrightarrow> \<exists>p'. tick_begin p = Inr (False, p') \<and> proc_at p' sc ru co cl ha (n - 1) Vacant (n \<noteq> 1 \<or> ha) q"
proof -
  obtain f r where l: "proc_load p = state_new f r" "unat r = n" "bit f 0 = sc" "bit f 1 = ru" "bit f 2 = co"
      "bit f 3 = cl" "bit f 4 = ha" by (rule load_at [OF assms])
  have x: "proc_at (p\<lparr>pr_state := word_of ((f AND flags_not SCHEDULED) OR RUNNING) r\<rparr>) False True co cl ha n s True q"
    by (rule exchange_at [OF assms]) (use l in \<open>auto simp: bit_simps\<close>)
  show "\<not> cl \<Longrightarrow> \<exists>p'. tick_begin p = Inr (True, p') \<and> proc_at p' False True co cl ha n s True q"
    using l live_at [OF assms] x by (simp add: tick_begin_def is_closed_def Let_def)
  assume c: "cl" "s = FutureIn" "0 < n"
  let ?r = "bind_result (if is_awaiter (state_new f r) then notify p else Inr p) (\<lambda>p1. bind_result (drop_future p1) decrement)"
  have "gives ?r sc ru co cl ha (n - 1) Vacant (n \<noteq> 1 \<or> ha) q"
    by (rule gives_bind [OF notify_if_at(1) [OF assms]], rule gives_bind [OF drop_future_at], simp add: c(2),
        rule decrement_at [OF _ c(3)])
  then obtain p' where p': "?r = Inr p'" "proc_at p' sc ru co cl ha (n - 1) Vacant (n \<noteq> 1 \<or> ha) q"
    unfolding gives_def by blast
  then have "tick_begin p = Inr (False, p')"
    using l live_at [OF assms] c(1) by (auto simp: tick_begin_def is_closed_def Let_def bind_result_Inr_iff)
  then show "\<exists>p'. tick_begin p = Inr (False, p') \<and> proc_at p' sc ru co cl ha (n - 1) Vacant (n \<noteq> 1 \<or> ha) q"
    using p'(2) by blast
qed

lemma no_flags [simp]: "f AND flags_not (RUNNING AND SCHEDULED) = f AND all_flags"
  by (rule bit_word_eqI) (auto simp: bit_simps)

lemma tick_ready_at:
  assumes "proc_at p sc ru co False ha n FutureIn True q" "0 < n"
  shows "gives (tick_ready p out) sc ru True (\<not> ha) ha (n - 1) (if ha then OutputIn out else Vacant) (n \<noteq> 1 \<or> ha) q"
proof -
  obtain p0 where p0: "drop_future p = Inr p0" "proc_at p0 sc ru co False ha n Vacant True q"
    using drop_future_at [OF assms(1)] by (auto simp: gives_def)
  let ?p = "p0\<lparr>pr_slot := OutputIn out\<rparr>"
  have p: "proc_at ?p sc ru co False ha n (OutputIn out) True q" by (rule proc_at_parts(1) [OF p0(2)])
  obtain f r where l: "proc_load ?p = state_new f r" "unat r = n" "bit f 0 = sc" "bit f 1 = ru" "bit f 2 = co"
      "\<not> bit f 3" "bit f 4 = ha" by (rule load_at [OF p]) auto
  let ?f = "if \<not> ha then (f AND all_flags) OR COMPLETED OR CLOSED else (f AND all_flags) OR COMPLETED"
  have x: "proc_at (?p\<lparr>pr_state := word_of ?f r\<rparr>) sc ru True (\<not> ha) ha n (OutputIn out) True q"
    by (rule exchange_at [OF p]) (use l in \<open>auto simp: bit_simps\<close>)
  let ?m = "if \<not> ha then bind_result (read_output (?p\<lparr>pr_state := word_of ?f r\<rparr>)) (\<lambda>(out, p). Inr p) else Inr (?p\<lparr>pr_state := word_of ?f r\<rparr>)"
  have m: "gives ?m sc ru True (\<not> ha) ha n (if ha then OutputIn out else Vacant) True q"
    using read_output_at [OF x] x by (cases ha) auto
  have "tick_ready p out = bind_result ?m (\<lambda>p2. bind_result (if is_awaiter (state_new f r) then notify p2 else Inr p2) decrement)"
    using l by (simp add: tick_ready_def p0(1) is_handle_def is_closed_def)
  moreover have "gives (bind_result ?m (\<lambda>p2. bind_result (if is_awaiter (state_new f r) then notify p2 else Inr p2) decrement))
      sc ru True (\<not> ha) ha (n - 1) (if ha then OutputIn out else Vacant) (n \<noteq> 1 \<or> ha) q"
    by (rule gives_bind [OF m], rule gives_bind [OF notify_if_at(1)], assumption, rule decrement_at [OF _ assms(2)])
  ultimately show ?thesis by simp
qed

lemma tick_pending_at:
  assumes "proc_at p sc ru co False ha n s True q" "0 < n"
  shows "if sc then gives (tick_pending p) sc False co False ha n s True (q + 1)
    else gives (tick_pending p) sc False co False ha (n - 1) s (n \<noteq> 1 \<or> ha) q"
proof -
  obtain f r where l: "proc_load p = state_new f r" "unat r = n" "bit f 0 = sc" "bit f 1 = ru" "bit f 2 = co"
      "\<not> bit f 3" "bit f 4 = ha" by (rule load_at [OF assms(1)]) auto
  have x: "proc_at (p\<lparr>pr_state := word_of (f AND flags_not RUNNING) r\<rparr>) sc False co False ha n s True q"
    by (rule exchange_at [OF assms(1)]) (use l in \<open>auto simp: bit_simps\<close>)
  show ?thesis
    using l live_at [OF assms(1)] decrement_at [OF x assms(2)] proc_at_parts(3) [OF x]
    by (cases sc) (simp_all add: tick_pending_def is_closed_def is_scheduled_def Let_def)
qed

lemma guard_drop_at:
  assumes "proc_at p sc ru co False ha n FutureIn True q" "0 < n"
  shows "gives (guard_drop p) sc ru co True ha (n - 1) Vacant (n \<noteq> 1 \<or> ha) q"
proof -
  obtain f r where l: "proc_load p = state_new f r" "unat r = n" "bit f 0 = sc" "bit f 1 = ru" "bit f 2 = co"
      "\<not> bit f 3" "bit f 4 = ha" by (rule load_at [OF assms(1)]) auto
  have x: "proc_at (p\<lparr>pr_state := word_of ((f AND all_flags) OR CLOSED) r\<rparr>) sc ru co True ha n FutureIn True q"
    by (rule exchange_at [OF assms(1)]) (use l in \<open>auto simp: bit_simps\<close>)
  have "guard_drop p = bind_result (drop_future (p\<lparr>pr_state := word_of ((f AND all_flags) OR CLOSED) r\<rparr>)) (\<lambda>p2.
      bind_result (if is_awaiter (state_new f r) then notify p2 else Inr p2) decrement)"
    using l live_at [OF assms(1)] by (simp add: guard_drop_def is_closed_def Let_def)
  moreover have "gives \<dots> sc ru co True ha (n - 1) Vacant (n \<noteq> 1 \<or> ha) q"
    by (rule gives_bind [OF drop_future_at [OF x]], rule gives_bind [OF notify_if_at(1)], assumption,
        rule decrement_at [OF _ assms(2)])
  ultimately show ?thesis by simp
qed

lemma lightproc_drop_at:
  assumes "proc_at p sc ru co cl ha n FutureIn True q" "0 < n"
  shows "gives (lightproc_drop p) sc ru co (cl \<or> \<not> co) ha (n - 1) Vacant (n \<noteq> 1 \<or> ha) (q - 1)"
proof -
  have q: "pr_queue p = q" using assms(1) by (auto simp: proc_at_def)
  show ?thesis
  unfolding lightproc_drop_def q
  by (rule gives_bind [OF pdata_cancel_at [OF proc_at_parts(2) [OF assms(1)]]], rule gives_bind [OF drop_future_at], assumption,
      rule decrement_at [OF _ assms(2)])
qed

text \<open>The handle: it waits while the process is open, takes the output once, and gets nothing from a closed one.\<close>

lemma handle_take_at:
  assumes "proc_at p sc ru co cl ha n (OutputIn out) True q"
  shows "\<exists>p'. handle_take p w = Inr (HandleReady (Some out), p') \<and> proc_at p' sc ru co True ha n Vacant True q"
proof -
  obtain f r where l: "proc_load p = state_new f r" "unat r = n" "bit f 0 = sc" "bit f 1 = ru" "bit f 2 = co"
      "bit f 3 = cl" "bit f 4 = ha" by (rule load_at [OF assms])
  have x: "proc_at (p\<lparr>pr_state := word_of (f OR CLOSED) r\<rparr>) sc ru co True ha n (OutputIn out) True q"
    by (rule exchange_at [OF assms]) (use l in \<open>auto simp: bit_simps\<close>)
  obtain p2 where p2: "(if is_awaiter (state_new f r) then notify_unless (p\<lparr>pr_state := word_of (f OR CLOSED) r\<rparr>) w
        else Inr (p\<lparr>pr_state := word_of (f OR CLOSED) r\<rparr>)) = Inr p2"
      "proc_at p2 sc ru co True ha n (OutputIn out) True q"
    using notify_if_at(2) [OF x] unfolding gives_def by blast
  then show ?thesis using l(1) read_output_at [OF p2(2)] by (auto simp: handle_take_def)
qed

lemma handle_poll_at:
  assumes "proc_at p sc ru co cl ha n s True q"
  shows "cl \<Longrightarrow> \<exists>p'. handle_poll p w = Inr (HandleReady None, p') \<and> proc_at p' sc ru co cl ha n s True q"
    and "\<lbrakk>\<not> cl; \<not> co\<rbrakk> \<Longrightarrow> \<exists>p'. handle_poll p w = Inr (HandlePending, p') \<and> proc_at p' sc ru co cl ha n s True q"
    and "\<lbrakk>\<not> cl; co; s = OutputIn out\<rbrakk> \<Longrightarrow>
      \<exists>p'. handle_poll p w = Inr (HandleReady (Some out), p') \<and> proc_at p' sc ru co True ha n Vacant True q"
proof -
  obtain f r where l: "proc_load p = state_new f r" "unat r = n" "bit f 0 = sc" "bit f 1 = ru" "bit f 2 = co"
      "bit f 3 = cl" "bit f 4 = ha" by (rule load_at [OF assms])
  note def = handle_poll_def is_closed_def is_completed_def live_at [OF assms]
  show "\<exists>p'. handle_poll p w = Inr (HandleReady None, p') \<and> proc_at p' sc ru co cl ha n s True q" if cl
    using that l notify_at(2) [OF assms, of w] by (auto simp: def gives_def)
  show "\<exists>p'. handle_poll p w = Inr (HandleReady (Some out), p') \<and> proc_at p' sc ru co True ha n Vacant True q"
    if "\<not> cl" co "s = OutputIn out"
    using that l handle_take_at [of p sc ru co cl ha n out q w] assms by (simp add: def)
  obtain p1 where p1: "swap_awaiter p (Some w) = Inr (pr_awaiter p, p1)" "proc_at p1 sc ru co cl ha n s True q"
    using swap_awaiter_at [OF assms] by blast
  obtain f1 r1 where l1: "proc_load p1 = state_new f1 r1" "bit f1 2 = co" "bit f1 3 = cl" by (rule load_at [OF p1(2)])
  show "\<exists>p'. handle_poll p w = Inr (HandlePending, p') \<and> proc_at p' sc ru co cl ha n s True q" if "\<not> cl" "\<not> co"
    using that l l1 p1 by (simp add: def)
qed

lemma handle_release_at:
  assumes "proc_at p sc ru co cl ha n s True q"
  shows "if n = 0 \<and> \<not> cl then gives (handle_release p) True False False True False 1 s True (q + 1)
    else gives (handle_release p) sc ru co cl False n s (n \<noteq> 0) q"
proof -
  obtain f r where l: "proc_load p = state_new f r" "unat r = n" "bit f 0 = sc" "bit f 1 = ru" "bit f 2 = co"
      "bit f 3 = cl" "bit f 4 = ha" by (rule load_at [OF assms])
  have z: "r = 0 \<longleftrightarrow> n = 0" using l(2) unat_pos_less [of r] by auto
  have x: "proc_at (p\<lparr>pr_state := word_of (SCHEDULED OR CLOSED) 1\<rparr>) True False False True False 1 s True q"
    by (rule exchange_at [OF assms]) (auto simp: bit_simps)
  have y: "proc_at (p\<lparr>pr_state := word_of (f AND flags_not HANDLE) r\<rparr>) sc ru co cl False n s True q"
    by (rule exchange_at [OF assms]) (use l in \<open>auto simp: bit_simps\<close>)
  have d: "gives (destroy (p\<lparr>pr_state := word_of (f AND flags_not HANDLE) r\<rparr>)) sc ru co cl False n s False q"
    using y by (auto simp: destroy_def live_at gives_def proc_at_def)
  show ?thesis
    using l z d y proc_at_parts(3) [OF x]
    by (cases "n = 0"; cases cl) (simp_all add: handle_release_def is_closed_def Let_def)
qed

lemma handle_drop_at:
  assumes "proc_at p sc ru co cl ha n s True q"
    and "co \<and> \<not> cl \<longrightarrow> (\<exists>out. s = OutputIn out)"
  shows "if n = 0 \<and> \<not> cl \<and> \<not> co then gives (handle_drop p) True False False True False 1 s True (q + 1)
    else gives (handle_drop p) sc ru co (cl \<or> co) False n (if co \<and> \<not> cl then Vacant else s) (n \<noteq> 0) q"
proof (cases "pr_state p = word_of (SCHEDULED OR HANDLE) 1")
  case True
  have at: "sc" "\<not> ru" "\<not> co" "\<not> cl" "n = 1"
    using assms(1) True by (auto simp: proc_at_def bit_simps)
  have x: "proc_at (p\<lparr>pr_state := word_of SCHEDULED 1\<rparr>) True False False False False 1 s True q"
    by (rule exchange_at [OF assms(1)]) (auto simp: bit_simps)
  then show ?thesis
    using at by (simp add: handle_drop_def live_at [OF assms(1)] True compare_exchange_def)
next
  case False
  obtain f r where l: "proc_load p = state_new f r" "pr_state p = word_of f r" "bit f 2 = co" "bit f 3 = cl" "unat r = n"
      "bit f 0 = sc" "bit f 1 = ru" "bit f 4 = ha"
    using assms(1) proc_load_word unfolding proc_at_def by metis
  have slow: "handle_drop p = (if co \<and> \<not> cl then
      bind_result (read_output (p\<lparr>pr_state := word_of (f OR CLOSED) r\<rparr>)) (\<lambda>(out, p1). handle_release p1) else handle_release p)"
    using False l by (auto simp: handle_drop_def live_at [OF assms(1)] compare_exchange_def is_completed_def is_closed_def)
  show ?thesis
  proof (cases "co \<and> \<not> cl")
    case True
    then obtain out where out: "s = OutputIn out" using assms(2) by blast
    have x: "proc_at (p\<lparr>pr_state := word_of (f OR CLOSED) r\<rparr>) sc ru co True ha n (OutputIn out) True q"
      by (rule exchange_at [OF assms(1) [unfolded out]]) (use l in \<open>auto simp: bit_simps\<close>)
    obtain p' where "read_output (p\<lparr>pr_state := word_of (f OR CLOSED) r\<rparr>) = Inr (out, p')"
        "proc_at p' sc ru co True ha n Vacant True q" using read_output_at [OF x] by blast
    then show ?thesis using slow True handle_release_at [of p' sc ru co True ha n Vacant q] by simp
  next
    case False
    then show ?thesis using slow handle_release_at [OF assms(1)] by (auto split: if_splits)
  qed
qed

subsection \<open>A life\<close>

text \<open>The process with the wakers that exist, the polls in progress, whether the handle exists, and
  what the future returned and the handle received.\<close>

record ('r, 'w) life =
  lf_proc :: "('r, 'w) proc"
  lf_wakers :: nat
  lf_polls :: nat
  lf_handle :: bool
  lf_made :: "'r list"
  lf_got :: "'r list"

definition life_new :: "('r, 'w) life" where
  "life_new = \<lparr>lf_proc = allocate, lf_wakers = 0, lf_polls = 0, lf_handle = True, lf_made = [], lf_got = []\<rparr>"

datatype ('r, 'w) life_op =
    Run | PollReady 'r | PollPending | PollPanic
  | CloneWaker | Wake | WakeByRef | DropWaker
  | DropProc | CancelProc
  | HandlePoll 'w | HandleDrop

definition set_proc :: "('r, 'w) life \<Rightarrow> ('r, 'w) pres \<Rightarrow> fault + ('r, 'w) life" where
  "set_proc l m = bind_result m (\<lambda>p. Inr (l\<lparr>lf_proc := p\<rparr>))"

text \<open>An operation that nobody holds the reference for does not happen.  The wakers of a running process
  include the one its future was given.\<close>

fun life_do :: "('r, 'w) life \<Rightarrow> ('r, 'w) life_op \<Rightarrow> fault + ('r, 'w) life" where
  "life_do l Run =
     (if pr_queue (lf_proc l) = 0 then Inr l
      else bind_result (tick_begin ((lf_proc l)\<lparr>pr_queue := pr_queue (lf_proc l) - 1\<rparr>)) (\<lambda>(polling, p).
        if polling \<and> pr_slot p \<noteq> FutureIn then Inl NoFuture
        else Inr (l\<lparr>lf_proc := p, lf_polls := lf_polls l + of_bool polling\<rparr>)))"
| "life_do l (PollReady out) =
     (if lf_polls l = 0 then Inr l
      else set_proc (l\<lparr>lf_polls := lf_polls l - 1, lf_made := lf_made l @ [out]\<rparr>) (tick_ready (lf_proc l) out))"
| "life_do l PollPending =
     (if lf_polls l = 0 then Inr l else set_proc (l\<lparr>lf_polls := lf_polls l - 1\<rparr>) (tick_pending (lf_proc l)))"
| "life_do l PollPanic =
     (if lf_polls l = 0 then Inr l else set_proc (l\<lparr>lf_polls := lf_polls l - 1\<rparr>) (guard_drop (lf_proc l)))"
| "life_do l CloneWaker =
     (if lf_wakers l + lf_polls l = 0 then Inr l
      else set_proc (l\<lparr>lf_wakers := lf_wakers l + 1\<rparr>) (clone_waker (lf_proc l)))"
| "life_do l Wake =
     (if lf_wakers l = 0 then Inr l else set_proc (l\<lparr>lf_wakers := lf_wakers l - 1\<rparr>) (wake (lf_proc l)))"
| "life_do l WakeByRef =
     (if lf_wakers l + lf_polls l = 0 then Inr l else set_proc l (wake_by_ref (lf_proc l)))"
| "life_do l DropWaker =
     (if lf_wakers l = 0 then Inr l else set_proc (l\<lparr>lf_wakers := lf_wakers l - 1\<rparr>) (decrement (lf_proc l)))"
| "life_do l DropProc =
     (if pr_queue (lf_proc l) = 0 then Inr l else set_proc l (lightproc_drop (lf_proc l)))"
| "life_do l CancelProc =
     (if pr_queue (lf_proc l) = 0 then Inr l else set_proc l (lightproc_cancel (lf_proc l)))"
| "life_do l (HandlePoll w) =
     (if \<not> lf_handle l then Inr l
      else bind_result (handle_poll (lf_proc l) w) (\<lambda>(r, p).
        Inr (l\<lparr>lf_proc := p, lf_got := lf_got l @ (case r of HandleReady (Some out) \<Rightarrow> [out] | _ \<Rightarrow> [])\<rparr>)))"
| "life_do l HandleDrop =
     (if \<not> lf_handle l then Inr l else set_proc (l\<lparr>lf_handle := False\<rparr>) (handle_drop (lf_proc l)))"

fun life_run :: "('r, 'w) life \<Rightarrow> ('r, 'w) life_op list \<Rightarrow> fault + ('r, 'w) life" where
  "life_run l [] = Inr l"
| "life_run l (x # xs) = bind_result (life_do l x) (\<lambda>l'. life_run l' xs)"

text \<open>What the flags and the count say of the references.\<close>

definition open_shape :: "bool \<Rightarrow> bool \<Rightarrow> 'r slot \<Rightarrow> nat \<Rightarrow> nat \<Rightarrow> bool" where
  "open_shape sc ru s q run \<longleftrightarrow>
     s = FutureIn \<and> (if ru then run = 1 \<and> q = 0 else run = 0 \<and> q = of_bool sc)"

definition done_shape :: "bool \<Rightarrow> bool \<Rightarrow> bool \<Rightarrow> 'r slot \<Rightarrow> nat \<Rightarrow> nat \<Rightarrow> bool" where
  "done_shape co cl ha s q run \<longleftrightarrow> run = 0 \<and>
     (if \<not> co then (q = 1 \<and> s = FutureIn) \<or> (q = 0 \<and> s = Vacant)
      else q = 0 \<and> (if cl then s = Vacant else ha \<and> (\<exists>r. s = OutputIn r)))"

definition slot_history :: "'r slot \<Rightarrow> 'r list \<Rightarrow> 'r list \<Rightarrow> bool" where
  "slot_history s made got \<longleftrightarrow>
     (case s of FutureIn \<Rightarrow> made = [] \<and> got = [] | OutputIn r \<Rightarrow> made = [r] \<and> got = []
      | Vacant \<Rightarrow> length made \<le> 1 \<and> (got = [] \<or> got = made))"

text \<open>The references and the history against what the process knows of them.\<close>

definition life_shape ::
  "nat \<Rightarrow> nat \<Rightarrow> 'r list \<Rightarrow> 'r list \<Rightarrow> bool \<Rightarrow> bool \<Rightarrow> bool \<Rightarrow> bool \<Rightarrow> bool \<Rightarrow> nat \<Rightarrow> 'r slot \<Rightarrow> bool \<Rightarrow> nat \<Rightarrow> bool" where
  "life_shape wk run made got sc ru co cl ha n s live q \<longleftrightarrow>
     live = (0 < n \<or> ha) \<and> n = q + run + wk \<and> wk \<le> 2147483648 \<and>
     (if \<not> co \<and> \<not> cl then open_shape sc ru s q run else done_shape co cl ha s q run) \<and>
     slot_history s made got"

definition life_at ::
  "('r, 'w) life \<Rightarrow> bool \<Rightarrow> bool \<Rightarrow> bool \<Rightarrow> bool \<Rightarrow> bool \<Rightarrow> nat \<Rightarrow> 'r slot \<Rightarrow> bool \<Rightarrow> nat \<Rightarrow> bool" where
  "life_at l sc ru co cl ha n s live q \<longleftrightarrow>
     proc_at (lf_proc l) sc ru co cl ha n s live q \<and> ha = lf_handle l \<and>
     life_shape (lf_wakers l) (lf_polls l) (lf_made l) (lf_got l) sc ru co cl ha n s live q"

definition life_ok :: "('r, 'w) life \<Rightarrow> bool" where
  "life_ok l \<longleftrightarrow> (\<exists>sc ru co cl ha n s live q. life_at l sc ru co cl ha n s live q)"

lemma life_new_ok: "life_ok life_new"
proof -
  have "proc_at allocate True False False False True 1 FutureIn True 1"
    unfolding proc_at_def allocate_def atomic_new_def
    by (intro exI [of _ "SCHEDULED OR HANDLE"] exI [of _ 1]) (simp add: bit_simps)
  then have "life_at life_new True False False False True 1 FutureIn True 1"
    by (simp add: life_at_def life_shape_def life_new_def open_shape_def slot_history_def)
  then show ?thesis unfolding life_ok_def by blast
qed

lemma set_proc_at:
  assumes "gives m sc ru co cl ha n s live q" "ha = lf_handle l"
    and "life_shape (lf_wakers l) (lf_polls l) (lf_made l) (lf_got l) sc ru co cl ha n s live q"
  shows "\<exists>l'. set_proc l m = Inr l' \<and> life_at l' sc ru co cl ha n s live q"
  using assms by (auto simp: gives_def set_proc_def life_at_def)

lemma set_proc_ok:
  assumes "gives m sc ru co cl ha n s live q" "ha = lf_handle l"
    and "life_shape (lf_wakers l) (lf_polls l) (lf_made l) (lf_got l) sc ru co cl ha n s live q"
  shows "\<exists>l'. set_proc l m = Inr l' \<and> life_ok l'"
  using set_proc_at [OF assms] unfolding life_ok_def by blast

lemmas shape_defs = life_shape_def open_shape_def done_shape_def

lemma shape_wake:
  assumes "life_shape wk run made got sc ru co cl ha n s live q" "wk \<noteq> 0"
  shows "life_shape (wk - 1) run made got (sc \<or> \<not> (co \<or> cl)) ru co cl ha (if co \<or> cl \<or> sc \<or> ru then n - 1 else n) s
     (co \<or> cl \<or> sc \<or> ru \<longrightarrow> n \<noteq> 1 \<or> ha) (if co \<or> cl \<or> sc \<or> ru then q else q + 1)"
    and "life_shape (wk - 1) run made got sc ru co cl ha (n - 1) s (n \<noteq> 1 \<or> ha) q"
  using assms by (cases sc; cases ru; cases co; cases cl; auto simp: shape_defs)+

lemma shape_clone:
  "\<lbrakk>life_shape wk run made got sc ru co cl ha n s live q; n \<le> 2147483647; wk + run \<noteq> 0\<rbrakk>
     \<Longrightarrow> life_shape (wk + 1) run made got sc ru co cl ha (n + 1) s True q"
  by (simp add: life_shape_def)

lemma shape_wake_by_ref:
  "\<lbrakk>life_shape wk run made got sc ru co cl ha n s live q; wk + run \<noteq> 0\<rbrakk>
     \<Longrightarrow> life_shape wk run made got (sc \<or> \<not> (co \<or> cl)) ru co cl ha (if co \<or> cl \<or> sc \<or> ru then n else n + 1) s True
       (if co \<or> cl \<or> sc \<or> ru then q else q + 1)"
  by (cases sc; cases ru; cases co; cases cl; auto simp: shape_defs)

lemma shape_queued:
  assumes "life_shape wk run made got sc ru co cl ha n s live q" "q \<noteq> 0"
  shows "s = FutureIn" "0 < n" "\<not> co" "live"
    and "\<not> cl \<Longrightarrow> life_shape wk (run + 1) made got False True co cl ha n s True (q - 1)"
    and "life_shape wk run made got sc ru co True ha (n - 1) Vacant (n \<noteq> 1 \<or> ha) (q - 1)"
    and "life_shape wk run made got sc ru co True ha n s True q"
  using assms
  by (cases sc; cases ru; cases co; cases cl; force simp: shape_defs slot_history_def split: if_splits)+

lemma shape_running:
  assumes "life_shape wk run made got sc ru co cl ha n s live q" "run \<noteq> 0"
  shows "s = FutureIn" "0 < n" "\<not> co" "\<not> cl" "live"
    and "life_shape wk (run - 1) (made @ [out]) got sc ru True (\<not> ha) ha (n - 1) (if ha then OutputIn out else Vacant) (n \<noteq> 1 \<or> ha) q"
    and "life_shape wk (run - 1) made got sc False co cl ha (if sc then n else n - 1) s (sc \<or> n \<noteq> 1 \<or> ha) (if sc then q + 1 else q)"
    and "life_shape wk (run - 1) made got sc ru co True ha (n - 1) Vacant (n \<noteq> 1 \<or> ha) q"
  using assms
  by (cases sc; cases ru; cases co; cases cl; force simp: shape_defs slot_history_def split: if_splits)+

lemma shape_handle:
  assumes "life_shape wk run made got sc ru co cl True n s live q"
  shows "live" "co \<and> \<not> cl \<longrightarrow> (\<exists>out. s = OutputIn out)"
    and "\<lbrakk>co; \<not> cl; s = OutputIn out\<rbrakk> \<Longrightarrow> life_shape wk run made (got @ [out]) sc ru co True True n Vacant True q"
    and "\<lbrakk>n = 0; \<not> cl; \<not> co\<rbrakk> \<Longrightarrow> life_shape wk run made got True False False True False 1 s True (q + 1)"
    and "\<not> (n = 0 \<and> \<not> cl \<and> \<not> co) \<Longrightarrow>
      life_shape wk run made got sc ru co (cl \<or> co) False n (if co \<and> \<not> cl then Vacant else s) (n \<noteq> 0) q"
  using assms
  by (cases sc; cases ru; cases co; cases cl; force simp: shape_defs slot_history_def split: if_splits)+

subsection \<open>Every operation keeps the invariant\<close>

lemma life_run_ok:
  assumes "life_at l sc ru co cl ha n s live q" "q \<noteq> 0"
  shows "\<exists>l'. life_do l Run = Inr l' \<and> life_ok l'"
proof -
  let ?p = "(lf_proc l)\<lparr>pr_queue := pr_queue (lf_proc l) - 1\<rparr>"
  have sh: "life_shape (lf_wakers l) (lf_polls l) (lf_made l) (lf_got l) sc ru co cl ha n s live q" and ha: "ha = lf_handle l"
    and at: "proc_at (lf_proc l) sc ru co cl ha n s live q" using assms(1) by (auto simp: life_at_def)
  have qu: "pr_queue (lf_proc l) = q" using at by (auto simp: proc_at_def)
  note q = shape_queued [OF sh assms(2)]
  have p: "proc_at ?p sc ru co cl ha n s True (q - 1)" using proc_at_parts(2) [OF at, of "q - 1"] qu q(4) by simp
  obtain b p' where p': "tick_begin ?p = Inr (b, p')" "b \<longrightarrow> pr_slot p' = FutureIn"
      "life_at (l\<lparr>lf_proc := p', lf_polls := lf_polls l + of_bool b\<rparr>) (sc \<and> cl) (ru \<or> \<not> cl) co cl ha
         (if cl then n - 1 else n) (if cl then Vacant else s) (cl \<longrightarrow> n \<noteq> 1 \<or> ha) (q - 1)"
  proof (cases cl)
    case True
    obtain p' where "tick_begin ?p = Inr (False, p')" "proc_at p' sc ru co cl ha (n - 1) Vacant (n \<noteq> 1 \<or> ha) (q - 1)"
      using tick_begin_at(2) [OF p True q(1,2)] by blast
    then show ?thesis using that [of False p'] q(6) ha True by (simp add: life_at_def)
  next
    case False
    obtain p' where x: "tick_begin ?p = Inr (True, p')" "proc_at p' False True co cl ha n s True (q - 1)"
      using tick_begin_at(1) [OF p False] by blast
    moreover have "pr_slot p' = FutureIn" using x(2) q(1) by (auto simp: proc_at_def)
    ultimately show ?thesis using that q(5) [OF False] ha False by (simp add: life_at_def)
  qed
  then have "life_ok (l\<lparr>lf_proc := p', lf_polls := lf_polls l + of_bool b\<rparr>)" unfolding life_ok_def by blast
  then show ?thesis using p'(1,2) assms(2) qu by auto
qed

lemma life_handle_poll_ok:
  assumes "life_at l sc ru co cl True n s live q"
  shows "\<exists>l'. life_do l (HandlePoll w) = Inr l' \<and> life_ok l'"
proof -
  have sh: "life_shape (lf_wakers l) (lf_polls l) (lf_made l) (lf_got l) sc ru co cl True n s live q" and ha: "lf_handle l"
    and at0: "proc_at (lf_proc l) sc ru co cl True n s live q" using assms(1) by (auto simp: life_at_def)
  note h = shape_handle [OF sh]
  have at: "proc_at (lf_proc l) sc ru co cl True n s True q" using at0 h(1) by simp
  have same: "life_ok (l\<lparr>lf_proc := p', lf_got := lf_got l @ []\<rparr>)" if "proc_at p' sc ru co cl True n s True q" for p'
  proof -
    have "life_at (l\<lparr>lf_proc := p', lf_got := lf_got l @ []\<rparr>) sc ru co cl True n s True q"
      using sh ha that h(1) by (simp add: life_at_def)
    then show ?thesis unfolding life_ok_def by blast
  qed
  have taken: "life_ok (l\<lparr>lf_proc := p', lf_got := lf_got l @ [out]\<rparr>)"
    if "co" "\<not> cl" "s = OutputIn out" "proc_at p' sc ru co True True n Vacant True q" for p' out
  proof -
    have "life_at (l\<lparr>lf_proc := p', lf_got := lf_got l @ [out]\<rparr>) sc ru co True True n Vacant True q"
      using h(3) [OF that(1-3)] ha that(4) by (simp add: life_at_def)
    then show ?thesis unfolding life_ok_def by blast
  qed
  show ?thesis
    using handle_poll_at [OF at, where w = w] same taken h(2) ha by (cases cl; cases co) fastforce+
qed

lemma life_handle_drop_ok:
  assumes "life_at l sc ru co cl True n s live q"
  shows "\<exists>l'. life_do l HandleDrop = Inr l' \<and> life_ok l'"
proof -
  have sh: "life_shape (lf_wakers l) (lf_polls l) (lf_made l) (lf_got l) sc ru co cl True n s live q" and ha: "lf_handle l"
    and at0: "proc_at (lf_proc l) sc ru co cl True n s live q" using assms(1) by (auto simp: life_at_def)
  note h = shape_handle [OF sh]
  have at: "proc_at (lf_proc l) sc ru co cl True n s True q" using at0 h(1) by simp
  note d = handle_drop_at [OF at h(2)]
  show ?thesis
  proof (cases "n = 0 \<and> \<not> cl \<and> \<not> co")
    case True
    then show ?thesis using d h(4) set_proc_ok [of "handle_drop (lf_proc l)" True False False True False 1 s True "q + 1" "l\<lparr>lf_handle := False\<rparr>"] ha
      by simp
  next
    case False
    have "\<exists>l'. set_proc (l\<lparr>lf_handle := False\<rparr>) (handle_drop (lf_proc l)) = Inr l' \<and> life_ok l'"
      by (rule set_proc_ok [OF d [unfolded if_not_P [OF False]]]) (use h(5) [OF False] in simp_all)
    then show ?thesis using ha by simp
  qed
qed

lemma life_waker_ok:
  assumes "life_at l sc ru co cl ha n s live q" "lf_wakers l \<noteq> 0"
  shows "\<exists>l'. life_do l Wake = Inr l' \<and> life_ok l'" "\<exists>l'. life_do l DropWaker = Inr l' \<and> life_ok l'"
proof -
  let ?l = "l\<lparr>lf_wakers := lf_wakers l - 1\<rparr>"
  have sh: "life_shape (lf_wakers l) (lf_polls l) (lf_made l) (lf_got l) sc ru co cl ha n s live q" and ha: "ha = lf_handle l"
    and at0: "proc_at (lf_proc l) sc ru co cl ha n s live q" using assms(1) by (auto simp: life_at_def)
  have n: "0 < n" "live" using sh assms(2) by (auto simp: life_shape_def)
  have at: "proc_at (lf_proc l) sc ru co cl ha n s True q" using at0 n by simp
  have w: "gives (wake (lf_proc l)) (sc \<or> \<not> (co \<or> cl)) ru co cl ha (if co \<or> cl \<or> sc \<or> ru then n - 1 else n) s
     (co \<or> cl \<or> sc \<or> ru \<longrightarrow> n \<noteq> 1 \<or> ha) (if co \<or> cl \<or> sc \<or> ru then q else q + 1)"
    using wake_at [OF at n(1)] by (cases sc; cases ru; cases co; cases cl; simp)
  have "\<exists>l'. set_proc ?l (wake (lf_proc l)) = Inr l' \<and> life_ok l'"
    by (rule set_proc_ok [OF w]) (use ha shape_wake(1) [OF sh assms(2)] in simp_all)
  moreover have "\<exists>l'. set_proc ?l (decrement (lf_proc l)) = Inr l' \<and> life_ok l'"
    by (rule set_proc_ok [OF decrement_at [OF at n(1)]]) (use ha shape_wake(2) [OF sh assms(2)] in simp_all)
  ultimately show "\<exists>l'. life_do l Wake = Inr l' \<and> life_ok l'" "\<exists>l'. life_do l DropWaker = Inr l' \<and> life_ok l'"
    using assms(2) by simp_all
qed

lemma life_ref_ok:
  assumes "life_at l sc ru co cl ha n s live q" "lf_wakers l + lf_polls l \<noteq> 0"
  shows "\<exists>l'. life_do l WakeByRef = Inr l' \<and> life_ok l'"
    and "life_do l CloneWaker = Inl Aborting \<or> (\<exists>l'. life_do l CloneWaker = Inr l' \<and> life_ok l')"
proof -
  have sh: "life_shape (lf_wakers l) (lf_polls l) (lf_made l) (lf_got l) sc ru co cl ha n s live q" and ha: "ha = lf_handle l"
    and at0: "proc_at (lf_proc l) sc ru co cl ha n s live q" using assms(1) by (auto simp: life_at_def)
  have n: "live" "n + 1 < 2 ^ 32" using sh assms(2) by (auto simp: shape_defs split: if_splits)
  have at: "proc_at (lf_proc l) sc ru co cl ha n s True q" using at0 n(1) by simp
  have w: "gives (wake_by_ref (lf_proc l)) (sc \<or> \<not> (co \<or> cl)) ru co cl ha (if co \<or> cl \<or> sc \<or> ru then n else n + 1) s True
       (if co \<or> cl \<or> sc \<or> ru then q else q + 1)"
    using wake_by_ref_at [OF at n(2)] by (cases sc; cases ru; cases co; cases cl; simp)
  have "\<exists>l'. set_proc l (wake_by_ref (lf_proc l)) = Inr l' \<and> life_ok l'"
    by (rule set_proc_ok [OF w ha shape_wake_by_ref [OF sh assms(2)]])
  then show "\<exists>l'. life_do l WakeByRef = Inr l' \<and> life_ok l'" using assms(2) by auto
  show "life_do l CloneWaker = Inl Aborting \<or> (\<exists>l'. life_do l CloneWaker = Inr l' \<and> life_ok l')"
  proof (cases "n > 2147483647")
    case True
    then show ?thesis using clone_waker_at [OF at n(2)] assms(2) by (auto simp: set_proc_def)
  next
    case False
    have "\<exists>l'. set_proc (l\<lparr>lf_wakers := lf_wakers l + 1\<rparr>) (clone_waker (lf_proc l)) = Inr l' \<and> life_ok l'"
      by (rule set_proc_ok [OF clone_waker_at [OF at n(2), unfolded if_not_P [OF False]]])
         (use ha shape_clone [OF sh _ assms(2)] False in simp_all)
    then show ?thesis using assms(2) by auto
  qed
qed

lemma life_poll_ok:
  assumes "life_at l sc ru co cl ha n s live q" "lf_polls l \<noteq> 0"
  shows "\<exists>l'. life_do l (PollReady out) = Inr l' \<and> life_ok l'" "\<exists>l'. life_do l PollPending = Inr l' \<and> life_ok l'"
    "\<exists>l'. life_do l PollPanic = Inr l' \<and> life_ok l'"
proof -
  have sh: "life_shape (lf_wakers l) (lf_polls l) (lf_made l) (lf_got l) sc ru co cl ha n s live q" and ha: "ha = lf_handle l"
    and at0: "proc_at (lf_proc l) sc ru co cl ha n s live q" using assms(1) by (auto simp: life_at_def)
  note r = shape_running [OF sh assms(2)]
  have at: "proc_at (lf_proc l) sc ru co False ha n FutureIn True q" using at0 r(1,4,5) by simp
  have w: "gives (tick_pending (lf_proc l)) sc False co cl ha (if sc then n else n - 1) s (sc \<or> n \<noteq> 1 \<or> ha) (if sc then q + 1 else q)"
    using tick_pending_at [OF at r(2)] r(1,4) by (cases sc; simp)
  have "\<exists>l'. set_proc (l\<lparr>lf_polls := lf_polls l - 1, lf_made := lf_made l @ [out]\<rparr>) (tick_ready (lf_proc l) out) = Inr l' \<and> life_ok l'"
    by (rule set_proc_ok [OF tick_ready_at [OF at r(2)]]) (use ha r(6) in simp_all)
  moreover have "\<exists>l'. set_proc (l\<lparr>lf_polls := lf_polls l - 1\<rparr>) (tick_pending (lf_proc l)) = Inr l' \<and> life_ok l'"
    by (rule set_proc_ok [OF w]) (use ha r(7) in simp_all)
  moreover have "\<exists>l'. set_proc (l\<lparr>lf_polls := lf_polls l - 1\<rparr>) (guard_drop (lf_proc l)) = Inr l' \<and> life_ok l'"
    by (rule set_proc_ok [OF guard_drop_at [OF at r(2)]]) (use ha r(8) in simp_all)
  ultimately show "\<exists>l'. life_do l (PollReady out) = Inr l' \<and> life_ok l'" "\<exists>l'. life_do l PollPending = Inr l' \<and> life_ok l'"
    "\<exists>l'. life_do l PollPanic = Inr l' \<and> life_ok l'" using assms(2) by simp_all
qed

lemma life_proc_ok:
  assumes "life_at l sc ru co cl ha n s live q" "q \<noteq> 0"
  shows "\<exists>l'. life_do l DropProc = Inr l' \<and> life_ok l'" "\<exists>l'. life_do l CancelProc = Inr l' \<and> life_ok l'"
proof -
  have sh: "life_shape (lf_wakers l) (lf_polls l) (lf_made l) (lf_got l) sc ru co cl ha n s live q" and ha: "ha = lf_handle l"
    and at0: "proc_at (lf_proc l) sc ru co cl ha n s live q" using assms(1) by (auto simp: life_at_def)
  note q = shape_queued [OF sh assms(2)]
  have at: "proc_at (lf_proc l) sc ru co cl ha n FutureIn True q" using at0 q(1,4) by simp
  have qu: "pr_queue (lf_proc l) = q" using at0 by (auto simp: proc_at_def)
  have "\<exists>l'. set_proc l (lightproc_drop (lf_proc l)) = Inr l' \<and> life_ok l'"
    by (rule set_proc_ok [OF lightproc_drop_at [OF at q(2)] ha]) (use q(3,6) in simp)
  moreover have "\<exists>l'. set_proc l (lightproc_cancel (lf_proc l)) = Inr l' \<and> life_ok l'"
    unfolding lightproc_cancel_def
    by (rule set_proc_ok [OF pdata_cancel_at [OF at] ha]) (use q(1,3,7) in simp)
  ultimately show "\<exists>l'. life_do l DropProc = Inr l' \<and> life_ok l'" "\<exists>l'. life_do l CancelProc = Inr l' \<and> life_ok l'"
    using qu assms(2) by simp_all
qed

lemma life_do_ok:
  assumes "life_ok l"
  shows "life_do l x = Inl Aborting \<or> (\<exists>l'. life_do l x = Inr l' \<and> life_ok l')"
proof -
  obtain sc ru co cl ha n s live q where at: "life_at l sc ru co cl ha n s live q"
    using assms unfolding life_ok_def by blast
  have qu: "pr_queue (lf_proc l) = q" and ha: "ha = lf_handle l" using at by (auto simp: life_at_def proc_at_def)
  show ?thesis
  proof (cases x)
    case Run then show ?thesis using life_run_ok [OF at] assms qu by (cases "q = 0") simp_all
  next
    case (PollReady out) then show ?thesis using life_poll_ok(1) [OF at] assms by (cases "lf_polls l = 0") simp_all
  next
    case PollPending then show ?thesis using life_poll_ok(2) [OF at] assms by (cases "lf_polls l = 0") simp_all
  next
    case PollPanic then show ?thesis using life_poll_ok(3) [OF at] assms by (cases "lf_polls l = 0") simp_all
  next
    case CloneWaker then show ?thesis
      using life_ref_ok(2) [OF at] assms by (cases "lf_wakers l + lf_polls l = 0") simp_all
  next
    case Wake then show ?thesis using life_waker_ok(1) [OF at] assms by (cases "lf_wakers l = 0") simp_all
  next
    case WakeByRef then show ?thesis
      using life_ref_ok(1) [OF at] assms by (cases "lf_wakers l + lf_polls l = 0") simp_all
  next
    case DropWaker then show ?thesis using life_waker_ok(2) [OF at] assms by (cases "lf_wakers l = 0") simp_all
  next
    case DropProc then show ?thesis using life_proc_ok(1) [OF at] assms qu by (cases "q = 0") simp_all
  next
    case CancelProc then show ?thesis using life_proc_ok(2) [OF at] assms qu by (cases "q = 0") simp_all
  next
    case (HandlePoll w) then show ?thesis using life_handle_poll_ok [of l sc ru co cl n s live q w] at assms ha by (cases ha) auto
  next
    case HandleDrop then show ?thesis using life_handle_drop_ok [of l sc ru co cl n s live q] at assms ha by (cases ha) auto
  qed
qed

lemma life_run_safe: "life_ok l \<Longrightarrow> life_run l ops = Inl Aborting \<or> (\<exists>l'. life_run l ops = Inr l' \<and> life_ok l')"
proof (induction ops arbitrary: l)
  case (Cons x xs)
  consider "life_do l x = Inl Aborting" | l' where "life_do l x = Inr l'" "life_ok l'"
    using life_do_ok [OF Cons.prems] by blast
  then show ?case using Cons.IH by cases simp_all
qed simp

lemma life_reach_ok: "life_run life_new ops = Inr l \<Longrightarrow> life_ok l"
  using life_run_safe [OF life_new_ok, of ops] by auto

subsection \<open>The life of a process\<close>

definition references :: "('r, 'w) life \<Rightarrow> nat" where
  "references l = pr_queue (lf_proc l) + lf_polls l + lf_wakers l"

lemma life_ok_facts:
  assumes "life_ok l"
  shows "pr_live (lf_proc l) \<longleftrightarrow> lf_handle l \<or> 0 < references l"
    and "unat (get_refcount (proc_load (lf_proc l))) = references l"
    and "pr_queue (lf_proc l) + lf_polls l \<le> 1"
    and "lf_got l = [] \<or> lf_got l = lf_made l" "length (lf_made l) \<le> 1"
proof -
  obtain sc ru co cl ha n s live q where at: "life_at l sc ru co cl ha n s live q"
    using assms unfolding life_ok_def by blast
  have sh: "life_shape (lf_wakers l) (lf_polls l) (lf_made l) (lf_got l) sc ru co cl ha n s live q" and ha: "ha = lf_handle l"
    and p: "proc_at (lf_proc l) sc ru co cl ha n s live q" using at by (auto simp: life_at_def)
  have f: "pr_live (lf_proc l) = live" "pr_queue (lf_proc l) = q" using p by (auto simp: proc_at_def)
  obtain f' r where l: "proc_load (lf_proc l) = state_new f' r" "unat r = n" by (rule load_at [OF p])
  have n: "n = references l" using sh f(2) by (simp add: life_shape_def references_def)
  show "pr_live (lf_proc l) \<longleftrightarrow> lf_handle l \<or> 0 < references l" using sh f(1) n ha by (auto simp: life_shape_def)
  show "unat (get_refcount (proc_load (lf_proc l))) = references l" using l n by simp
  show "pr_queue (lf_proc l) + lf_polls l \<le> 1" using sh f(2) by (auto simp: shape_defs split: if_splits)
  show "lf_got l = [] \<or> lf_got l = lf_made l" "length (lf_made l) \<le> 1"
    using sh by (auto simp: life_shape_def slot_history_def split: slot.splits)
qed


lemma scheduled_runs:
  assumes "life_at l True ru False False ha n s live q"
  shows "pr_queue (lf_proc l) = 1 \<or>
    lf_polls l = 1 \<and> (\<exists>l'. life_do l PollPending = Inr l' \<and> pr_queue (lf_proc l') = 1)"
proof (cases ru)
  case False
  then show ?thesis using assms by (auto simp: life_at_def shape_defs proc_at_def)
next
  case True
  have sh: "life_shape (lf_wakers l) (lf_polls l) (lf_made l) (lf_got l) True ru False False ha n s live q"
    using assms unfolding life_at_def by blast
  have run: "lf_polls l = 1" "q = 0" using sh True by (auto simp: shape_defs)
  then have "lf_polls l \<noteq> 0" by simp
  note r = shape_running [OF sh this]
  have at: "proc_at (lf_proc l) True ru False False ha n s True q" using assms r(5) by (auto simp: life_at_def)
  have "gives (tick_pending (lf_proc l)) True False False False ha n s True 1"
    using tick_pending_at [OF at r(2)] run(2) by simp
  then show ?thesis using run(1) by (auto simp: gives_def set_proc_def proc_at_def)
qed

text \<open>C18. No wake-up is lost: a waker that wakes a process which is neither completed nor closed
  leaves it queued, or, while the future is being polled, queued again as soon as the poll
  returns pending.\<close>

theorem wakeups_not_lost:
  assumes "life_run life_new ops = Inr l" "0 < lf_wakers l" "x = Wake \<or> x = WakeByRef"
    and "\<not> intersects (get_flags (proc_load (lf_proc l))) (COMPLETED OR CLOSED)"
  shows "\<exists>l'. life_do l x = Inr l' \<and> (pr_queue (lf_proc l') = 1 \<or>
    lf_polls l' = 1 \<and> (\<exists>l''. life_do l' PollPending = Inr l'' \<and> pr_queue (lf_proc l'') = 1))"
proof -
  obtain sc ru co cl ha n s live q where at0: "life_at l sc ru co cl ha n s live q"
    using life_reach_ok [OF assms(1)] unfolding life_ok_def by blast
  have sh0: "life_shape (lf_wakers l) (lf_polls l) (lf_made l) (lf_got l) sc ru co cl ha n s live q" and ha: "ha = lf_handle l"
    and p0: "proc_at (lf_proc l) sc ru co cl ha n s live q" using at0 by (auto simp: life_at_def)
  have "\<not> co" "\<not> cl" using assms(4) by - (rule load_at [OF p0], simp)+
  then have co: "co = False" "cl = False" by simp_all
  have n: "0 < n" "live" "n + 1 < 2 ^ 32" using sh0 assms(2) by (auto simp: shape_defs split: if_splits)
  have p: "proc_at (lf_proc l) sc ru False False ha n s True q" using p0 co n(2) by simp
  have wk: "lf_wakers l \<noteq> 0" "lf_wakers l + lf_polls l \<noteq> 0" using assms(2) by simp_all
  have "\<exists>l' n' live' q'. life_do l x = Inr l' \<and> life_at l' True ru False False ha n' s live' q'"
  proof (cases "x = Wake")
    case True
    have w: "gives (wake (lf_proc l)) True ru False False ha (if sc \<or> ru then n - 1 else n) s
        (sc \<or> ru \<longrightarrow> n \<noteq> 1 \<or> ha) (if sc \<or> ru then q else q + 1)"
      using wake_at [OF p n(1)] by (cases sc; cases ru; simp)
    show ?thesis
      using set_proc_at [OF w, of "l\<lparr>lf_wakers := lf_wakers l - 1\<rparr>"] shape_wake(1) [OF sh0 wk(1)] ha co True assms(2) by auto
  next
    case False
    then have x: "x = WakeByRef" using assms(3) by simp
    have w: "gives (wake_by_ref (lf_proc l)) True ru False False ha (if sc \<or> ru then n else n + 1) s True
        (if sc \<or> ru then q else q + 1)"
      using wake_by_ref_at [OF p n(3)] by (cases sc; cases ru; simp)
    show ?thesis
      using set_proc_at [OF w, of l] shape_wake_by_ref [OF sh0 wk(2)] ha co x assms(2) by auto
  qed
  then show ?thesis using scheduled_runs by blast
qed

definition sleeping :: "(nat, nat) life" where
  "sleeping =
     \<lparr>lf_proc = \<lparr>pr_state = word_of HANDLE 1, pr_awaiter = None, pr_slot = FutureIn, pr_live = True, pr_queue = 0, pr_woken = []\<rparr>,
      lf_wakers = 1, lf_polls = 0, lf_handle = True, lf_made = [], lf_got = []\<rparr>"

lemma sleeping_reached: "life_run life_new [Run, CloneWaker, PollPending] = Inr sleeping"
  by code_simp

theorem wakeups_not_lost_witness:
  "\<exists>l'. life_do sleeping Wake = Inr l' \<and> (pr_queue (lf_proc l') = 1 \<or>
    lf_polls l' = 1 \<and> (\<exists>l''. life_do l' PollPending = Inr l'' \<and> pr_queue (lf_proc l'') = 1))"
  by (rule wakeups_not_lost [OF sleeping_reached]) (simp_all add: sleeping_def)


text \<open>The lock around the awaiter excludes nobody.  A thread leaves the loop when it finds the
  lock taken: from any state word with a free lock, when one thread takes the free lock, another that comes next
  goes straight through, and the first follows, so both swap the awaiter at the same time.\<close>

theorem awaiter_lock_not_exclusive:
  "\<exists>a. swap_step new1 (1 :: nat) (swap_step new2 2 (swap_step new1 1 (word_of (f AND flags_not LOCKED) r, \<lambda>_. Spins))) =
     (a, (\<lambda>_. Spins)(1 := Swaps, 2 := Swaps))"
  by (auto simp: acquire_round_def fetch_or_new is_locked_def acquire_flags_def bit_simps fun_upd_twist)

end
