(* ===== verification/Console.thy ===== *)
theory Console
  imports Prelude "HOL-Library.AList"
begin

text \<open>
  \<open>runtime/console/src\<close>: what the console records about tasks.  The stack of spans, the table of
  call sites, the statistics of tasks, resources and operations with their attributes.  Span
  identifiers, instants and nanoseconds are numbers; counters of wakes and polls do not wrap
  within the life of a server.
\<close>

subsection \<open>The stack of spans\<close>

record context_id =
  cx_id :: nat
  cx_duplicate :: bool

type_synonym span_stack = "context_id list"

definition stack_push :: "span_stack \<Rightarrow> nat \<Rightarrow> bool \<times> span_stack" where
  "stack_push self i =
     (let duplicate = (\<exists>c\<in>set self. cx_id c = i) in (\<not> duplicate, self @ [\<lparr>cx_id = i, cx_duplicate = duplicate\<rparr>]))"

text \<open>The last entry with the identifier is removed.\<close>

fun remove_first :: "nat \<Rightarrow> context_id list \<Rightarrow> (context_id \<times> context_id list) option" where
  "remove_first i [] = None"
| "remove_first i (c # cs) =
     (if cx_id c = i then Some (c, cs) else map_option (\<lambda>(x, r). (x, c # r)) (remove_first i cs))"

definition stack_pop :: "span_stack \<Rightarrow> nat \<Rightarrow> bool \<times> span_stack" where
  "stack_pop self i =
     (case remove_first i (rev self) of
        Some (c, r) \<Rightarrow> (\<not> cx_duplicate c, rev r)
      | None \<Rightarrow> (False, self))"

definition stack_iter :: "span_stack \<Rightarrow> nat list" where
  "stack_iter self = map cx_id (filter (\<lambda>c. \<not> cx_duplicate c) self)"

subsection \<open>Call sites\<close>

record callsites =
  cs_array :: "nat option list"
  cs_len :: nat

definition callsites_default :: "nat \<Rightarrow> callsites" where
  "callsites_default mx = \<lparr>cs_array = replicate mx None, cs_len = 0\<rparr>"

text \<open>A place below the length without a call site would be a null pointer, which the code dereferences.\<close>

definition callsites_contains :: "callsites \<Rightarrow> nat \<Rightarrow> bool outcome" where
  "callsites_contains self c =
     bind_outcome (slice (cs_array self) 0 (cs_len self)) (\<lambda>places.
       if None \<in> set (takeWhile (\<lambda>p. p \<noteq> Some c) places) then Panic else Value (Some c \<in> set places))"

definition callsites_insert :: "callsites \<Rightarrow> nat \<Rightarrow> callsites outcome" where
  "callsites_insert self c =
     bind_outcome (callsites_contains self c) (\<lambda>known.
       if known then Value self
       else
         let idx = cs_len self; self' = self\<lparr>cs_len := cs_len self + 1\<rparr> in
         if idx \<le> length (cs_array self) then
           bind_outcome (index_get (cs_array self') idx) (\<lambda>old.
             if old = None then Value (self'\<lparr>cs_array := (cs_array self')[idx := Some c]\<rparr>) else Panic)
         else Panic)"

subsection \<open>Attributes\<close>

datatype field_value = BoolVal bool | StrVal string | DebugVal string | U64Val u64 | I64Val "64 word"

datatype update_op = Add | Override | Sub

record field =
  fd_name :: "string option"
  fd_value :: "field_value option"
  fd_metadata_id :: "nat option"

record attribute_update =
  up_field :: field
  up_op :: "update_op option"
  up_unit :: "string option"

record attribute =
  at_field :: "field option"
  at_unit :: "string option"

definition u64_saturating_add :: "u64 \<Rightarrow> u64 \<Rightarrow> u64" where
  "u64_saturating_add a b = (if unat a + unat b < 2 ^ 64 then a + b else - 1)"

definition u64_saturating_sub :: "u64 \<Rightarrow> u64 \<Rightarrow> u64" where
  "u64_saturating_sub a b = (if b \<le> a then a - b else 0)"

text \<open>The signed operations clamp to the ends of the range.\<close>

definition i64_clamp :: "int \<Rightarrow> 64 word" where
  "i64_clamp i = word_of_int (max (- (2 ^ 63)) (min (2 ^ 63 - 1) i))"

fun update_value :: "update_op option \<Rightarrow> field_value option \<Rightarrow> field_value option \<Rightarrow> field_value option" where
  "update_value oper (Some (BoolVal v)) (Some (BoolVal upd)) = Some (BoolVal upd)"
| "update_value oper (Some (StrVal v)) (Some (StrVal upd)) = Some (StrVal upd)"
| "update_value oper (Some (DebugVal v)) (Some (DebugVal upd)) = Some (DebugVal upd)"
| "update_value oper (Some (U64Val v)) (Some (U64Val upd)) =
     Some (U64Val (case oper of
        Some Add \<Rightarrow> u64_saturating_add v upd | Some Sub \<Rightarrow> u64_saturating_sub v upd | Some Override \<Rightarrow> upd | None \<Rightarrow> v))"
| "update_value oper (Some (I64Val v)) (Some (I64Val upd)) =
     Some (I64Val (case oper of
        Some Add \<Rightarrow> i64_clamp (sint v + sint upd) | Some Sub \<Rightarrow> i64_clamp (sint v - sint upd)
      | Some Override \<Rightarrow> upd | None \<Rightarrow> v))"
| "update_value oper v upd = v"

definition update_attribute :: "attribute \<Rightarrow> attribute_update \<Rightarrow> attribute" where
  "update_attribute self upd =
     (case at_field self of
        None \<Rightarrow> self
      | Some f \<Rightarrow> self\<lparr>at_field := Some (f\<lparr>fd_value := update_value (up_op upd) (fd_value f) (fd_value (up_field upd))\<rparr>)\<rparr>)"

definition attribute_from :: "attribute_update \<Rightarrow> attribute" where
  "attribute_from upd = \<lparr>at_field = Some (up_field upd), at_unit = up_unit upd\<rparr>"

text \<open>A hash map is an association list with distinct keys; the order of its entries carries no meaning.\<close>

type_synonym attributes = "((nat \<times> string) \<times> attribute) list"

definition attributes_update :: "attributes \<Rightarrow> nat \<Rightarrow> attribute_update \<Rightarrow> attributes" where
  "attributes_update self i upd =
     (case fd_name (up_field upd) of
        None \<Rightarrow> self
      | Some name \<Rightarrow>
          (case map_of self (i, name) of
             Some attr \<Rightarrow> AList.update (i, name) (update_attribute attr upd) self
           | None \<Rightarrow> AList.update (i, name) (attribute_from upd) self))"

subsection \<open>Statistics\<close>

record histogram =
  hi_recorded :: "nat list"
  hi_max :: nat
  hi_outliers :: nat
  hi_max_outlier :: "nat option"

fun option_max :: "nat option \<Rightarrow> nat option \<Rightarrow> nat option" where
  "option_max None b = b"
| "option_max a None = a"
| "option_max (Some a) (Some b) = Some (max a b)"

definition record_poll_duration :: "histogram \<Rightarrow> nat \<Rightarrow> histogram" where
  "record_poll_duration self duration_ns =
     (if duration_ns > hi_max self
      then self\<lparr>hi_outliers := hi_outliers self + 1, hi_max_outlier := option_max (hi_max_outlier self) (Some duration_ns),
                hi_recorded := hi_recorded self @ [hi_max self]\<rparr>
      else self\<lparr>hi_recorded := hi_recorded self @ [duration_ns]\<rparr>)"

text \<open>The statistics are kept for tasks with a histogram and for operations without one; the count of the polls in
  progress is a machine word.\<close>

record 'h poll_stats =
  ps_current_polls :: u64
  ps_polls :: nat
  ps_first_poll :: "nat option"
  ps_last_started :: "nat option"
  ps_last_ended :: "nat option"
  ps_busy_time :: nat
  ps_histogram :: 'h

definition histogram_new :: "nat \<Rightarrow> histogram" where
  "histogram_new mx = \<lparr>hi_recorded = [], hi_max = mx, hi_outliers = 0, hi_max_outlier = None\<rparr>"

definition poll_stats_new :: "'h \<Rightarrow> 'h poll_stats" where
  "poll_stats_new h =
     \<lparr>ps_current_polls = 0, ps_polls = 0, ps_first_poll = None, ps_last_started = None, ps_last_ended = None,
      ps_busy_time = 0, ps_histogram = h\<rparr>"

definition start_poll :: "'h poll_stats \<Rightarrow> nat \<Rightarrow> 'h poll_stats" where
  "start_poll self at =
     (let self' = self\<lparr>ps_current_polls := ps_current_polls self + 1\<rparr> in
      if ps_current_polls self = 0
      then self'\<lparr>ps_first_poll := (if ps_first_poll self' = None then Some at else ps_first_poll self'),
                 ps_last_started := Some at, ps_polls := ps_polls self' + 1\<rparr>
      else self')"

text \<open>An end before its start is clock skew and not counted.  The first argument records a duration.\<close>

definition end_poll :: "('h \<Rightarrow> nat \<Rightarrow> 'h) \<Rightarrow> 'h poll_stats \<Rightarrow> nat \<Rightarrow> 'h poll_stats" where
  "end_poll rec self at =
     (let self' = self\<lparr>ps_current_polls := ps_current_polls self - 1\<rparr> in
      if ps_current_polls self > 1 then self'
      else case ps_last_started self' of
        None \<Rightarrow> self'
      | Some started \<Rightarrow>
          let self'' = self'\<lparr>ps_last_ended := Some at\<rparr> in
          if at < started then self''
          else self''\<lparr>ps_histogram := rec (ps_histogram self'') (at - started),
                      ps_busy_time := ps_busy_time self'' + (at - started)\<rparr>)"

record task_stats =
  ts_is_dirty :: bool
  ts_is_dropped :: bool
  ts_created_at :: nat
  ts_dropped_at :: "nat option"
  ts_last_wake :: "nat option"
  ts_wakes :: nat
  ts_waker_clones :: nat
  ts_waker_drops :: nat
  ts_self_wakes :: nat
  ts_poll_stats :: "histogram poll_stats"

definition task_stats_new :: "nat \<Rightarrow> nat \<Rightarrow> task_stats" where
  "task_stats_new poll_duration_max created_at =
     \<lparr>ts_is_dirty = True, ts_is_dropped = False, ts_created_at = created_at, ts_dropped_at = None, ts_last_wake = None,
      ts_wakes = 0, ts_waker_clones = 1, ts_waker_drops = 0, ts_self_wakes = 0, ts_poll_stats = poll_stats_new (histogram_new poll_duration_max)\<rparr>"

datatype wake_op = WakeOp bool | WakeByRefOp bool | CloneOp | DropOp

definition task_wake :: "task_stats \<Rightarrow> nat \<Rightarrow> bool \<Rightarrow> task_stats" where
  "task_wake self at self_wake =
     (let self1 = self\<lparr>ts_last_wake := option_max (ts_last_wake self) (Some at)\<rparr>;
          self2 = (if self_wake then self1\<lparr>ts_wakes := ts_wakes self1 + 1\<rparr> else self1) in
      self2\<lparr>ts_wakes := ts_wakes self2 + 1\<rparr>)"

definition record_wake_op :: "task_stats \<Rightarrow> wake_op \<Rightarrow> nat \<Rightarrow> task_stats" where
  "record_wake_op self oper at =
     (case oper of
        WakeOp sw \<Rightarrow> task_wake self at sw
      | WakeByRefOp sw \<Rightarrow> task_wake self at sw
      | CloneOp \<Rightarrow> self\<lparr>ts_waker_clones := ts_waker_clones self + 1\<rparr>
      | DropOp \<Rightarrow> self\<lparr>ts_waker_drops := ts_waker_drops self + 1\<rparr>)\<lparr>ts_is_dirty := True\<rparr>"

definition task_start_poll :: "task_stats \<Rightarrow> nat \<Rightarrow> task_stats" where
  "task_start_poll self at = self\<lparr>ts_poll_stats := start_poll (ts_poll_stats self) at, ts_is_dirty := True\<rparr>"

definition task_end_poll :: "task_stats \<Rightarrow> nat \<Rightarrow> task_stats" where
  "task_end_poll self at = self\<lparr>ts_poll_stats := end_poll record_poll_duration (ts_poll_stats self) at, ts_is_dirty := True\<rparr>"

definition drop_task :: "task_stats \<Rightarrow> nat \<Rightarrow> task_stats" where
  "drop_task self dropped_at =
     (if ts_is_dropped self then self
      else self\<lparr>ts_is_dropped := True, ts_dropped_at := Some dropped_at, ts_is_dirty := True\<rparr>)"

definition task_dropped_at :: "task_stats \<Rightarrow> nat option" where
  "task_dropped_at self = (if ts_is_dropped self then ts_dropped_at self else None)"

definition task_take_unsent :: "task_stats \<Rightarrow> bool \<times> task_stats" where
  "task_take_unsent self = (ts_is_dirty self, self\<lparr>ts_is_dirty := False\<rparr>)"

text \<open>Resources have attributes; operations are resources that are polled by a task.\<close>

record resource_stats =
  rs_is_dirty :: bool
  rs_is_dropped :: bool
  rs_created_at :: nat
  rs_dropped_at :: "nat option"
  rs_attributes :: attributes
  rs_inherit_child_attributes :: bool
  rs_parent_id :: "nat option"

definition resource_stats_new :: "nat \<Rightarrow> bool \<Rightarrow> nat option \<Rightarrow> resource_stats" where
  "resource_stats_new created_at inherit parent =
     \<lparr>rs_is_dirty = True, rs_is_dropped = False, rs_created_at = created_at, rs_dropped_at = None,
      rs_attributes = [], rs_inherit_child_attributes = inherit, rs_parent_id = parent\<rparr>"

definition resource_update_attribute :: "resource_stats \<Rightarrow> nat \<Rightarrow> attribute_update \<Rightarrow> resource_stats" where
  "resource_update_attribute self i upd =
     self\<lparr>rs_attributes := attributes_update (rs_attributes self) i upd, rs_is_dirty := True\<rparr>"

definition drop_resource :: "resource_stats \<Rightarrow> nat \<Rightarrow> resource_stats" where
  "drop_resource self dropped_at =
     (if rs_is_dropped self then self
      else self\<lparr>rs_is_dropped := True, rs_dropped_at := Some dropped_at, rs_is_dirty := True\<rparr>)"

definition resource_dropped_at :: "resource_stats \<Rightarrow> nat option" where
  "resource_dropped_at self = (if rs_is_dropped self then rs_dropped_at self else None)"

definition resource_take_unsent :: "resource_stats \<Rightarrow> bool \<times> resource_stats" where
  "resource_take_unsent self = (rs_is_dirty self, self\<lparr>rs_is_dirty := False\<rparr>)"

record async_op_stats =
  ao_task_id :: u64
  ao_stats :: resource_stats
  ao_poll_stats :: "unit poll_stats"

definition async_op_stats_new :: "nat \<Rightarrow> bool \<Rightarrow> nat option \<Rightarrow> async_op_stats" where
  "async_op_stats_new created_at inherit parent =
     \<lparr>ao_task_id = 0, ao_stats = resource_stats_new created_at inherit parent, ao_poll_stats = poll_stats_new ()\<rparr>"

definition async_op_task_id :: "async_op_stats \<Rightarrow> u64 option" where
  "async_op_task_id self = (if ao_task_id self > 0 then Some (ao_task_id self) else None)"

definition async_op_make_dirty :: "async_op_stats \<Rightarrow> async_op_stats" where
  "async_op_make_dirty self = self\<lparr>ao_stats := (ao_stats self)\<lparr>rs_is_dirty := True\<rparr>\<rparr>"

definition set_task_id :: "async_op_stats \<Rightarrow> u64 \<Rightarrow> async_op_stats" where
  "set_task_id self i = async_op_make_dirty (self\<lparr>ao_task_id := i\<rparr>)"

definition async_op_start_poll :: "async_op_stats \<Rightarrow> nat \<Rightarrow> async_op_stats" where
  "async_op_start_poll self at = async_op_make_dirty (self\<lparr>ao_poll_stats := start_poll (ao_poll_stats self) at\<rparr>)"

definition async_op_end_poll :: "async_op_stats \<Rightarrow> nat \<Rightarrow> async_op_stats" where
  "async_op_end_poll self at =
     async_op_make_dirty (self\<lparr>ao_poll_stats := end_poll (\<lambda>h d. h) (ao_poll_stats self) at\<rparr>)"

definition drop_async_op :: "async_op_stats \<Rightarrow> nat \<Rightarrow> async_op_stats" where
  "drop_async_op self dropped_at = self\<lparr>ao_stats := drop_resource (ao_stats self) dropped_at\<rparr>"

definition async_op_dropped_at :: "async_op_stats \<Rightarrow> nat option" where
  "async_op_dropped_at self = resource_dropped_at (ao_stats self)"

definition async_op_take_unsent :: "async_op_stats \<Rightarrow> bool \<times> async_op_stats" where
  "async_op_take_unsent self =
     (rs_is_dirty (ao_stats self), self\<lparr>ao_stats := snd (resource_take_unsent (ao_stats self))\<rparr>)"

subsection \<open>Properties\<close>

text \<open>An entry of the stack is a duplicate exactly when an earlier one has its identifier.\<close>

definition stack_ok :: "span_stack \<Rightarrow> bool" where
  "stack_ok self \<longleftrightarrow> (\<forall>xs c ys. self = xs @ c # ys \<longrightarrow> (cx_duplicate c \<longleftrightarrow> cx_id c \<in> cx_id ` set xs))"

lemma stack_ok_snoc:
  "stack_ok (xs @ [c]) \<longleftrightarrow> stack_ok xs \<and> (cx_duplicate c \<longleftrightarrow> cx_id c \<in> cx_id ` set xs)"
proof (rule iffI)
  assume ok: "stack_ok (xs @ [c])"
  have "stack_ok xs" unfolding stack_ok_def
  proof (intro allI impI)
    fix as b bs assume "xs = as @ b # bs"
    then have "xs @ [c] = as @ b # (bs @ [c])" by simp
    then show "cx_duplicate b \<longleftrightarrow> cx_id b \<in> cx_id ` set as" using ok unfolding stack_ok_def by blast
  qed
  moreover have "cx_duplicate c \<longleftrightarrow> cx_id c \<in> cx_id ` set xs" using ok unfolding stack_ok_def by blast
  ultimately show "stack_ok xs \<and> (cx_duplicate c \<longleftrightarrow> cx_id c \<in> cx_id ` set xs)" by blast
next
  assume ok: "stack_ok xs \<and> (cx_duplicate c \<longleftrightarrow> cx_id c \<in> cx_id ` set xs)"
  show "stack_ok (xs @ [c])" unfolding stack_ok_def
  proof (intro allI impI)
    fix as b bs assume e: "xs @ [c] = as @ b # bs"
    show "cx_duplicate b \<longleftrightarrow> cx_id b \<in> cx_id ` set as"
    proof (cases bs rule: rev_cases)
      case Nil
      then show ?thesis using e ok by simp
    next
      case (snoc bs' x)
      then have "xs = as @ b # bs'" using e by simp
      then show ?thesis using ok unfolding stack_ok_def by blast
    qed
  qed
qed

lemma stack_push_ok: "stack_ok self \<Longrightarrow> stack_ok (snd (stack_push self i))"
  by (auto simp: stack_push_def stack_ok_snoc Let_def)

lemma stack_push_first: "fst (stack_push self i) \<longleftrightarrow> i \<notin> cx_id ` set self"
  by (auto simp: stack_push_def Let_def)

lemma remove_first_Some:
  "remove_first i xs = Some (c, r) \<Longrightarrow> \<exists>as bs. xs = as @ c # bs \<and> r = as @ bs \<and> cx_id c = i \<and> i \<notin> cx_id ` set as"
proof (induction xs arbitrary: r)
  case (Cons d xs)
  show ?case
  proof (cases "cx_id d = i")
    case True
    then show ?thesis using Cons.prems by (intro exI [of _ "[]"] exI [of _ xs]) auto
  next
    case False
    then obtain r' where r': "remove_first i xs = Some (c, r')" "r = d # r'" using Cons.prems by auto
    obtain as bs where "xs = as @ c # bs" "r' = as @ bs" "cx_id c = i" "i \<notin> cx_id ` set as" using Cons.IH [OF r'(1)] by blast
    then show ?thesis using r'(2) False by (intro exI [of _ "d # as"] exI [of _ bs]) auto
  qed
qed simp

lemma stack_ok_remove: "\<lbrakk>stack_ok (as @ c # bs); cx_id c \<notin> cx_id ` set bs\<rbrakk> \<Longrightarrow> stack_ok (as @ bs)"
proof (induction bs rule: rev_induct)
  case Nil
  then show ?case by (simp add: stack_ok_snoc)
next
  case (snoc d bs)
  have "stack_ok ((as @ c # bs) @ [d])" using snoc.prems(1) by simp
  then have "stack_ok (as @ c # bs)" "cx_duplicate d \<longleftrightarrow> cx_id d \<in> cx_id ` set (as @ c # bs)"
    unfolding stack_ok_snoc by blast+
  then have "stack_ok (as @ bs)" "cx_duplicate d \<longleftrightarrow> cx_id d \<in> cx_id ` set (as @ bs)"
    using snoc.IH snoc.prems(2) by auto
  then show ?case using stack_ok_snoc [of "as @ bs" d] by simp
qed

lemma stack_pop_ok: "stack_ok self \<Longrightarrow> stack_ok (snd (stack_pop self i))"
proof (cases "remove_first i (rev self)")
  case (Some cr)
  assume ok: "stack_ok self"
  obtain c r where cr: "cr = (c, r)" by (cases cr)
  obtain as bs where ab: "rev self = as @ c # bs" "r = as @ bs" "cx_id c = i" "i \<notin> cx_id ` set as"
    using remove_first_Some [OF Some [unfolded cr]] by blast
  have "self = rev (as @ c # bs)" by (simp only: ab(1) [symmetric] rev_rev_ident)
  then have "self = rev bs @ c # rev as" by simp
  then have "stack_ok (rev bs @ rev as)" using stack_ok_remove [of "rev bs" c "rev as"] ok ab(3,4) by simp
  then show ?thesis using Some cr ab(2) by (simp add: stack_pop_def)
qed (simp add: stack_pop_def)

text \<open>Leaving the span that was entered last undoes entering it.\<close>

lemma stack_push_pop: "stack_pop (snd (stack_push self i)) i = (fst (stack_push self i), self)"
  by (simp add: stack_push_def stack_pop_def Let_def)

lemma stack_iter_distinct: "stack_ok self \<Longrightarrow> distinct (stack_iter self) \<and> set (stack_iter self) = cx_id ` set self"
proof (induction self rule: rev_induct)
  case (snoc c xs)
  then show ?case by (auto simp: stack_ok_snoc stack_iter_def image_iff)
qed (simp add: stack_iter_def stack_ok_def)

text \<open>A table with room takes every call site once.\<close>

definition callsites_ok :: "callsites \<Rightarrow> nat list \<Rightarrow> bool" where
  "callsites_ok self known \<longleftrightarrow>
     distinct known \<and> cs_len self = length known \<and> length known \<le> length (cs_array self) \<and>
     cs_array self = map Some known @ replicate (length (cs_array self) - length known) None"

lemma callsites_contains_ok: "callsites_ok self known \<Longrightarrow> callsites_contains self c = Value (c \<in> set known)"
proof -
  assume ok: "callsites_ok self known"
  have "take (length known) (cs_array self) = map Some known" using ok by (metis append_eq_conv_conj callsites_ok_def length_map)
  then have "slice (cs_array self) 0 (cs_len self) = Value (map Some known)" using ok by (simp add: slice_def callsites_ok_def)
  then show ?thesis by (auto simp: callsites_contains_def dest: set_takeWhileD)
qed

lemma callsites_insert_ok:
  assumes "callsites_ok self known" "c \<in> set known \<or> length known < length (cs_array self)"
  shows "\<exists>self'. callsites_insert self c = Value self' \<and> callsites_ok self' (if c \<in> set known then known else known @ [c])"
proof (cases "c \<in> set known")
  case True
  then show ?thesis using assms(1) callsites_contains_ok [OF assms(1)] by (simp add: callsites_insert_def)
next
  case False
  have len: "length known < length (cs_array self)" using assms(2) False by blast
  obtain m where m: "length (cs_array self) - length known = Suc m" using len by (metis Suc_diff_Suc)
  have arr: "cs_array self = map Some known @ None # replicate m None" using assms(1) m by (simp add: callsites_ok_def)
  have "callsites_insert self c = Value \<lparr>cs_array = (cs_array self)[length known := Some c], cs_len = length known + 1\<rparr>"
    using assms(1) False callsites_contains_ok [OF assms(1), of c] len arr
    by (cases self) (simp add: callsites_insert_def callsites_ok_def index_get_def nth_append Let_def)
  moreover have "(cs_array self)[length known := Some c] = map Some (known @ [c]) @ replicate m None"
    using arr by (simp add: list_update_append)
  ultimately show ?thesis using assms(1) False len m by (auto simp: callsites_ok_def)
qed

text \<open>A full table panics on a new call site: the bound of the check is one too high, and the other branch is not
  written.\<close>

lemma callsites_full:
  assumes "callsites_ok self known" "c \<notin> set known" "length known = length (cs_array self)"
  shows "callsites_insert self c = Panic"
  using assms callsites_contains_ok [OF assms(1), of c]
  by (simp add: callsites_insert_def callsites_ok_def index_get_def Let_def)

text \<open>Polls that do not overlap are counted and their durations add up.\<close>

lemma start_end_poll:
  assumes "ps_current_polls self = 0" "at \<le> at'"
  shows "let s = end_poll rec (start_poll self at) at' in
    ps_current_polls s = 0 \<and> ps_polls s = ps_polls self + 1 \<and> ps_busy_time s = ps_busy_time self + (at' - at)"
  using assms by (simp add: start_poll_def end_poll_def Let_def)

text \<open>The recorded durations never exceed the maximum of the histogram.\<close>

lemma record_poll_duration_le:
  "\<forall>d\<in>set (hi_recorded h). d \<le> hi_max h \<Longrightarrow>
     \<forall>d\<in>set (hi_recorded (record_poll_duration h n)). d \<le> hi_max (record_poll_duration h n)"
  by (auto simp: record_poll_duration_def)

text \<open>A wake by the task itself counts twice, and never as a wake by itself.\<close>

lemma self_wake_counts_twice:
  "ts_wakes (record_wake_op self (WakeOp True) at) = ts_wakes self + 2"
  "ts_self_wakes (record_wake_op self oper at) = ts_self_wakes self"
  by (simp_all add: record_wake_op_def task_wake_def Let_def split: wake_op.splits)

end
