(* ===== verification/Console_Visitors.thy ===== *)
theory Console_Visitors
  imports Console
begin

text \<open>
  \<open>runtime/console/src/visitors.rs\<close>: what the console takes from the fields of a span or an
  event.  A field is recorded with its name and a value of one of the types below; a visitor
  that does not handle a type receives the value as debug output, as the trait provides.
\<close>

datatype recorded = RecDebug string | RecI64 "64 word" | RecU64 u64 | RecBool bool | RecStr string

type_synonym fields = "(string \<times> recorded) list"

abbreviation "LOCATION_FILE \<equiv> ''loc.file''"
abbreviation "LOCATION_LINE \<equiv> ''loc.line''"
abbreviation "LOCATION_COLUMN \<equiv> ''loc.col''"
abbreviation "INHERIT_FIELD_NAME \<equiv> ''inherits_child_attrs''"

record location =
  lo_file :: "string option"
  lo_line :: "u32 option"
  lo_column :: "u32 option"

text \<open>A location is known when all its parts are.\<close>

definition location_of :: "string option \<Rightarrow> u32 option \<Rightarrow> u32 option \<Rightarrow> location option" where
  "location_of file line column =
     (if file \<noteq> None \<and> line \<noteq> None \<and> column \<noteq> None
      then Some \<lparr>lo_file = file, lo_line = line, lo_column = column\<rparr> else None)"

subsection \<open>Resources\<close>

datatype resource_kind = KnownTimer | OtherKind string

record resource_visitor =
  rv_concrete_type :: "string option"
  rv_kind :: "resource_kind option"
  rv_is_internal :: bool
  rv_inherit_child_attrs :: bool
  rv_line :: "u32 option"
  rv_file :: "string option"
  rv_column :: "u32 option"

definition resource_visitor_default :: resource_visitor where
  "resource_visitor_default =
     \<lparr>rv_concrete_type = None, rv_kind = None, rv_is_internal = False, rv_inherit_child_attrs = False,
      rv_line = None, rv_file = None, rv_column = None\<rparr>"

record resource_visitor_result =
  rr_concrete_type :: string
  rr_kind :: resource_kind
  rr_location :: "location option"
  rr_is_internal :: bool
  rr_inherit_child_attrs :: bool

definition resource_record_str :: "resource_visitor \<Rightarrow> string \<Rightarrow> string \<Rightarrow> resource_visitor" where
  "resource_record_str self name v =
     (if name = ''concrete_type'' then self\<lparr>rv_concrete_type := Some v\<rparr>
      else if name = ''kind'' then self\<lparr>rv_kind := Some (if v = ''timer'' then KnownTimer else OtherKind v)\<rparr>
      else if name = LOCATION_FILE then self\<lparr>rv_file := Some v\<rparr>
      else self)"

definition resource_record_bool :: "resource_visitor \<Rightarrow> string \<Rightarrow> bool \<Rightarrow> resource_visitor" where
  "resource_record_bool self name v =
     (if name = ''is_internal'' then self\<lparr>rv_is_internal := v\<rparr>
      else if name = INHERIT_FIELD_NAME then self\<lparr>rv_inherit_child_attrs := v\<rparr>
      else self)"

definition resource_record_u64 :: "resource_visitor \<Rightarrow> string \<Rightarrow> u64 \<Rightarrow> resource_visitor" where
  "resource_record_u64 self name v =
     (if name = LOCATION_LINE then self\<lparr>rv_line := Some (ucast v)\<rparr>
      else if name = LOCATION_COLUMN then self\<lparr>rv_column := Some (ucast v)\<rparr>
      else self)"

definition resource_record :: "resource_visitor \<Rightarrow> string \<times> recorded \<Rightarrow> resource_visitor" where
  "resource_record self fv =
     (case snd fv of
        RecStr v \<Rightarrow> resource_record_str self (fst fv) v
      | RecBool v \<Rightarrow> resource_record_bool self (fst fv) v
      | RecU64 v \<Rightarrow> resource_record_u64 self (fst fv) v
      | RecI64 v \<Rightarrow> self
      | RecDebug v \<Rightarrow> self)"

definition resource_result :: "resource_visitor \<Rightarrow> resource_visitor_result option" where
  "resource_result self =
     (case rv_concrete_type self of
        None \<Rightarrow> None
      | Some concrete_type \<Rightarrow>
          (case rv_kind self of
             None \<Rightarrow> None
           | Some kind \<Rightarrow>
               Some \<lparr>rr_concrete_type = concrete_type, rr_kind = kind,
                 rr_location = location_of (rv_file self) (rv_line self) (rv_column self),
                 rr_is_internal = rv_is_internal self, rr_inherit_child_attrs = rv_inherit_child_attrs self\<rparr>))"

subsection \<open>Fields and tasks\<close>

fun field_value_of :: "recorded \<Rightarrow> field_value" where
  "field_value_of (RecDebug v) = DebugVal v"
| "field_value_of (RecI64 v) = I64Val v"
| "field_value_of (RecU64 v) = U64Val v"
| "field_value_of (RecBool v) = BoolVal v"
| "field_value_of (RecStr v) = StrVal v"

definition field_of :: "nat \<Rightarrow> string \<times> recorded \<Rightarrow> field" where
  "field_of meta_id fv =
     \<lparr>fd_name = Some (fst fv), fd_value = Some (field_value_of (snd fv)), fd_metadata_id = Some meta_id\<rparr>"

record field_visitor =
  fv_fields :: "field list"
  fv_meta_id :: nat

definition field_record :: "field_visitor \<Rightarrow> string \<times> recorded \<Rightarrow> field_visitor" where
  "field_record self fv = self\<lparr>fv_fields := fv_fields self @ [field_of (fv_meta_id self) fv]\<rparr>"

record task_visitor =
  tv_field_visitor :: field_visitor
  tv_line :: "u32 option"
  tv_file :: "string option"
  tv_column :: "u32 option"

definition task_visitor_new :: "nat \<Rightarrow> task_visitor" where
  "task_visitor_new meta_id =
     \<lparr>tv_field_visitor = \<lparr>fv_fields = [], fv_meta_id = meta_id\<rparr>, tv_line = None, tv_file = None, tv_column = None\<rparr>"

definition task_record_field :: "task_visitor \<Rightarrow> string \<times> recorded \<Rightarrow> task_visitor" where
  "task_record_field self fv = self\<lparr>tv_field_visitor := field_record (tv_field_visitor self) fv\<rparr>"

definition task_record :: "task_visitor \<Rightarrow> string \<times> recorded \<Rightarrow> task_visitor" where
  "task_record self fv =
     (case snd fv of
        RecU64 v \<Rightarrow>
          if fst fv = LOCATION_LINE then self\<lparr>tv_line := Some (ucast v)\<rparr>
          else if fst fv = LOCATION_COLUMN then self\<lparr>tv_column := Some (ucast v)\<rparr>
          else task_record_field self fv
      | RecStr v \<Rightarrow>
          if fst fv = LOCATION_FILE then self\<lparr>tv_file := Some v\<rparr> else task_record_field self fv
      | RecDebug v \<Rightarrow> task_record_field self fv
      | RecI64 v \<Rightarrow> task_record_field self fv
      | RecBool v \<Rightarrow> task_record_field self fv)"

definition task_result :: "task_visitor \<Rightarrow> field list \<times> location option" where
  "task_result self =
     (fv_fields (tv_field_visitor self), location_of (tv_file self) (tv_line self) (tv_column self))"

subsection \<open>Operations on resources\<close>

record async_op_visitor =
  av_source :: "string option"
  av_inherit_child_attrs :: bool

definition async_op_visitor_default :: async_op_visitor where
  "async_op_visitor_default = \<lparr>av_source = None, av_inherit_child_attrs = False\<rparr>"

definition async_op_record :: "async_op_visitor \<Rightarrow> string \<times> recorded \<Rightarrow> async_op_visitor" where
  "async_op_record self fv =
     (case snd fv of
        RecStr v \<Rightarrow> if fst fv = ''source'' then self\<lparr>av_source := Some v\<rparr> else self
      | RecBool v \<Rightarrow> if fst fv = INHERIT_FIELD_NAME then self\<lparr>av_inherit_child_attrs := v\<rparr> else self
      | _ \<Rightarrow> self)"

definition async_op_result :: "async_op_visitor \<Rightarrow> (string \<times> bool) option" where
  "async_op_result self = map_option (\<lambda>s. (s, av_inherit_child_attrs self)) (av_source self)"

record poll_op_visitor =
  pv_op_name :: "string option"
  pv_is_ready :: "bool option"

definition poll_op_visitor_default :: poll_op_visitor where
  "poll_op_visitor_default = \<lparr>pv_op_name = None, pv_is_ready = None\<rparr>"

definition poll_op_record :: "poll_op_visitor \<Rightarrow> string \<times> recorded \<Rightarrow> poll_op_visitor" where
  "poll_op_record self fv =
     (case snd fv of
        RecStr v \<Rightarrow> if fst fv = ''op_name'' then self\<lparr>pv_op_name := Some v\<rparr> else self
      | RecBool v \<Rightarrow> if fst fv = ''is_ready'' then self\<lparr>pv_is_ready := Some v\<rparr> else self
      | _ \<Rightarrow> self)"

definition poll_op_result :: "poll_op_visitor \<Rightarrow> (string \<times> bool) option" where
  "poll_op_result self =
     (case (pv_op_name self, pv_is_ready self) of (Some n, Some r) \<Rightarrow> Some (n, r) | _ \<Rightarrow> None)"

subsection \<open>Wakers\<close>

record waker_visitor =
  wv_id :: "nat option"
  wv_op :: "wake_op option"

definition waker_visitor_default :: waker_visitor where
  "waker_visitor_default = \<lparr>wv_id = None, wv_op = None\<rparr>"

text \<open>A span identifier is not zero; making one from zero panics.\<close>

definition span_id_from_u64 :: "u64 \<Rightarrow> nat outcome" where
  "span_id_from_u64 v = (if v = 0 then Panic else Value (unat v))"

definition waker_op_of :: "string \<Rightarrow> wake_op option" where
  "waker_op_of v =
     (if v = ''waker.wake'' then Some (WakeOp False)
      else if v = ''waker.wake_by_ref'' then Some (WakeByRefOp False)
      else if v = ''waker.clone'' then Some CloneOp
      else if v = ''waker.drop'' then Some DropOp
      else None)"

definition waker_record :: "waker_visitor \<Rightarrow> string \<times> recorded \<Rightarrow> waker_visitor outcome" where
  "waker_record self fv =
     (case snd fv of
        RecU64 v \<Rightarrow>
          if fst fv = ''task.id''
          then bind_outcome (span_id_from_u64 v) (\<lambda>i. Value (self\<lparr>wv_id := Some i\<rparr>))
          else Value self
      | RecStr v \<Rightarrow>
          if fst fv = ''op''
          then (case waker_op_of v of Some oper \<Rightarrow> Value (self\<lparr>wv_op := Some oper\<rparr>) | None \<Rightarrow> Value self)
          else Value self
      | _ \<Rightarrow> Value self)"

fun waker_record_all :: "waker_visitor \<Rightarrow> fields \<Rightarrow> waker_visitor outcome" where
  "waker_record_all self [] = Value self"
| "waker_record_all self (fv # fvs) = bind_outcome (waker_record self fv) (\<lambda>self'. waker_record_all self' fvs)"

definition waker_result :: "waker_visitor \<Rightarrow> (nat \<times> wake_op) option" where
  "waker_result self =
     (case (wv_id self, wv_op self) of (Some i, Some oper) \<Rightarrow> Some (i, oper) | _ \<Rightarrow> None)"

subsection \<open>State updates\<close>

record state_update_visitor =
  sv_meta_id :: nat
  sv_field :: "field option"
  sv_unit :: "string option"
  sv_op :: "update_op option"

definition state_update_visitor_new :: "nat \<Rightarrow> state_update_visitor" where
  "state_update_visitor_new meta_id = \<lparr>sv_meta_id = meta_id, sv_field = None, sv_unit = None, sv_op = None\<rparr>"

definition ends_with :: "string \<Rightarrow> string \<Rightarrow> bool" where
  "ends_with s suf \<longleftrightarrow> length suf \<le> length s \<and> drop (length s - length suf) s = suf"

abbreviation "STATE_OP_SUFFIX \<equiv> ''.op''"
abbreviation "STATE_UNIT_SUFFIX \<equiv> ''.unit''"

definition state_update_record_str :: "state_update_visitor \<Rightarrow> string \<Rightarrow> string \<Rightarrow> state_update_visitor" where
  "state_update_record_str self name v =
     (if ends_with name STATE_OP_SUFFIX then
        (if v = ''add'' then self\<lparr>sv_op := Some Add\<rparr>
         else if v = ''sub'' then self\<lparr>sv_op := Some Sub\<rparr>
         else if v = ''override'' then self\<lparr>sv_op := Some Override\<rparr>
         else self)
      else if ends_with name STATE_UNIT_SUFFIX then self\<lparr>sv_unit := Some v\<rparr>
      else self\<lparr>sv_field := Some (field_of (sv_meta_id self) (name, RecStr v))\<rparr>)"

definition state_update_record :: "state_update_visitor \<Rightarrow> string \<times> recorded \<Rightarrow> state_update_visitor" where
  "state_update_record self fv =
     (case snd fv of
        RecStr v \<Rightarrow> state_update_record_str self (fst fv) v
      | _ \<Rightarrow>
          if \<not> ends_with (fst fv) STATE_OP_SUFFIX \<and> \<not> ends_with (fst fv) STATE_UNIT_SUFFIX
          then self\<lparr>sv_field := Some (field_of (sv_meta_id self) fv)\<rparr>
          else self)"

definition state_update_result :: "state_update_visitor \<Rightarrow> attribute_update option" where
  "state_update_result self =
     map_option (\<lambda>f. \<lparr>up_field = f, up_op = sv_op self, up_unit = sv_unit self\<rparr>) (sv_field self)"

subsection \<open>What the visitors find\<close>

text \<open>The last value of a field, as far as it is of the type a visitor looks for.\<close>

definition last_str :: "string \<Rightarrow> fields \<Rightarrow> string option" where
  "last_str name fs =
     foldl (\<lambda>r fv. case snd fv of RecStr v \<Rightarrow> if fst fv = name then Some v else r | _ \<Rightarrow> r) None fs"

definition last_u32 :: "string \<Rightarrow> fields \<Rightarrow> u32 option" where
  "last_u32 name fs =
     foldl (\<lambda>r fv. case snd fv of RecU64 v \<Rightarrow> if fst fv = name then Some (ucast v) else r | _ \<Rightarrow> r) None fs"

fun is_location :: "string \<times> recorded \<Rightarrow> bool" where
  "is_location (name, RecU64 v) \<longleftrightarrow> name = LOCATION_LINE \<or> name = LOCATION_COLUMN"
| "is_location (name, RecStr v) \<longleftrightarrow> name = LOCATION_FILE"
| "is_location (name, v) \<longleftrightarrow> False"

lemmas task_record_defs = task_record_def task_record_field_def field_record_def

lemma last_snoc [simp]:
  "last_str name (fs @ [fv]) = (case snd fv of RecStr v \<Rightarrow> if fst fv = name then Some v else last_str name fs | _ \<Rightarrow> last_str name fs)"
  "last_u32 name (fs @ [fv]) =
     (case snd fv of RecU64 v \<Rightarrow> if fst fv = name then Some (ucast v) else last_u32 name fs | _ \<Rightarrow> last_u32 name fs)"
  by (simp_all add: last_str_def last_u32_def split: recorded.split)

text \<open>A task keeps the fields that are not part of the location, in their order.\<close>

lemma task_visitor_state:
  "foldl task_record (task_visitor_new m) fs =
     \<lparr>tv_field_visitor = \<lparr>fv_fields = map (field_of m) (filter (\<lambda>fv. \<not> is_location fv) fs), fv_meta_id = m\<rparr>,
      tv_line = last_u32 LOCATION_LINE fs, tv_file = last_str LOCATION_FILE fs, tv_column = last_u32 LOCATION_COLUMN fs\<rparr>"
proof (induction fs rule: rev_induct)
  case Nil
  then show ?case by (simp add: task_visitor_new_def last_str_def last_u32_def)
next
  case (snoc fv fs)
  obtain name v where fv: "fv = (name, v)" by (cases fv)
  show ?case using snoc.IH by (cases v) (auto simp: fv task_record_defs)
qed

lemma task_visitor_finds:
  "task_result (foldl task_record (task_visitor_new m) fs) =
     (map (field_of m) (filter (\<lambda>fv. \<not> is_location fv) fs),
      location_of (last_str LOCATION_FILE fs) (last_u32 LOCATION_LINE fs) (last_u32 LOCATION_COLUMN fs))"
  by (simp add: task_result_def task_visitor_state)

text \<open>The events of wakers carry the operation and the task; a task without a span reports zero.\<close>

definition waker_event :: "string \<Rightarrow> u64 option \<Rightarrow> fields" where
  "waker_event oper span = [(''op'', RecStr oper), (''task.id'', RecU64 (case span of Some i \<Rightarrow> i | None \<Rightarrow> 0))]"

lemma waker_event_known:
  "i \<noteq> 0 \<Longrightarrow> waker_op_of oper = Some w \<Longrightarrow>
     waker_record_all waker_visitor_default (waker_event oper (Some i)) = Value \<lparr>wv_id = Some (unat i), wv_op = Some w\<rparr>"
  by (simp add: waker_event_def waker_record_def span_id_from_u64_def waker_visitor_default_def)

lemma waker_event_without_span:
  "waker_record_all waker_visitor_default (waker_event oper None) = Panic"
  by (simp add: waker_event_def waker_record_def span_id_from_u64_def split: option.splits)

end
