(* ===== verification/Pool.thy ===== *)
theory Pool
  imports Lightproc_Correct Executor Console_Visitors
begin

text \<open>
  \<open>runtime/executor/src/pool.rs\<close>: the executor.  A pool holds the processes it spawned, the
  global queue and the queues of its workers.  A process is scheduled on the global queue or,
  when it was spawned locally, on the queue of its worker.  Processes run in any order: a step
  takes a process off some queue, moves one to another queue, or performs an operation of a
  future, a waker or a handle on a process.
\<close>

subsection \<open>The executor\<close>

record worker_queues =
  wq_local :: "nat list"
  wq_tasks :: "nat list"

text \<open>\<open>pl_homes\<close> says for each process where it is scheduled: on the global queue or by a worker;
  \<open>pl_threads\<close> which worker is installed in a thread, \<open>pl_currents\<close> which group is current there;
  \<open>pl_unparked\<close> which workers were woken.\<close>

record ('r, 'w) pool =
  pl_procs :: "('r, 'w) life list"
  pl_homes :: "nat option list"
  pl_groups :: "u64 option list"
  pl_spool :: "nat list"
  pl_workers :: "worker_queues list"
  pl_threads :: "nat \<rightharpoonup> nat"
  pl_currents :: "nat \<rightharpoonup> u64"
  pl_unparked :: "nat list"
  pl_registry :: registry

datatype pool_fault = Faulted fault | Panicking

text \<open>A new executor makes a root group, current in the thread that made it, and starts its threads:
  each installs a worker.\<close>

definition install_worker :: "nat \<Rightarrow> ('r, 'w) pool \<Rightarrow> ('r, 'w) pool" where
  "install_worker thread self =
     self\<lparr>pl_workers := pl_workers self @ [\<lparr>wq_local = [], wq_tasks = []\<rparr>],
          pl_threads := (pl_threads self)(thread \<mapsto> length (pl_workers self))\<rparr>"

definition executor_new :: "u64 option \<Rightarrow> nat \<Rightarrow> nat list \<Rightarrow> registry \<Rightarrow> ('r, 'w) pool outcome" where
  "executor_new slot thread threads reg =
     bind_outcome (new_root_group slot reg) (\<lambda>(cgroup, reg').
       let reg'' = set_current reg' cgroup in
       Value (fold install_worker threads
         \<lparr>pl_procs = [], pl_homes = [], pl_groups = [], pl_spool = [], pl_workers = [], pl_threads = Map.empty,
          pl_currents = [thread \<mapsto> the (rg_current reg'')], pl_unparked = [], pl_registry = reg''\<rparr>))"

definition get_worker :: "nat \<Rightarrow> ('r, 'w) pool \<Rightarrow> nat outcome" where
  "get_worker thread self = (case pl_threads self thread of Some k \<Rightarrow> Value k | None \<Rightarrow> Panic)"

text \<open>The current group, as a thread sees it.\<close>

definition thread_current :: "nat \<Rightarrow> ('r, 'w) pool \<Rightarrow> (u64 option \<times> ('r, 'w) pool) outcome" where
  "thread_current thread self =
     bind_outcome (registry_current ((pl_registry self)\<lparr>rg_current := pl_currents self thread\<rparr>)) (\<lambda>(cgroup, reg).
       Value (cgroup, self\<lparr>pl_registry := reg\<rparr>))"

text \<open>The schedule function of a process.\<close>

definition push_home :: "nat \<Rightarrow> ('r, 'w) pool \<Rightarrow> ('r, 'w) pool" where
  "push_home p self =
     (case pl_homes self ! p of
        None \<Rightarrow> self\<lparr>pl_spool := pl_spool self @ [p]\<rparr>
      | Some k \<Rightarrow>
          self\<lparr>pl_workers := (pl_workers self)[k := (pl_workers self ! k)\<lparr>wq_local := wq_local (pl_workers self ! k) @ [p]\<rparr>],
               pl_unparked := pl_unparked self @ [k]\<rparr>)"

definition spawn_at :: "nat option \<Rightarrow> u64 option \<Rightarrow> ('r, 'w) pool \<Rightarrow> ('r, 'w) pool" where
  "spawn_at home cgroup self =
     push_home (length (pl_procs self))
       (self\<lparr>pl_procs := pl_procs self @ [life_new], pl_homes := pl_homes self @ [home], pl_groups := pl_groups self @ [cgroup]\<rparr>)"

definition pool_spawn :: "nat \<Rightarrow> ('r, 'w) pool \<Rightarrow> ('r, 'w) pool outcome" where
  "pool_spawn thread self =
     bind_outcome (thread_current thread self) (\<lambda>(cgroup, self'). Value (spawn_at None cgroup self'))"

definition pool_spawn_local :: "nat \<Rightarrow> ('r, 'w) pool \<Rightarrow> ('r, 'w) pool outcome" where
  "pool_spawn_local thread self =
     bind_outcome (thread_current thread self) (\<lambda>(cgroup, self').
     bind_outcome (get_worker thread self') (\<lambda>k. Value (spawn_at (Some k) cgroup self')))"

definition pool_spawn_local_cgroup :: "nat \<Rightarrow> u64 \<Rightarrow> ('r, 'w) pool \<Rightarrow> ('r, 'w) pool outcome" where
  "pool_spawn_local_cgroup thread cgroup self =
     bind_outcome (get_worker thread self) (\<lambda>k. Value (spawn_at (Some k) (Some cgroup) self))"

text \<open>The span of a process: where it was spawned, how, and its group.\<close>

definition spawn_fields :: "string \<Rightarrow> string \<Rightarrow> u32 \<Rightarrow> u32 \<Rightarrow> u64 option \<Rightarrow> fields" where
  "spawn_fields kind file line column cgroup =
     [(LOCATION_FILE, RecStr file), (LOCATION_LINE, RecU64 (ucast line)), (LOCATION_COLUMN, RecU64 (ucast column)),
      (''kind'', RecStr kind), (''cgroup'', RecU64 (case cgroup of Some g \<Rightarrow> g | None \<Rightarrow> 0))]"

subsection \<open>Steps\<close>

datatype queue = Spool | LocalQ nat | TasksQ nat

definition queue_of :: "queue \<Rightarrow> ('r, 'w) pool \<Rightarrow> nat list" where
  "queue_of q self =
     (case q of
        Spool \<Rightarrow> pl_spool self
      | LocalQ k \<Rightarrow> if k < length (pl_workers self) then wq_local (pl_workers self ! k) else []
      | TasksQ k \<Rightarrow> if k < length (pl_workers self) then wq_tasks (pl_workers self ! k) else [])"

definition set_queue :: "queue \<Rightarrow> nat list \<Rightarrow> ('r, 'w) pool \<Rightarrow> ('r, 'w) pool" where
  "set_queue q ps self =
     (case q of
        Spool \<Rightarrow> self\<lparr>pl_spool := ps\<rparr>
      | LocalQ k \<Rightarrow> self\<lparr>pl_workers := (pl_workers self)[k := (pl_workers self ! k)\<lparr>wq_local := ps\<rparr>]\<rparr>
      | TasksQ k \<Rightarrow> self\<lparr>pl_workers := (pl_workers self)[k := (pl_workers self ! k)\<lparr>wq_tasks := ps\<rparr>]\<rparr>)"

text \<open>An operation on a process, with the calls of its schedule function.  Running or dropping a process
  takes it off the queue first.\<close>

definition takes_off :: "('r, 'w) life_op \<Rightarrow> nat" where
  "takes_off x = (case x of Run \<Rightarrow> 1 | DropProc \<Rightarrow> 1 | _ \<Rightarrow> 0)"

definition proc_op :: "nat \<Rightarrow> ('r, 'w) life_op \<Rightarrow> ('r, 'w) pool \<Rightarrow> pool_fault + ('r, 'w) pool" where
  "proc_op p x self =
     (case life_do (pl_procs self ! p) x of
        Inl e \<Rightarrow> Inl (Faulted e)
      | Inr l \<Rightarrow>
          let before = pr_queue (lf_proc (pl_procs self ! p)) - takes_off x; calls = pr_queue (lf_proc l) - before in
          Inr ((push_home p ^^ calls) (self\<lparr>pl_procs := (pl_procs self)[p := l]\<rparr>)))"

datatype ('r, 'w) pool_step =
    PSpawn nat | PSpawnLocal nat | PSpawnGroup nat u64
  | PRun queue nat | PDrop queue nat | PMove queue nat nat
  | POp nat "('r, 'w) life_op"

text \<open>A worker moves tasks of the global queue and of other workers to its own queue; nobody moves the tasks that
  were spawned locally.\<close>

definition stolen_from :: "queue \<Rightarrow> bool" where
  "stolen_from q = (case q of LocalQ _ \<Rightarrow> False | _ \<Rightarrow> True)"

definition remove_nth :: "nat \<Rightarrow> 'a list \<Rightarrow> 'a list" where
  "remove_nth i xs = take i xs @ drop (Suc i) xs"

definition in_pool :: "('r, 'w) pool outcome \<Rightarrow> pool_fault + ('r, 'w) pool" where
  "in_pool m = (case m of Value self \<Rightarrow> Inr self | Panic \<Rightarrow> Inl Panicking)"

definition take_and_do :: "('r, 'w) life_op \<Rightarrow> queue \<Rightarrow> nat \<Rightarrow> ('r, 'w) pool \<Rightarrow> pool_fault + ('r, 'w) pool" where
  "take_and_do x q i self =
     (if i < length (queue_of q self)
      then proc_op (queue_of q self ! i) x (set_queue q (remove_nth i (queue_of q self)) self)
      else Inr self)"

fun pool_do :: "('r, 'w) pool_step \<Rightarrow> ('r, 'w) pool \<Rightarrow> pool_fault + ('r, 'w) pool" where
  "pool_do (PSpawn thread) self = in_pool (pool_spawn thread self)"
| "pool_do (PSpawnLocal thread) self = in_pool (pool_spawn_local thread self)"
| "pool_do (PSpawnGroup thread cgroup) self = in_pool (pool_spawn_local_cgroup thread cgroup self)"
| "pool_do (PRun q i) self = take_and_do Run q i self"
| "pool_do (PDrop q i) self = take_and_do DropProc q i self"
| "pool_do (PMove q i k) self =
     (if i < length (queue_of q self) \<and> stolen_from q \<and> k < length (pl_workers self)
      then let p = queue_of q self ! i; self' = set_queue q (remove_nth i (queue_of q self)) self in
        Inr (set_queue (TasksQ k) (queue_of (TasksQ k) self' @ [p]) self')
      else Inr self)"
| "pool_do (POp p x) self =
     (if p < length (pl_procs self) \<and> takes_off x = 0 then proc_op p x self else Inr self)"

fun pool_run :: "('r, 'w) pool_step list \<Rightarrow> ('r, 'w) pool \<Rightarrow> pool_fault + ('r, 'w) pool" where
  "pool_run [] self = Inr self"
| "pool_run (x # xs) self = bind_result (pool_do x self) (pool_run xs)"

subsection \<open>Queues and processes\<close>

text \<open>All queued processes.\<close>

definition queued :: "('r, 'w) pool \<Rightarrow> nat list" where
  "queued self = pl_spool self @ concat (map (\<lambda>w. wq_local w @ wq_tasks w) (pl_workers self))"

definition pool_ok :: "('r, 'w) pool \<Rightarrow> bool" where
  "pool_ok self \<longleftrightarrow>
     length (pl_homes self) = length (pl_procs self) \<and>
     (\<forall>p<length (pl_procs self). life_ok (pl_procs self ! p) \<and>
        count_list (queued self) p = pr_queue (lf_proc (pl_procs self ! p)) \<and>
        (\<forall>k. pl_homes self ! p = Some k \<longrightarrow> k < length (pl_workers self))) \<and>
     set (queued self) \<subseteq> {..<length (pl_procs self)} \<and>
     (\<forall>thread k. pl_threads self thread = Some k \<longrightarrow> k < length (pl_workers self))"

lemma count_concat_update:
  assumes "k < length ws"
  shows "count_list (concat (map f (ws[k := w]))) p + count_list (f (ws ! k)) p = count_list (concat (map f ws)) p + count_list (f w) p"
  using assms
proof (induction ws arbitrary: k)
  case (Cons v ws)
  then show ?case by (cases k) auto
qed simp

lemma count_remove_nth: "i < length xs \<Longrightarrow> count_list (remove_nth i xs) p + of_bool (xs ! i = p) = count_list xs p"
proof -
  assume "i < length xs"
  then have "count_list xs p = count_list (take i xs @ xs ! i # drop (Suc i) xs) p" by (simp add: id_take_nth_drop [symmetric])
  then show ?thesis by (simp add: remove_nth_def)
qed

lemma count_set_queue:
  assumes "\<And>k. q = LocalQ k \<or> q = TasksQ k \<Longrightarrow> k < length (pl_workers self)"
  shows "count_list (queued (set_queue q ps self)) p + count_list (queue_of q self) p =
    count_list (queued self) p + count_list ps p"
proof (cases q)
  case Spool
  then show ?thesis by (simp add: queued_def set_queue_def queue_of_def)
next
  case (LocalQ k)
  then show ?thesis
    using assms count_concat_update [of k "pl_workers self" "\<lambda>w. wq_local w @ wq_tasks w" "(pl_workers self ! k)\<lparr>wq_local := ps\<rparr>" p]
    by (simp add: queued_def set_queue_def queue_of_def)
next
  case (TasksQ k)
  then show ?thesis
    using assms count_concat_update [of k "pl_workers self" "\<lambda>w. wq_local w @ wq_tasks w" "(pl_workers self ! k)\<lparr>wq_tasks := ps\<rparr>" p]
    by (simp add: queued_def set_queue_def queue_of_def)
qed

lemma count_push_home:
  assumes "\<And>k. pl_homes self ! p = Some k \<Longrightarrow> k < length (pl_workers self)"
  shows "count_list (queued (push_home p self)) j = count_list (queued self) j + of_bool (p = j)"
proof (cases "pl_homes self ! p")
  case None
  then show ?thesis by (simp add: push_home_def queued_def)
next
  case (Some k)
  let ?w = "(pl_workers self ! k)\<lparr>wq_local := wq_local (pl_workers self ! k) @ [p]\<rparr>"
  show ?thesis
    using count_concat_update [of k "pl_workers self" "\<lambda>w. wq_local w @ wq_tasks w" ?w j] assms Some
    by (cases "p = j") (simp_all add: push_home_def queued_def)
qed

lemma push_home_parts [simp]:
  "pl_procs (push_home p self) = pl_procs self" "pl_homes (push_home p self) = pl_homes self"
  "length (pl_workers (push_home p self)) = length (pl_workers self)" "pl_threads (push_home p self) = pl_threads self"
  by (simp_all add: push_home_def split: option.splits)

lemma push_home_times [simp]:
  "pl_procs ((push_home p ^^ n) self) = pl_procs self" "pl_homes ((push_home p ^^ n) self) = pl_homes self"
  "length (pl_workers ((push_home p ^^ n) self)) = length (pl_workers self)" "pl_threads ((push_home p ^^ n) self) = pl_threads self"
  by (induction n) simp_all

lemma count_push_times:
  assumes "\<And>k. pl_homes self ! p = Some k \<Longrightarrow> k < length (pl_workers self)"
  shows "count_list (queued ((push_home p ^^ n) self)) j = count_list (queued self) j + (if p = j then n else 0)"
proof (induction n)
  case (Suc n)
  then show ?case using count_push_home [of "(push_home p ^^ n) self" p j] assms by simp
qed simp

subsection \<open>Only the schedule function queues a process\<close>

lemma same_queue:
  "live_proc p = Inr p' \<Longrightarrow> pr_queue p' = pr_queue p"
  "destroy p = Inr p' \<Longrightarrow> pr_queue p' = pr_queue p"
  "decrement p = Inr p' \<Longrightarrow> pr_queue p' = pr_queue p"
  "drop_future p = Inr p' \<Longrightarrow> pr_queue p' = pr_queue p"
  "read_output p = Inr (out, p') \<Longrightarrow> pr_queue p' = pr_queue p"
  "swap_awaiter p new = Inr (old, p') \<Longrightarrow> pr_queue p' = pr_queue p"
  by (auto simp: live_proc_def destroy_def decrement_def drop_future_def read_output_def swap_awaiter_def
    bind_result_Inr_iff Let_def split_beta split: if_splits slot.splits option.splits)

lemma same_queue_notify:
  "notify p = Inr p' \<Longrightarrow> pr_queue p' = pr_queue p"
  "notify_unless p w = Inr p' \<Longrightarrow> pr_queue p' = pr_queue p"
  by (auto simp: notify_def notify_unless_def bind_result_Inr_iff split: if_splits option.splits dest!: same_queue(6))

lemma same_queue_exchange [simp]: "pr_queue (proc_exchange p new) = pr_queue p"
  by (simp add: proc_exchange_def)

lemmas queue_simps = bind_result_Inr_iff Let_def schedule_def split_beta

lemma queue_grows_wake:
  "wake p = Inr p' \<Longrightarrow> pr_queue p \<le> pr_queue p'"
  by (auto simp: wake_def queue_simps split: if_splits dest!: same_queue(1,3))

lemma queue_grows_wake_by_ref:
  "wake_by_ref p = Inr p' \<Longrightarrow> pr_queue p \<le> pr_queue p'"
  by (auto simp: wake_by_ref_def queue_simps split: if_splits dest!: same_queue(1))

lemma queue_grows_clone:
  "clone_waker p = Inr p' \<Longrightarrow> pr_queue p \<le> pr_queue p'"
  by (auto simp: clone_waker_def queue_simps split: if_splits dest!: same_queue(1))

lemma queue_grows_cancel:
  "pdata_cancel p = Inr p' \<Longrightarrow> pr_queue p \<le> pr_queue p'"
  by (cases "pr_live p") (auto simp: pdata_cancel_def live_proc_def queue_simps split: if_splits dest: same_queue_notify(1))

lemma queue_grows_pending:
  "tick_pending p = Inr p' \<Longrightarrow> pr_queue p \<le> pr_queue p'"
  by (auto simp: tick_pending_def queue_simps split: if_splits dest!: same_queue(1,3,4))

lemma queue_grows_release:
  "handle_release p = Inr p' \<Longrightarrow> pr_queue p \<le> pr_queue p'"
  by (auto simp: handle_release_def queue_simps split: if_splits dest!: same_queue(2))

lemma queue_grows_tick:
  "tick_begin p = Inr (b, p') \<Longrightarrow> pr_queue p \<le> pr_queue p'"
  "tick_ready p out = Inr p' \<Longrightarrow> pr_queue p \<le> pr_queue p'"
  "guard_drop p = Inr p' \<Longrightarrow> pr_queue p \<le> pr_queue p'"
  by (auto simp: tick_begin_def tick_ready_def guard_drop_def queue_simps split: if_splits prod.splits
    dest!: same_queue same_queue_notify)

lemma queue_grows_take: "handle_take p w = Inr (r, p') \<Longrightarrow> pr_queue p \<le> pr_queue p'"
  by (auto simp: handle_take_def queue_simps split: if_splits dest!: same_queue(5) same_queue_notify(2))

lemma queue_grows_drop: "handle_drop p = Inr p' \<Longrightarrow> pr_queue p \<le> pr_queue p'"
proof -
  assume h: "handle_drop p = Inr p'"
  obtain res a where c: "compare_exchange (pr_state p) (state_new (SCHEDULED OR HANDLE) 1) (state_new SCHEDULED 1) = (res, a)"
    by (metis prod.collapse)
  show ?thesis using h c
    by (cases res; cases "pr_live p")
       (auto simp: handle_drop_def live_proc_def queue_simps split: if_splits dest!: same_queue(5) queue_grows_release)
qed

lemma queue_grows_poll: "handle_poll p w = Inr (r, p') \<Longrightarrow> pr_queue p \<le> pr_queue p'"
  by (auto simp: handle_poll_def queue_simps split: if_splits dest!: same_queue(1,6) same_queue_notify(2) queue_grows_take)

lemma queue_grows_lightproc_drop: "lightproc_drop p = Inr p' \<Longrightarrow> pr_queue p - 1 \<le> pr_queue p'"
  by (auto simp: lightproc_drop_def bind_result_Inr_iff dest!: same_queue(3,4) queue_grows_cancel)

lemmas queue_grows_all = queue_grows_wake queue_grows_wake_by_ref queue_grows_clone queue_grows_cancel queue_grows_pending
  queue_grows_tick queue_grows_drop queue_grows_poll queue_grows_lightproc_drop

text \<open>An operation calls the schedule function for what it adds to the queue.\<close>

lemma life_do_queue: "life_do l x = Inr l' \<Longrightarrow> pr_queue (lf_proc l) - takes_off x \<le> pr_queue (lf_proc l')"
  by (cases x) (auto simp: takes_off_def set_proc_def bind_result_Inr_iff lightproc_cancel_def split: if_splits
    dest!: queue_grows_all same_queue(3))

subsection \<open>The pool keeps it\<close>

lemma pool_okD:
  assumes "pool_ok self" "p < length (pl_procs self)"
  shows "life_ok (pl_procs self ! p)" "count_list (queued self) p = pr_queue (lf_proc (pl_procs self ! p))"
    "pl_homes self ! p = Some k \<Longrightarrow> k < length (pl_workers self)"
  using assms by (auto simp: pool_ok_def)

lemma in_queued: "p \<in> set (queued self) \<longleftrightarrow> 0 < count_list (queued self) p"
  by (metis count_list_0_iff neq0_conv)

lemma life_do_life_ok: "\<lbrakk>life_ok l; life_do l x = Inr l'\<rbrakk> \<Longrightarrow> life_ok l'"
  using life_do_ok [of l x] by auto

text \<open>An operation on a process whose queue entries are those left after taking it off.\<close>

lemma proc_op_ok:
  assumes "proc_op p x self = Inr self'" "p < length (pl_procs self)" "length (pl_homes self) = length (pl_procs self)"
    and "\<And>j. j < length (pl_procs self) \<Longrightarrow> life_ok (pl_procs self ! j)"
    and "\<And>j. j < length (pl_procs self) \<Longrightarrow>
      count_list (queued self) j = pr_queue (lf_proc (pl_procs self ! j)) - (if j = p then takes_off x else 0)"
    and "\<And>j k. \<lbrakk>j < length (pl_procs self); pl_homes self ! j = Some k\<rbrakk> \<Longrightarrow> k < length (pl_workers self)"
    and "\<And>j. length (pl_procs self) \<le> j \<Longrightarrow> count_list (queued self) j = 0"
    and "\<forall>thread k. pl_threads self thread = Some k \<longrightarrow> k < length (pl_workers self)"
  shows "pool_ok self'"
proof -
  obtain l where l: "life_do (pl_procs self ! p) x = Inr l" using assms(1) by (auto simp: proc_op_def split: sum.splits)
  let ?before = "pr_queue (lf_proc (pl_procs self ! p)) - takes_off x"
  let ?n = "pr_queue (lf_proc l) - ?before" and ?self = "self\<lparr>pl_procs := (pl_procs self)[p := l]\<rparr>"
  have self': "self' = (push_home p ^^ ?n) ?self" using assms(1) l by (simp add: proc_op_def Let_def)
  have c: "count_list (queued self') j = count_list (queued self) j + (if p = j then ?n else 0)" for j
    using count_push_times [of ?self p ?n j] assms(2,6) by (simp add: self' queued_def)
  have "?before \<le> pr_queue (lf_proc l)" by (rule life_do_queue [OF l])
  then have "count_list (queued self') j = pr_queue (lf_proc (pl_procs self' ! j))" if "j < length (pl_procs self)" for j
    using c [of j] assms(5) [OF that] that by (cases "j = p") (simp_all add: self' nth_list_update)
  moreover have "life_ok (pl_procs self' ! j)" if "j < length (pl_procs self)" for j
    using life_do_life_ok [OF assms(4) [OF assms(2)] l] assms(4) [OF that] that assms(2) by (cases "j = p") (simp_all add: self')
  moreover have "set (queued self') \<subseteq> {..<length (pl_procs self)}"
  proof
    fix j assume "j \<in> set (queued self')"
    then show "j \<in> {..<length (pl_procs self)}"
      using c [of j] assms(2) assms(7) [of j] unfolding in_queued by (cases "p = j"; cases "j < length (pl_procs self)") simp_all
  qed
  ultimately show ?thesis using assms(3,6,8) by (simp add: pool_ok_def self')
qed

lemma set_queue_parts [simp]:
  "pl_procs (set_queue q ps self) = pl_procs self" "pl_homes (set_queue q ps self) = pl_homes self"
  "length (pl_workers (set_queue q ps self)) = length (pl_workers self)" "pl_threads (set_queue q ps self) = pl_threads self"
  by (simp_all add: set_queue_def split: queue.splits)

lemma queue_of_worker: "queue_of q self \<noteq> [] \<Longrightarrow> q = LocalQ k \<or> q = TasksQ k \<Longrightarrow> k < length (pl_workers self)"
  by (auto simp: queue_of_def split: if_splits)

text \<open>Taking the entry at a place off its queue.\<close>

lemma take_off_count:
  assumes "i < length (queue_of q self)"
  shows "count_list (queued (set_queue q (remove_nth i (queue_of q self)) self)) p + of_bool (queue_of q self ! i = p) =
    count_list (queued self) p"
proof -
  have ne: "queue_of q self \<noteq> []" using assms by auto
  show ?thesis
    using count_set_queue [of q self "remove_nth i (queue_of q self)" p] queue_of_worker [OF ne] count_remove_nth [OF assms, of p]
    by fastforce
qed

lemma queue_entry:
  assumes "pool_ok self" "i < length (queue_of q self)"
  shows "queue_of q self ! i < length (pl_procs self)" "0 < pr_queue (lf_proc (pl_procs self ! (queue_of q self ! i)))"
proof -
  have "0 < count_list (queued self) (queue_of q self ! i)" using take_off_count [OF assms(2), of "queue_of q self ! i"] by simp
  then show "queue_of q self ! i < length (pl_procs self)" using assms(1) by (auto simp: pool_ok_def in_queued [symmetric])
  then show "0 < pr_queue (lf_proc (pl_procs self ! (queue_of q self ! i)))"
    using pool_okD(2) [OF assms(1)] \<open>0 < count_list _ _\<close> by simp
qed

lemma pool_ok_beyond: "\<lbrakk>pool_ok self; length (pl_procs self) \<le> j\<rbrakk> \<Longrightarrow> count_list (queued self) j = 0"
  using in_queued [of j self] by (cases "0 < count_list (queued self) j") (auto simp: pool_ok_def)

lemma takes_off_simps [simp]: "takes_off Run = 1" "takes_off DropProc = 1"
  by (simp_all add: takes_off_def)

lemma take_and_do_ok:
  assumes "pool_ok self" "take_and_do x q i self = Inr self'" "takes_off x = 1"
  shows "pool_ok self'"
proof (cases "i < length (queue_of q self)")
  case True
  let ?p = "queue_of q self ! i" and ?self = "set_queue q (remove_nth i (queue_of q self)) self"
  note e = queue_entry [OF assms(1) True] and t = take_off_count [OF True]
  show ?thesis
  proof (rule proc_op_ok [of ?p x ?self])
    show "proc_op ?p x ?self = Inr self'" using assms(2) True by (simp add: take_and_do_def)
    fix j assume "j < length (pl_procs ?self)"
    then show "count_list (queued ?self) j = pr_queue (lf_proc (pl_procs ?self ! j)) - (if j = ?p then takes_off x else 0)"
      using t [of j] pool_okD(2) [OF assms(1), of j] assms(3) by (cases "j = ?p") simp_all
  next
    fix j assume "length (pl_procs ?self) \<le> j"
    then show "count_list (queued ?self) j = 0" using pool_ok_beyond [OF assms(1), of j] t [of j] by simp
  qed (use assms(1) e in \<open>auto simp: pool_ok_def\<close>)
qed (use assms in \<open>simp add: take_and_do_def\<close>)

lemma life_new_queue [simp]: "pr_queue (lf_proc life_new) = Suc 0"
  by (simp add: life_new_def allocate_def)

lemma spawn_at_ok:
  assumes "pool_ok self" "\<And>k. home = Some k \<Longrightarrow> k < length (pl_workers self)"
  shows "pool_ok (spawn_at home cgroup self)"
proof -
  let ?n = "length (pl_procs self)"
  let ?self = "self\<lparr>pl_procs := pl_procs self @ [life_new], pl_homes := pl_homes self @ [home], pl_groups := pl_groups self @ [cgroup]\<rparr>"
  have len: "length (pl_homes self) = ?n" using assms(1) by (simp add: pool_ok_def)
  have c: "count_list (queued (spawn_at home cgroup self)) j = count_list (queued self) j + of_bool (?n = j)" for j
  proof -
    have "queued ?self = queued self" by (simp add: queued_def)
    then show ?thesis using count_push_home [of ?self ?n j] assms(2) len by (simp add: spawn_at_def nth_append)
  qed
  have "j < Suc ?n \<Longrightarrow> life_ok ((pl_procs self @ [life_new]) ! j) \<and>
      count_list (queued (spawn_at home cgroup self)) j = pr_queue (lf_proc ((pl_procs self @ [life_new]) ! j)) \<and>
      (\<forall>k. (pl_homes self @ [home]) ! j = Some k \<longrightarrow> k < length (pl_workers self))" for j
    using c [of j] pool_okD [OF assms(1), of j] pool_ok_beyond [OF assms(1), of ?n] assms(2) len life_new_ok
    by (auto simp: less_Suc_eq nth_append)
  moreover have "set (queued (spawn_at home cgroup self)) \<subseteq> {..<Suc ?n}"
  proof
    fix j assume "j \<in> set (queued (spawn_at home cgroup self))"
    then show "j \<in> {..<Suc ?n}"
      using c [of j] pool_ok_beyond [OF assms(1), of j] unfolding in_queued by (cases "j < ?n"; cases "?n = j") simp_all
  qed
  ultimately show ?thesis using assms(1) len by (simp add: pool_ok_def spawn_at_def)
qed

lemma pool_ok_same_count:
  assumes "pool_ok self" "\<And>p. count_list (queued self') p = count_list (queued self) p"
    and "pl_procs self' = pl_procs self" "pl_homes self' = pl_homes self" "pl_threads self' = pl_threads self"
    and "length (pl_workers self') = length (pl_workers self)"
  shows "pool_ok self'"
proof -
  have "set (queued self') = set (queued self)" using assms(2) by (auto simp: in_queued)
  then show ?thesis using assms by (simp add: pool_ok_def)
qed

lemma thread_current_ok:
  assumes "pool_ok self" "thread_current thread self = Value (cgroup, self')"
  shows "pool_ok self'" "pl_threads self' = pl_threads self" "pl_workers self' = pl_workers self"
proof -
  obtain reg where self': "self' = self\<lparr>pl_registry := reg\<rparr>"
    using assms(2) by (auto simp: thread_current_def bind_outcome_Value_iff)
  show "pool_ok self'" by (rule pool_ok_same_count [OF assms(1)]) (simp_all add: self' queued_def)
  show "pl_threads self' = pl_threads self" "pl_workers self' = pl_workers self" by (simp_all add: self')
qed

lemma get_worker_bound: "\<lbrakk>pool_ok self; get_worker thread self = Value k\<rbrakk> \<Longrightarrow> k < length (pl_workers self)"
  by (auto simp: get_worker_def pool_ok_def split: option.splits)

lemma spawns_ok:
  assumes "pool_ok self"
  shows "pool_spawn thread self = Value self' \<Longrightarrow> pool_ok self'"
    "pool_spawn_local thread self = Value self' \<Longrightarrow> pool_ok self'"
    "pool_spawn_local_cgroup thread cgroup self = Value self' \<Longrightarrow> pool_ok self'"
  using assms
  by (auto simp: pool_spawn_def pool_spawn_local_def pool_spawn_local_cgroup_def bind_outcome_Value_iff
    intro!: spawn_at_ok dest: thread_current_ok get_worker_bound)

lemma move_ok:
  assumes "pool_ok self" "i < length (queue_of q self)" "k < length (pl_workers self)"
  defines "self' \<equiv> set_queue q (remove_nth i (queue_of q self)) self"
  shows "pool_ok (set_queue (TasksQ k) (queue_of (TasksQ k) self' @ [queue_of q self ! i]) self')"
proof (rule pool_ok_same_count [OF assms(1)])
  fix p
  show "count_list (queued (set_queue (TasksQ k) (queue_of (TasksQ k) self' @ [queue_of q self ! i]) self')) p =
      count_list (queued self) p"
    using count_set_queue [of "TasksQ k" self' "queue_of (TasksQ k) self' @ [queue_of q self ! i]" p]
      take_off_count [OF assms(2), of p] assms(3)
    by (cases "queue_of q self ! i = p") (simp_all add: self'_def)
qed (simp_all add: self'_def)

lemma pool_do_ok:
  assumes "pool_ok self" "pool_do x self = Inr self'"
  shows "pool_ok self'"
proof (cases x)
  case (PMove q i k)
  then show ?thesis using assms move_ok [OF assms(1), of i q k]
    by (cases "i < length (queue_of q self) \<and> stolen_from q \<and> k < length (pl_workers self)") (simp_all add: Let_def)
next
  case (POp p y)
  then show ?thesis
    using assms proc_op_ok [of p y self self'] pool_ok_beyond [OF assms(1)]
    by (cases "p < length (pl_procs self) \<and> takes_off y = 0") (simp_all add: pool_ok_def)
qed (use assms take_and_do_ok [OF assms(1)] in \<open>auto simp: in_pool_def split: outcome.splits dest: spawns_ok [OF assms(1)]\<close>)

text \<open>No step touches freed memory, a dropped future or a missing output.\<close>

lemma proc_op_safe:
  assumes "life_ok (pl_procs self ! p)" "proc_op p x self = Inl e"
  shows "e = Faulted Aborting"
  using life_do_ok [OF assms(1), of x] assms(2) by (auto simp: proc_op_def Let_def)

lemma pool_do_safe:
  assumes "pool_ok self" "pool_do x self = Inl e"
  shows "e = Faulted Aborting \<or> e = Panicking"
proof -
  have "e = Faulted Aborting" if "take_and_do y q i self = Inl e" for y q i
  proof (cases "i < length (queue_of q self)")
    case True
    show ?thesis using that True
      by (intro proc_op_safe [of "set_queue q (remove_nth i (queue_of q self)) self" "queue_of q self ! i" y])
         (simp_all add: take_and_do_def pool_okD(1) [OF assms(1) queue_entry(1) [OF assms(1) True]])
  qed (use that in \<open>simp add: take_and_do_def\<close>)
  then show ?thesis
    using assms(2) pool_okD(1) [OF assms(1)]
    by (cases x) (auto simp: in_pool_def Let_def split: outcome.splits if_splits dest: proc_op_safe)
qed

lemma pool_run_ok:
  assumes "pool_ok self"
  shows "case pool_run xs self of Inl e \<Rightarrow> e = Faulted Aborting \<or> e = Panicking | Inr self' \<Rightarrow> pool_ok self'"
  using assms
proof (induction xs arbitrary: self)
  case (Cons x xs)
  then show ?case using pool_do_safe [OF Cons.prems, of x] pool_do_ok [OF Cons.prems, of x]
    by (cases "pool_do x self") auto
qed simp

lemma install_worker_ok: "pool_ok self \<Longrightarrow> pool_ok (install_worker thread self)"
  by (force simp: pool_ok_def install_worker_def queued_def less_Suc_eq)

lemma install_workers_ok: "pool_ok self \<Longrightarrow> pool_ok (fold install_worker threads self)"
  by (induction threads arbitrary: self) (simp_all add: install_worker_ok)

lemma executor_new_ok: "executor_new slot thread threads reg = Value self \<Longrightarrow> pool_ok self"
  by (auto simp: executor_new_def bind_outcome_Value_iff Let_def intro!: install_workers_ok)
     (simp add: pool_ok_def queued_def)

subsection \<open>Local processes stay with their worker\<close>

definition belongs :: "nat option list \<Rightarrow> queue \<Rightarrow> nat \<Rightarrow> bool" where
  "belongs homes q p \<longleftrightarrow> homes ! p = (case q of LocalQ k \<Rightarrow> Some k | _ \<Rightarrow> None)"

definition placed :: "('r, 'w) pool \<Rightarrow> bool" where
  "placed self \<longleftrightarrow> (\<forall>q. list_all (belongs (pl_homes self) q) (queue_of q self))"

lemma nth_update_any: "xs[i := v] ! j = (if i = j \<and> j < length xs then v else xs ! j)"
  by (cases "i < length xs") (auto simp: nth_list_update list_update_beyond)

lemma queue_of_set_queue:
  "queue_of q' (set_queue q ps self) = (if q' = q \<and> (case q of Spool \<Rightarrow> True | LocalQ k \<Rightarrow> k < length (pl_workers self)
     | TasksQ k \<Rightarrow> k < length (pl_workers self)) then ps else queue_of q' self)"
  by (cases q; cases q') (auto simp: queue_of_def set_queue_def nth_update_any)

lemma queue_of_frame [simp]:
  "queue_of q (self\<lparr>pl_procs := ps\<rparr>) = queue_of q self" "queue_of q (self\<lparr>pl_homes := hs\<rparr>) = queue_of q self"
  "queue_of q (self\<lparr>pl_groups := gs\<rparr>) = queue_of q self" "queue_of q (self\<lparr>pl_registry := reg\<rparr>) = queue_of q self"
  by (cases q; simp add: queue_of_def)+

lemma placed_set_queue: "\<lbrakk>placed self; list_all (belongs (pl_homes self) q) ps\<rbrakk> \<Longrightarrow> placed (set_queue q ps self)"
  by (simp add: placed_def queue_of_set_queue)

lemma placed_take_off:
  assumes "placed self"
  shows "placed (set_queue q (remove_nth i (queue_of q self)) self)"
proof -
  have "list_all (belongs (pl_homes self) q) (queue_of q self)" using assms by (simp add: placed_def)
  then show ?thesis
    using assms by (intro placed_set_queue) (auto simp: remove_nth_def list_all_iff dest: in_set_takeD in_set_dropD)
qed

lemma queue_of_push_home:
  "p' \<in> set (queue_of q (push_home p self)) \<Longrightarrow> p' \<in> set (queue_of q self) \<or> p' = p \<and> belongs (pl_homes self) q p"
  by (cases q; cases "pl_homes self ! p")
     (auto simp: queue_of_def push_home_def belongs_def nth_update_any split: if_splits)

lemma placed_push_home: "placed self \<Longrightarrow> placed (push_home p self)"
  by (auto simp: placed_def list_all_iff dest!: queue_of_push_home)

lemma placed_push_times: "placed self \<Longrightarrow> placed ((push_home p ^^ n) self)"
  by (induction n) (simp_all add: placed_push_home)

lemma placed_proc_op: "\<lbrakk>placed self; proc_op p x self = Inr self'\<rbrakk> \<Longrightarrow> placed self'"
  by (auto simp: proc_op_def Let_def split: sum.splits intro!: placed_push_times) (simp add: placed_def)

lemma placed_take_and_do: "\<lbrakk>placed self; take_and_do x q i self = Inr self'\<rbrakk> \<Longrightarrow> placed self'"
  by (auto simp: take_and_do_def split: if_splits intro: placed_proc_op [OF placed_take_off])

lemma queue_of_queued: "p \<in> set (queue_of q self) \<Longrightarrow> p \<in> set (queued self)"
  by (cases q) (auto simp: queue_of_def queued_def split: if_splits)

lemma placed_spawn_at:
  assumes "placed self" "pool_ok self"
  shows "placed (spawn_at home cgroup self)"
  unfolding spawn_at_def
proof (rule placed_push_home)
  have "belongs (pl_homes self @ [home]) q p" if "p \<in> set (queue_of q self)" for q p
    using that assms queue_of_queued [OF that] by (auto simp: placed_def list_all_iff belongs_def pool_ok_def nth_append)
  then show "placed (self\<lparr>pl_procs := pl_procs self @ [life_new], pl_homes := pl_homes self @ [home],
      pl_groups := pl_groups self @ [cgroup]\<rparr>)"
    by (simp add: placed_def list_all_iff)
qed

lemma placed_thread_current: "\<lbrakk>placed self; thread_current thread self = Value (cgroup, self')\<rbrakk> \<Longrightarrow> placed self'"
  by (auto simp: thread_current_def bind_outcome_Value_iff placed_def)

lemma placed_spawns:
  assumes "placed self" "pool_ok self"
  shows "pool_spawn thread self = Value self' \<Longrightarrow> placed self'"
    "pool_spawn_local thread self = Value self' \<Longrightarrow> placed self'"
    "pool_spawn_local_cgroup thread cgroup self = Value self' \<Longrightarrow> placed self'"
  using assms
  by (auto simp: pool_spawn_def pool_spawn_local_def pool_spawn_local_cgroup_def bind_outcome_Value_iff
    intro!: placed_spawn_at dest: thread_current_ok(1) placed_thread_current)

lemma placed_move:
  assumes "placed self" "i < length (queue_of q self)" "stolen_from q"
  shows "placed (let self' = set_queue q (remove_nth i (queue_of q self)) self in
    set_queue (TasksQ k) (queue_of (TasksQ k) self' @ [queue_of q self ! i]) self')"
proof -
  let ?self = "set_queue q (remove_nth i (queue_of q self)) self"
  have "belongs (pl_homes self) q (queue_of q self ! i)" using assms(1,2) by (simp add: placed_def list_all_length)
  then have "belongs (pl_homes self) (TasksQ k) (queue_of q self ! i)"
    using assms(3) by (simp add: belongs_def stolen_from_def split: queue.splits)
  moreover note placed_take_off [OF assms(1), of q i]
  ultimately show ?thesis unfolding Let_def by - (rule placed_set_queue, simp_all add: placed_def)
qed

lemma placed_do:
  assumes "placed self" "pool_ok self" "pool_do x self = Inr self'"
  shows "placed self'"
  using assms placed_move [OF assms(1)] placed_take_and_do [OF assms(1)] placed_proc_op [OF assms(1)] placed_spawns [OF assms(1,2)]
  by (cases x) (auto simp: in_pool_def Let_def split: outcome.splits if_splits)

lemma pool_run_placed:
  assumes "placed self" "pool_ok self" "pool_run xs self = Inr self'"
  shows "placed self'"
  using assms
proof (induction xs arbitrary: self)
  case (Cons x xs)
  obtain self1 where "pool_do x self = Inr self1" "pool_run xs self1 = Inr self'"
    using Cons.prems(3) by (auto simp: bind_result_Inr_iff)
  then show ?case using Cons.IH placed_do [OF Cons.prems(1,2)] pool_do_ok [OF Cons.prems(2)] by blast
qed simp

lemma queue_of_install [simp]: "queue_of q (install_worker t self) = queue_of q self"
  by (cases q) (auto simp: queue_of_def install_worker_def nth_append less_Suc_eq)

lemma install_workers_placed: "placed self \<Longrightarrow> placed (fold install_worker threads self)"
proof (induction threads arbitrary: self)
  case (Cons t ts)
  have "pl_homes (install_worker t self) = pl_homes self" by (simp add: install_worker_def)
  then show ?case using Cons by (simp add: placed_def)
qed simp

lemma executor_new_placed: "executor_new slot thread threads reg = Value self \<Longrightarrow> placed self"
  by (auto simp: executor_new_def bind_outcome_Value_iff Let_def intro!: install_workers_placed)
     (simp add: placed_def queue_of_def split: queue.splits)


text \<open>A process spawned globally and moved to the second worker, a local one that is run and woken by its
  own waker.\<close>

definition sample_pool :: "(nat, nat) pool" where
  "sample_pool = (case executor_new (Some 0) 0 [1, 2] registry_new of Value self \<Rightarrow> self)"

definition sample_steps :: "(nat, nat) pool_step list" where
  "sample_steps = [PSpawn 0, PSpawnLocal 1, PMove Spool 0 1, PRun (LocalQ 0) 0, POp 1 WakeByRef, POp 1 PollPending]"

lemma sample_pool_new: "executor_new (Some 0) 0 [1, 2] registry_new = Value sample_pool"
  by (simp add: sample_pool_def executor_new_def new_root_group_def new_group_inner_def idx_to_id_def group_from_u64_def Let_def)

lemma sample_steps_run:
  "case pool_run sample_steps sample_pool of
     Inl e \<Rightarrow> False
   | Inr self \<Rightarrow> queue_of (TasksQ 1) self = [0] \<and> queue_of (LocalQ 0) self = [1] \<and> pl_unparked self = [0, 0] \<and>
       pl_groups self = [Some 1, None]"
  by code_simp


subsection \<open>What spawning records\<close>

text \<open>Only the thread that made the executor has a current group: a process spawned from any other thread belongs to
  no group.\<close>

lemma install_workers_currents [simp]: "pl_currents (fold install_worker threads self) = pl_currents self"
  by (induction threads arbitrary: self) (simp_all add: install_worker_def)

lemma executor_new_currents:
  "\<lbrakk>executor_new slot thread threads reg = Value self; thread' \<noteq> thread\<rbrakk> \<Longrightarrow> pl_currents self thread' = None"
  by (auto simp: executor_new_def bind_outcome_Value_iff Let_def)

lemma push_home_groups [simp]: "pl_groups (push_home p self) = pl_groups self"
  by (simp add: push_home_def split: option.splits)

lemma spawn_without_group:
  "pl_currents self thread = None \<Longrightarrow>
     \<exists>self'. pool_spawn thread self = Value self' \<and> pl_groups self' = pl_groups self @ [None]"
  by (simp add: pool_spawn_def thread_current_def registry_current_def spawn_at_def)

text \<open>A local process can be spawned from a worker only.\<close>

lemma spawn_local_needs_worker:
  assumes "pl_threads self thread = None"
  shows "pool_spawn_local thread self = Panic" "pool_spawn_local_cgroup thread cgroup self = Panic"
proof -
  show "pool_spawn_local_cgroup thread cgroup self = Panic"
    using assms by (simp add: pool_spawn_local_cgroup_def get_worker_def)
  show "pool_spawn_local thread self = Panic"
  proof (cases "registry_current ((pl_registry self)\<lparr>rg_current := pl_currents self thread\<rparr>)")
    case (Value x)
    then show ?thesis
      using assms by (cases x) (simp add: pool_spawn_local_def get_worker_def thread_current_def)
  qed (simp add: pool_spawn_local_def thread_current_def)
qed

text \<open>The console finds where a process was spawned, and is left with how and in which group.\<close>

lemma ucast_u64_u32: "ucast (ucast (w :: u32) :: u64) = w"
  by transfer (simp add: take_bit_signed_take_bit)

lemma spawn_fields_found:
  "task_result (foldl task_record (task_visitor_new m) (spawn_fields kind file line column cgroup)) =
     (map (field_of m) [(''kind'', RecStr kind), (''cgroup'', RecU64 (case cgroup of Some g \<Rightarrow> g | None \<Rightarrow> 0))],
      location_of (Some file) (Some line) (Some column))"
  unfolding task_visitor_finds by (simp add: spawn_fields_def last_str_def last_u32_def ucast_u64_u32)

text \<open>A spawned process takes a reference to the current group, and nothing a process does gives it back: a group
  is never closed.\<close>

lemma push_home_registry [simp]: "pl_registry ((push_home p ^^ n) self) = pl_registry self"
proof (induction n)
  case (Suc n)
  then show ?case by (simp add: push_home_def split: option.splits)
qed simp

lemma group_never_released: "proc_op p x self = Inr self' \<Longrightarrow> pl_registry self' = pl_registry self"
  by (auto simp: proc_op_def Let_def split: sum.splits)

lemma spawn_takes_reference:
  assumes "pl_currents self thread = Some gid" "registry_get (pl_registry self) gid = Some g" "gi_ref_count g \<noteq> 0"
  shows "\<exists>self'. pool_spawn thread self = Value self' \<and>
    registry_get (pl_registry self') gid = Some (g\<lparr>gi_ref_count := gi_ref_count g + 1\<rparr>)"
  using assms push_home_registry [of _ 1]
  by (simp add: pool_spawn_def thread_current_def registry_current_def clone_group_def registry_get_def spawn_at_def
    push_home_def split: option.splits)

end
