(* ===== verification/Server_Start.thy ===== *)
theory Server_Start
  imports Command_Line Pool
begin

text \<open>
  \<open>bffhd/lib.rs\<close>: what the server starts on the executor, before it opens its databases and when it serves, and the
  handler that would stop it.
\<close>

subsection \<open>Spawning the console\<close>

text \<open>A handle that nobody keeps is dropped when the statement ends.\<close>

definition spawn_detached :: "nat \<Rightarrow> ('r, 'w) pool \<Rightarrow> pool_fault + ('r, 'w) pool" where
  "spawn_detached thread self =
     bind_result (in_pool (pool_spawn thread self)) (\<lambda>self'. pool_do (POp (length (pl_procs self)) HandleDrop) self')"

text \<open>The aggregator, if the console has one, the console server, and a process that waits for the handle of the
  server.\<close>

definition start_console :: "nat \<Rightarrow> bool \<Rightarrow> ('r, 'w) pool \<Rightarrow> pool_fault + ('r, 'w) pool" where
  "start_console thread aggregator self =
     bind_result (if aggregator then spawn_detached thread self else Inr self) (\<lambda>self.
     bind_result (in_pool (pool_spawn thread self)) (spawn_detached thread))"

definition console_report :: "('e + unit) option \<Rightarrow> string" where
  "console_report result =
     (case result of
        Some (Inr ()) \<Rightarrow> ''console server finished without error''
      | Some (Inl e) \<Rightarrow> ''console server finished with error''
      | None \<Rightarrow> ''console server finished with panic'')"

text \<open>The executor runs before anything that can fail is tried.\<close>

definition bffh_boot ::
  "u64 option \<Rightarrow> nat \<Rightarrow> nat list \<Rightarrow> registry \<Rightarrow> bool \<Rightarrow> ('e, 't, 'z) server_scheme \<Rightarrow> 'e host \<Rightarrow> int \<Rightarrow> bffh_config \<Rightarrow>
     (('r, 'w) pool \<times> (bffh_error + 'e started)) outcome" where
  "bffh_boot slot thread threads reg aggregator S H now config =
     bind_outcome (executor_new slot thread threads reg) (\<lambda>executor.
       (case start_console thread aggregator executor of
          Inl e \<Rightarrow> Panic
        | Inr executor' \<Rightarrow> bind_outcome (difluoroborane_new S H now config) (\<lambda>r. Value (executor', r))))"

text \<open>The API server runs beside the thread that waits for a signal; its handle is dropped.\<close>

definition spawn_apiserver :: "nat \<Rightarrow> ('r, 'w) pool \<Rightarrow> pool_fault + ('r, 'w) pool" where
  "spawn_apiserver thread self = spawn_detached thread self"

subsection \<open>The shutdown handler\<close>

text \<open>Cancelling a process through its handle, with the calls of its schedule function.\<close>

definition cancel_in :: "nat \<Rightarrow> ('r, 'w) pool \<Rightarrow> pool_fault + ('r, 'w) pool" where
  "cancel_in p self =
     (case handle_cancel (lf_proc (pl_procs self ! p)) of
        Inl e \<Rightarrow> Inl (Faulted e)
      | Inr q \<Rightarrow>
          let calls = pr_queue q - pr_queue (lf_proc (pl_procs self ! p)) in
          Inr ((push_home p ^^ calls) (self\<lparr>pl_procs := (pl_procs self)[p := (pl_procs self ! p)\<lparr>lf_proc := q\<rparr>]\<rparr>)))"

text \<open>Every handle is taken out of the handler, cancelled and dropped.\<close>

fun shutdown :: "nat list \<Rightarrow> ('r, 'w) pool \<Rightarrow> pool_fault + ('r, 'w) pool" where
  "shutdown [] self = Inr self"
| "shutdown (p # ps) self =
     bind_result (cancel_in p self) (\<lambda>self. bind_result (pool_do (POp p HandleDrop) self) (shutdown ps))"

subsection \<open>What is shown\<close>

lemma in_pool_Inr_iff [simp]: "in_pool m = Inr self \<longleftrightarrow> m = Value self"
  by (cases m) (simp_all add: in_pool_def)

lemma pool_spawn_procs: "pool_spawn thread self = Value self' \<Longrightarrow> length (pl_procs self') = Suc (length (pl_procs self))"
  by (auto simp: pool_spawn_def thread_current_def spawn_at_def bind_outcome_Value_iff)

lemma drop_handle_procs:
  "pool_do (POp p HandleDrop) self = Inr self' \<Longrightarrow> length (pl_procs self') = length (pl_procs self)"
  by (auto simp: proc_op_def Let_def split: sum.splits if_splits)

lemma spawn_detached_ok:
  assumes "pool_ok self" "spawn_detached thread self = Inr self'"
  shows "pool_ok self'" "length (pl_procs self') = Suc (length (pl_procs self))"
proof -
  obtain self1 where s: "pool_spawn thread self = Value self1" "pool_do (POp (length (pl_procs self)) HandleDrop) self1 = Inr self'"
    using assms(2) by (auto simp: spawn_detached_def bind_result_Inr_iff)
  show "pool_ok self'" by (rule pool_do_ok [OF spawns_ok(1) [OF assms(1) s(1)] s(2)])
  show "length (pl_procs self') = Suc (length (pl_procs self))"
    using drop_handle_procs [OF s(2)] pool_spawn_procs [OF s(1)] by simp
qed

text \<open>Starting the console leaves the executor in order, with two more processes, or three with an aggregator.\<close>

lemma start_console_ok:
  assumes "pool_ok self" "start_console thread aggregator self = Inr self'"
  shows "pool_ok self' \<and> length (pl_procs self') = length (pl_procs self) + (if aggregator then 3 else 2)"
proof -
  obtain self1 self2 where s: "(if aggregator then spawn_detached thread self else Inr self) = Inr self1"
      "pool_spawn thread self1 = Value self2" "spawn_detached thread self2 = Inr self'"
    using assms(2) unfolding start_console_def by (auto simp: bind_result_Inr_iff simp del: if_split)
  have 1: "pool_ok self1 \<and> length (pl_procs self1) = length (pl_procs self) + (if aggregator then 1 else 0)"
    using s(1) assms(1) spawn_detached_ok [OF assms(1)] by (auto split: if_splits)
  then have 2: "pool_ok self2" using spawns_ok(1) s(2) by blast
  show ?thesis using spawn_detached_ok [OF 2 s(3)] 1 pool_spawn_procs [OF s(2)] by simp
qed

text \<open>The server that has started keeps a sound executor, whatever its databases answered.\<close>

lemma bffh_boot_ok:
  assumes "bffh_boot slot thread threads reg aggregator S H now config = Value (executor, r)"
  shows "pool_ok executor" "difluoroborane_new S H now config = Value r"
proof -
  obtain executor0 where x: "executor_new slot thread threads reg = Value executor0"
      "(case start_console thread aggregator executor0 of
          Inl e \<Rightarrow> Panic
        | Inr executor' \<Rightarrow> bind_outcome (difluoroborane_new S H now config) (\<lambda>r. Value (executor', r))) = Value (executor, r)"
    using assms by (auto simp: bffh_boot_def bind_outcome_Value_iff)
  then have e: "executor_new slot thread threads reg = Value executor0" "start_console thread aggregator executor0 = Inr executor"
      "difluoroborane_new S H now config = Value r"
    by (cases "start_console thread aggregator executor0"; simp add: bind_outcome_Value_iff)+
  show "pool_ok executor" using start_console_ok [OF executor_new_ok [OF e(1)] e(2)] by simp
  show "difluoroborane_new S H now config = Value r" by (rule e(3))
qed

text \<open>On a new executor all of them are queued, in the group of the executor, without handles but the one of the console
  server.\<close>

definition sample_executor :: "(nat, nat) pool" where
  "sample_executor = (case executor_new (Some 0) 0 [1, 2] registry_new of Value p \<Rightarrow> p)"

lemma sample_console:
  "case start_console 0 True sample_executor of
     Inl e \<Rightarrow> False
   | Inr self \<Rightarrow> pl_spool self = [0, 1, 2] \<and> map lf_handle (pl_procs self) = [False, True, False] \<and>
       pl_groups self = [Some 1, Some 1, Some 1]"
  by code_simp

text \<open>Shutting down is not safe: a process that waits and has no other waker is freed while it is queued, and the worker
  that takes it reads freed memory; a process that was never run is closed with a reference nobody
  gives back.\<close>

lemma shutdown_use_after_free:
  "case pool_run [PSpawn 0, PRun Spool 0, POp 0 PollPending] sample_executor of
     Inl e \<Rightarrow> False
   | Inr self \<Rightarrow>
       (case shutdown [0] self of
          Inl e \<Rightarrow> False
        | Inr self' \<Rightarrow> (case pool_run [PRun Spool 0] self' of Inl e \<Rightarrow> e = Faulted UseAfterFree | Inr self'' \<Rightarrow> False))"
  by code_simp

lemma shutdown_leaks:
  "case pool_run [PSpawn 0] sample_executor of
     Inl e \<Rightarrow> False
   | Inr self \<Rightarrow>
       (case shutdown [0] self of
          Inl e \<Rightarrow> False
        | Inr self' \<Rightarrow>
            (case pool_run [PRun Spool 0] self' of
               Inl e \<Rightarrow> False
             | Inr self'' \<Rightarrow> queued self'' = [] \<and> map lf_handle (pl_procs self'') = [False] \<and>
                 pr_live (lf_proc (hd (pl_procs self''))) \<and> get_refcount (proc_load (lf_proc (hd (pl_procs self'')))) = 1))"
  by code_simp

end
