(* ===== verification/Sdk.thy ===== *)
theory Sdk
  imports Prelude
begin

text \<open>
  \<open>modules/sdk/sdk_proc\<close>: the attribute macro \<open>module\<close> for the structs of external modules.  Source text is a list of
  token trees; the parsers of \<open>syn\<close> for visibilities, identifiers and lists of fields, and printing
  a field, are arguments.
\<close>

datatype delimiter = Parenthesis | Brace | Bracket | NoDelimiter

datatype token_tree = Ident string | Punct char | Literal string | Group delimiter "token_tree list"

record 'f syn_lib =
  sy_visibility :: "token_tree list \<Rightarrow> string + token_tree list"
  sy_ident :: "token_tree list \<Rightarrow> string + (string \<times> token_tree list)"
  sy_fields :: "token_tree list \<Rightarrow> string + 'f list"
  sy_tokens :: "'f \<Rightarrow> token_tree list"

definition peek :: "string \<Rightarrow> token_tree list \<Rightarrow> bool" where
  "peek kw input = (case input of Ident x # _ \<Rightarrow> x = kw | _ \<Rightarrow> False)"

lemma peek_Ident [simp]: "peek kw (Ident x # ts) \<longleftrightarrow> x = kw"
  by (simp add: peek_def)

datatype module_attrs = AttrNothing | AttrInitiator | AttrActor | AttrSensor

text \<open>A parser returns what it has left of its input.  Looking ahead takes nothing off it.\<close>

definition module_attrs_parse :: "token_tree list \<Rightarrow> string + (module_attrs \<times> token_tree list)" where
  "module_attrs_parse input =
     (if input = [] then Inr (AttrNothing, input)
      else if peek ''initiator'' input then Inr (AttrInitiator, input)
      else if peek ''actor'' input then Inr (AttrActor, input)
      else if peek ''sensor'' input then Inr (AttrSensor, input)
      else Inl ''Module type must be empty or one of \"initiator\", \"actor\", or \"sensor\"'')"

record 'f module_input =
  mi_ident :: string
  mi_fields :: "'f list"

definition module_input_parse :: "'f syn_lib \<Rightarrow> token_tree list \<Rightarrow> string + ('f module_input \<times> token_tree list)" where
  "module_input_parse S input =
     bind_result (if peek ''pub'' input then sy_visibility S input else Inr input) (\<lambda>input.
     if \<not> peek ''struct'' input then Inl ''Modules must be structs''
     else bind_result (sy_ident S (tl input)) (\<lambda>(ident, input).
       (case input of
          Group Brace content # input' \<Rightarrow>
            bind_result (sy_fields S content) (\<lambda>fs. Inr (\<lparr>mi_ident = ident, mi_fields = fs\<rparr>, input'))
        | _ \<Rightarrow> Inl ''Modules can't be unit structs'')))"

text \<open>The whole input has to be parsed.\<close>

definition parse_macro_input :: "(token_tree list \<Rightarrow> string + ('a \<times> token_tree list)) \<Rightarrow> token_tree list \<Rightarrow> string + 'a" where
  "parse_macro_input p input =
     bind_result (p input) (\<lambda>(x, left). if left = [] then Inr x else Inl ''unexpected token'')"

fun separated :: "token_tree list list \<Rightarrow> token_tree list" where
  "separated [] = []"
| "separated [x] = x"
| "separated (x # y # xs) = x @ Punct CHR '','' # separated (y # xs)"

definition module_output :: "'f syn_lib \<Rightarrow> 'f module_input \<Rightarrow> token_tree list" where
  "module_output S item =
     [Ident ''pub'', Ident ''struct'', Ident (mi_ident item), Group Brace (separated (map (sy_tokens S) (mi_fields item)))]"

text \<open>The result is the expansion, or the message of a compile error.\<close>

definition module_macro :: "'f syn_lib \<Rightarrow> token_tree list \<Rightarrow> token_tree list \<Rightarrow> string + token_tree list" where
  "module_macro S attr tokens =
     bind_result (parse_macro_input module_attrs_parse attr) (\<lambda>attrs.
     bind_result (parse_macro_input (module_input_parse S) tokens) (\<lambda>item. Inr (module_output S item)))"

subsection \<open>What the macro accepts\<close>

text \<open>The kind of a module is only looked at and never taken off the input, so naming one is always an error.\<close>

lemma module_kind_rejected:
  assumes "attr \<noteq> []"
  shows "\<exists>e. module_macro S attr tokens = Inl e"
  using assms by (auto simp: module_macro_def parse_macro_input_def module_attrs_parse_def)

text \<open>Without one it accepts exactly the structs with named fields, public or not, and nothing behind them.\<close>

definition struct_tokens :: "string \<Rightarrow> token_tree list \<Rightarrow> token_tree list" where
  "struct_tokens name content = [Ident ''struct'', Ident name, Group Brace content]"

definition ident_law :: "'f syn_lib \<Rightarrow> (string \<Rightarrow> bool) \<Rightarrow> bool" where
  "ident_law S reserved \<longleftrightarrow>
     (\<forall>ts r. sy_ident S ts = Inr r \<longleftrightarrow> (\<exists>x rest. ts = Ident x # rest \<and> \<not> reserved x \<and> r = (x, rest)))"

lemma ident_lawD: "\<lbrakk>ident_law S reserved; \<not> reserved x\<rbrakk> \<Longrightarrow> sy_ident S (Ident x # ts) = Inr (x, ts)"
  by (simp add: ident_law_def)

lemma module_input_parse_iff:
  assumes "ident_law S reserved"
  shows "module_input_parse S input = Inr (item, []) \<longleftrightarrow>
    (\<exists>content. (if peek ''pub'' input then sy_visibility S input else Inr input) = Inr (struct_tokens (mi_ident item) content) \<and>
       \<not> reserved (mi_ident item) \<and> sy_fields S content = Inr (mi_fields item))"
    (is "?l \<longleftrightarrow> ?r")
proof
  assume ?l
  then obtain rest x more' where v: "(if peek ''pub'' input then sy_visibility S input else Inr input) = Inr rest"
      "peek ''struct'' rest" "sy_ident S (tl rest) = Inr (x, more')"
      "(case more' of Group Brace content # input' \<Rightarrow>
            bind_result (sy_fields S content) (\<lambda>fs. Inr (\<lparr>mi_ident = x, mi_fields = fs\<rparr>, input'))
        | _ \<Rightarrow> Inl ''Modules can't be unit structs'') = Inr (item, [])"
    by (auto simp: module_input_parse_def bind_result_Inr_iff split: if_splits)
  then obtain content where c: "more' = [Group Brace content]" "sy_fields S content = Inr (mi_fields item)" "mi_ident item = x"
    by (auto simp: bind_result_Inr_iff split: list.splits token_tree.splits delimiter.splits)
  have "tl rest = [Ident x, Group Brace content]" "\<not> reserved x"
    using assms v(3) c(1) by (auto simp: ident_law_def)
  moreover have "hd rest = Ident ''struct'' \<and> rest \<noteq> []" using v(2) by (auto simp: peek_def split: list.splits token_tree.splits)
  ultimately have "rest = struct_tokens x content" by (cases rest) (auto simp: struct_tokens_def)
  then show ?r using v(1) c \<open>\<not> reserved x\<close> by auto
next
  assume ?r
  then obtain content where "(if peek ''pub'' input then sy_visibility S input else Inr input) = Inr (struct_tokens (mi_ident item) content)"
      "\<not> reserved (mi_ident item)" "sy_fields S content = Inr (mi_fields item)"
    by blast
  then show ?l by (simp add: module_input_parse_def ident_lawD [OF assms] struct_tokens_def)
qed

text \<open>The visibility is dropped and the expansion is public, so a private struct becomes public; on its own
  expansion the macro changes nothing.\<close>

lemma module_macro_private:
  assumes "ident_law S reserved" "\<not> reserved name" "sy_fields S content = Inr fs"
  shows "module_macro S [] (struct_tokens name content) =
    Inr (Ident ''pub'' # struct_tokens name (separated (map (sy_tokens S) fs)))"
proof -
  have "module_input_parse S (struct_tokens name content) = Inr (\<lparr>mi_ident = name, mi_fields = fs\<rparr>, [])"
    using assms by (subst module_input_parse_iff) (auto simp: struct_tokens_def peek_def)
  then show ?thesis
    by (simp add: module_macro_def parse_macro_input_def module_attrs_parse_def module_output_def struct_tokens_def)
qed

lemma module_macro_idempotent:
  assumes "ident_law S reserved" "module_macro S [] tokens = Inr out"
    and vis: "\<And>ts. sy_visibility S (Ident ''pub'' # Ident ''struct'' # ts) = Inr (Ident ''struct'' # ts)"
    and print: "\<And>content fs. sy_fields S content = Inr fs \<Longrightarrow> sy_fields S (separated (map (sy_tokens S) fs)) = Inr fs"
  shows "module_macro S [] out = Inr out"
proof -
  obtain item where item: "module_input_parse S tokens = Inr (item, [])" "out = module_output S item"
    using assms(2) by (auto simp: module_macro_def parse_macro_input_def bind_result_Inr_iff split: if_splits)
  then obtain content where c: "\<not> reserved (mi_ident item)" "sy_fields S content = Inr (mi_fields item)"
    using module_input_parse_iff [OF assms(1)] by blast
  have "module_input_parse S out = Inr (item, [])"
    by (subst module_input_parse_iff [OF assms(1)])
       (use c print vis in \<open>auto simp: item module_output_def struct_tokens_def peek_def\<close>)
  then show ?thesis by (simp add: module_macro_def parse_macro_input_def module_attrs_parse_def item(2))
qed

text \<open>The structs of the tests: an empty struct is accepted; an enum and a unit struct are rejected.\<close>

lemma module_macro_tests:
  assumes "ident_law S reserved" "\<not> reserved name" "sy_fields S [] = Inr []"
  shows "module_macro S [] (struct_tokens name []) = Inr (Ident ''pub'' # struct_tokens name [])"
    "module_macro S [] [Ident ''enum'', Ident name, Group Brace []] = Inl ''Modules must be structs''"
    "module_macro S [] [Ident ''struct'', Ident name, Punct CHR '';''] = Inl ''Modules can't be unit structs''"
proof -
  note defs = module_macro_def parse_macro_input_def module_attrs_parse_def module_input_parse_def peek_def
  show "module_macro S [] (struct_tokens name []) = Inr (Ident ''pub'' # struct_tokens name [])"
    using module_macro_private [OF assms] by simp
  show "module_macro S [] [Ident ''enum'', Ident name, Group Brace []] = Inl ''Modules must be structs''"
    by (simp add: defs)
  show "module_macro S [] [Ident ''struct'', Ident name, Punct CHR '';''] = Inl ''Modules can't be unit structs''"
    by (simp add: defs ident_lawD [OF assms(1,2)])
qed

text \<open>A library with fields of a name and a type, where the laws hold.\<close>

definition sample_syn :: "(string \<times> string) syn_lib" where
  "sample_syn =
     \<lparr>sy_visibility = (\<lambda>ts. Inr (tl ts)),
      sy_ident = (\<lambda>ts. case ts of Ident x # rest \<Rightarrow> if x = ''struct'' then Inl ''expected identifier'' else Inr (x, rest)
                        | _ \<Rightarrow> Inl ''expected identifier''),
      sy_fields = (\<lambda>ts. if ts = [] then Inr []
                        else case ts of [Ident n, Punct c, Ident t] \<Rightarrow> if c = CHR '':'' then Inr [(n, t)] else Inl ''expected :''
                           | _ \<Rightarrow> Inl ''unexpected token''),
      sy_tokens = (\<lambda>(n, t). [Ident n, Punct CHR '':'', Ident t])\<rparr>"

lemma sample_syn_ident_law: "ident_law sample_syn (\<lambda>x. x = ''struct'')"
  by (auto simp: ident_law_def sample_syn_def split: list.splits token_tree.splits)

lemma sample_module:
  "module_macro sample_syn [] (struct_tokens ''Lamp'' [Ident ''pin'', Punct CHR '':'', Ident ''u8'']) =
     Inr (Ident ''pub'' # struct_tokens ''Lamp'' [Ident ''pin'', Punct CHR '':'', Ident ''u8''])"
  using module_macro_private [OF sample_syn_ident_law, of "''Lamp''" "[Ident ''pin'', Punct CHR '':'', Ident ''u8'']" "[(''pin'', ''u8'')]"]
  by (simp add: sample_syn_def)

end
