(* ===== verification/Proc_Layout.thy ===== *)
theory Proc_Layout
  imports Prelude
begin

text \<open>
  The memory layout of a light process, \<open>runtime/lightproc/src/layout_helpers.rs\<close> and
  \<open>RawProc::proc_layout\<close>: a header, the schedule function, and a place that holds first
  the future and then its output.  Sizes are machine words and the additions wrap or
  are checked as in the code.
\<close>

record layout =
  lay_size :: u64
  lay_align :: u64

text \<open>\<open>Layout::from_size_align\<close>: the alignment is a power of two and the size, rounded up to
  it, fits a signed word.\<close>

definition is_power_of_two :: "u64 \<Rightarrow> bool" where
  "is_power_of_two a \<longleftrightarrow> (\<exists>k\<in>{..<64}. unat a = 2 ^ k)"

definition from_size_align :: "u64 \<Rightarrow> u64 \<Rightarrow> layout option" where
  "from_size_align sz al =
     (if is_power_of_two al \<and> unat sz + (unat al - 1) < 2 ^ 63 then Some \<lparr>lay_size = sz, lay_align = al\<rparr> else None)"

definition checked_add :: "u64 \<Rightarrow> u64 \<Rightarrow> u64 option" where
  "checked_add a b = (if unat a + unat b < 2 ^ 64 then Some (a + b) else None)"

definition padding_needed_for :: "layout \<Rightarrow> u64 \<Rightarrow> u64" where
  "padding_needed_for l al =
     (let len = lay_size l; len_rounded_up = (len + al - 1) AND NOT (al - 1) in len_rounded_up - len)"

definition layout_extend :: "layout \<Rightarrow> layout \<Rightarrow> (layout \<times> u64) outcome" where
  "layout_extend l nxt =
     (let new_align = max (lay_align l) (lay_align nxt); pad = padding_needed_for l (lay_align nxt) in
      case checked_add (lay_size l) pad of
        None \<Rightarrow> Panic
      | Some offset \<Rightarrow>
          (case checked_add offset (lay_size nxt) of
             None \<Rightarrow> Panic
           | Some new_size \<Rightarrow>
               (case from_size_align new_size new_align of
                  None \<Rightarrow> Panic
                | Some l' \<Rightarrow> Value (l', offset))))"

record proc_layout =
  pl_layout :: layout
  pl_offset_schedule :: u64
  pl_offset_future :: u64
  pl_offset_output :: u64

definition proc_layout_of :: "layout \<Rightarrow> layout \<Rightarrow> layout \<Rightarrow> layout \<Rightarrow> proc_layout outcome" where
  "proc_layout_of layout_pdata layout_schedule layout_future layout_output =
     (let size_union = max (lay_size layout_future) (lay_size layout_output);
          align_union = max (lay_align layout_future) (lay_align layout_output);
          layout_union = \<lparr>lay_size = size_union, lay_align = align_union\<rparr> in
      bind_outcome (layout_extend layout_pdata layout_schedule) (\<lambda>(l1, offset_schedule).
      bind_outcome (layout_extend l1 layout_union) (\<lambda>(l2, offset_union).
        Value \<lparr>pl_layout = l2, pl_offset_schedule = offset_schedule, pl_offset_future = offset_union,
               pl_offset_output = offset_union\<rparr>)))"

subsection \<open>Padding\<close>

text \<open>Every layout that Rust hands out satisfies this.\<close>

definition layout_ok :: "layout \<Rightarrow> bool" where
  "layout_ok l \<longleftrightarrow> is_power_of_two (lay_align l) \<and> unat (lay_size l) + (unat (lay_align l) - 1) < 2 ^ 63"

lemma and_not_mask:
  fixes x al :: u64
  assumes "unat al = 2 ^ k" "k < 64"
  shows "unat (x AND NOT (al - 1)) = unat x - unat x mod 2 ^ k"
proof -
  have "al = of_nat (unat al)" by simp
  then have "al = 2 ^ k" unfolding assms(1) by simp
  then have m: "al - 1 = mask k" by (simp add: mask_eq_exp_minus_1)
  have "x = (x AND NOT (mask k)) + (x AND mask k)"
    by (subst disjunctive_add) (auto simp: bit_simps intro!: bit_word_eqI)
  then have "x AND NOT (mask k) = x - (x AND mask k)" by (simp add: eq_diff_eq)
  moreover have "x AND mask k \<le> x" by (simp add: word_and_le2)
  moreover have "unat (x AND mask k) = unat x mod 2 ^ k"
    unfolding take_bit_eq_mask [symmetric] unsigned_take_bit_eq by (simp add: take_bit_eq_mod)
  ultimately show ?thesis using m by (simp add: unat_sub)
qed

lemma padding_aligns:
  assumes "is_power_of_two al" "unat (lay_size l) + (unat al - 1) < 2 ^ 64"
  shows "(unat (lay_size l) + unat (padding_needed_for l al)) mod unat al = 0"
    and "unat (padding_needed_for l al) < unat al"
proof -
  obtain k where k: "k < 64" "unat al = 2 ^ k" using assms(1) by (auto simp: is_power_of_two_def)
  let ?n = "unat (lay_size l)"
  let ?up = "(?n + (2 ^ k - 1)) - (?n + (2 ^ k - 1)) mod 2 ^ k"
  have "unat (al - 1) = 2 ^ k - 1" using k by (simp add: unat_sub_if')
  then have "unat (lay_size l + (al - 1)) = ?n + (2 ^ k - 1)"
    using assms(2) k by (simp add: unat_plus_if')
  then have "unat (lay_size l + al - 1) = ?n + (2 ^ k - 1)" by (simp add: algebra_simps)
  then have up: "unat ((lay_size l + al - 1) AND NOT (al - 1)) = ?up" using and_not_mask k by simp
  have "(?n + (2 ^ k - 1)) mod 2 ^ k < 2 ^ k" by simp
  moreover have "m < p \<Longrightarrow> n \<le> n + (p - 1) - m \<and> n + (p - 1) - m < n + p" for m n p :: nat by arith
  ultimately have ge: "?n \<le> ?up" "?up < ?n + 2 ^ k" by blast+
  then have "unat (padding_needed_for l al) = ?up - ?n"
    by (simp add: padding_needed_for_def Let_def unat_sub_if' up)
  moreover have "?up mod 2 ^ k = 0" by (simp add: minus_mod_eq_mult_div)
  moreover have "?n + (?up - ?n) = ?up" using ge by simp
  ultimately have "(?n + unat (padding_needed_for l al)) mod 2 ^ k = 0" by metis
  then show "(?n + unat (padding_needed_for l al)) mod unat al = 0" "unat (padding_needed_for l al) < unat al"
    using ge k \<open>unat (padding_needed_for l al) = ?up - ?n\<close> by simp_all
qed

lemma layout_extend_fits:
  assumes "layout_ok l" "layout_ok nxt" "layout_extend l nxt = Value (l', offset)"
  shows "layout_ok l'" and "unat (lay_size l) \<le> unat offset" and "unat offset mod unat (lay_align nxt) = 0"
    and "unat offset < unat (lay_size l) + unat (lay_align nxt)"
    and "unat (lay_size l') = unat offset + unat (lay_size nxt)" and "lay_align l' = max (lay_align l) (lay_align nxt)"
proof -
  let ?pad = "padding_needed_for l (lay_align nxt)"
  have pow: "is_power_of_two (lay_align nxt)" using assms(2) by (simp add: layout_ok_def)
  have "unat (lay_align nxt) \<le> 2 ^ 63"
  proof -
    obtain k where "k < 64" "unat (lay_align nxt) = 2 ^ k" using pow by (auto simp: is_power_of_two_def)
    then show ?thesis using power_increasing [of k 63 "2 :: nat"] by simp
  qed
  moreover have "unat (lay_size l) < 2 ^ 63" using assms(1) by (auto simp: layout_ok_def)
  ultimately have fits: "unat (lay_size l) + (unat (lay_align nxt) - 1) < 2 ^ 64" by simp
  note pad = padding_aligns [OF pow fits]
  have off: "offset = lay_size l + ?pad" "unat (lay_size l) + unat ?pad < 2 ^ 64"
    and new: "unat offset + unat (lay_size nxt) < 2 ^ 64"
      "from_size_align (offset + lay_size nxt) (max (lay_align l) (lay_align nxt)) = Some l'"
    using assms(3) by (auto simp: layout_extend_def Let_def checked_add_def split: option.splits if_splits)
  then have offset: "unat offset = unat (lay_size l) + unat ?pad" by (simp add: unat_plus_if')
  show "layout_ok l'" "lay_align l' = max (lay_align l) (lay_align nxt)"
    and "unat (lay_size l') = unat offset + unat (lay_size nxt)"
    using new by (auto simp: from_size_align_def layout_ok_def unat_plus_if' split: if_splits)
  show "unat (lay_size l) \<le> unat offset" "unat offset mod unat (lay_align nxt) = 0"
    "unat offset < unat (lay_size l) + unat (lay_align nxt)"
    using pad by (simp_all add: offset)
qed

lemma max_align_ok:
  assumes "layout_ok a" "layout_ok b"
    and "unat (max (lay_size a) (lay_size b)) + (unat (max (lay_align a) (lay_align b)) - 1) < 2 ^ 63"
  shows "layout_ok \<lparr>lay_size = max (lay_size a) (lay_size b), lay_align = max (lay_align a) (lay_align b)\<rparr>"
  using assms by (auto simp: layout_ok_def max_def)

subsection \<open>Properties\<close>



end
