(* ===== verification/Lightproc_Awaiter.thy ===== *)
theory Lightproc_Awaiter
  imports Lightproc_Correct
begin

text \<open>
  Who awaits a light process is woken when it is done.  The flag \<open>AWAITER\<close> says whether a waker is
  registered, and a process that is completed or closed has none left: every operation that
  finishes or closes the process wakes the registered waker.
\<close>

subsection \<open>The registered waker\<close>

definition awaiter_ok :: "('r, 'w) proc \<Rightarrow> bool" where
  "awaiter_ok p \<longleftrightarrow> (\<exists>f r. pr_state p = word_of f r \<and> bit f 5 = (pr_awaiter p \<noteq> None) \<and>
     (bit f 2 \<or> bit f 3 \<longrightarrow> pr_awaiter p = None))"

text \<open>The waker stays registered or is woken.\<close>

definition hands_over :: "('r, 'w) proc \<Rightarrow> ('r, 'w) proc \<Rightarrow> bool" where
  "hands_over p p' \<longleftrightarrow>
     pr_awaiter p' = pr_awaiter p \<and> pr_woken p' = pr_woken p \<or>
     pr_awaiter p' = None \<and> pr_woken p' = pr_woken p @ (case pr_awaiter p of None \<Rightarrow> [] | Some w \<Rightarrow> [w])"

definition awaiter_step :: "('r, 'w) proc \<Rightarrow> ('r, 'w) proc \<Rightarrow> bool" where
  "awaiter_step p p' \<longleftrightarrow> awaiter_ok p' \<and> hands_over p p'"

lemma hands_over_same [simp]: "\<lbrakk>pr_awaiter p' = pr_awaiter p; pr_woken p' = pr_woken p\<rbrakk> \<Longrightarrow> hands_over p p'"
  by (simp add: hands_over_def)

lemma awaiter_okE:
  assumes "awaiter_ok p"
  obtains f r where "pr_state p = word_of f r" "bit f 5 = (pr_awaiter p \<noteq> None)" "bit f 2 \<or> bit f 3 \<longrightarrow> pr_awaiter p = None"
  using assms unfolding awaiter_ok_def by blast

lemma awaiter_okI:
  "\<lbrakk>pr_state p = word_of f r; bit f 5 = (pr_awaiter p \<noteq> None); bit f 2 \<or> bit f 3 \<Longrightarrow> pr_awaiter p = None\<rbrakk> \<Longrightarrow> awaiter_ok p"
  unfolding awaiter_ok_def by blast

subsection \<open>The parts of the operations\<close>

lemma live_same: "live_proc p = Inr p' \<Longrightarrow> p' = p"
  by (simp add: live_proc_def split: if_splits)

lemma drop_future_same: "drop_future p = Inr p' \<Longrightarrow> p' = p\<lparr>pr_slot := Vacant\<rparr>"
  by (cases "pr_live p"; cases "pr_slot p") (simp_all add: drop_future_def live_proc_def)

lemma read_output_same: "read_output p = Inr (out, p') \<Longrightarrow> p' = p\<lparr>pr_slot := Vacant\<rparr>"
  by (cases "pr_live p"; cases "pr_slot p") (simp_all add: read_output_def live_proc_def)

lemma decrement_word:
  assumes "pr_state p = word_of f r" "r \<noteq> 0" "decrement p = Inr p'"
  shows "pr_state p' = word_of f (r - 1)" "pr_awaiter p' = pr_awaiter p" "pr_woken p' = pr_woken p"
proof -
  have one: "unat (1 :: u32) \<le> unat r" using assms(2) unat_pos_less [of r] by simp
  have "p' = p\<lparr>pr_state := word_of f (r - 1)\<rparr> \<or> p' = p\<lparr>pr_state := word_of f (r - 1), pr_live := False\<rparr>"
    using assms(1,3)
    by (auto simp: decrement_def fetch_sub_new [OF one] destroy_def Let_def bind_result_Inr_iff split: if_splits dest!: live_same)
  then show "pr_state p' = word_of f (r - 1)" "pr_awaiter p' = pr_awaiter p" "pr_woken p' = pr_woken p" by auto
qed

lemma decrement_awaiter:
  assumes "awaiter_ok p" "pr_state p = word_of f r" "r \<noteq> 0" "decrement p = Inr p'"
  shows "awaiter_ok p'" "pr_awaiter p' = pr_awaiter p" "pr_woken p' = pr_woken p"
proof -
  note d = decrement_word [OF assms(2-4)]
  have "bit f 5 = (pr_awaiter p \<noteq> None)" "bit f 2 \<or> bit f 3 \<Longrightarrow> pr_awaiter p = None"
    using assms(1,2) by (auto simp: awaiter_ok_def)
  then show "awaiter_ok p'" by (intro awaiter_okI [OF d(1)]) (simp_all add: d(2))
qed (use decrement_word [OF assms(2-4)] in simp_all)

lemma swap_awaiter_word:
  assumes "pr_state p = word_of f r" "swap_awaiter p new = Inr (old, p')"
  shows "old = pr_awaiter p" "p' = p\<lparr>pr_awaiter := new, pr_state := word_of ((f OR acquire_flags new) AND release_flags new) r\<rparr>"
proof -
  have "bit (acquire_flags new) 6" by (simp add: acquire_flags_def bit_or_iff)
  then show "old = pr_awaiter p" "p' = p\<lparr>pr_awaiter := new, pr_state := word_of ((f OR acquire_flags new) AND release_flags new) r\<rparr>"
    using assms by (cases "pr_live p"; simp add: swap_awaiter_def live_proc_def acquire_word fetch_and_new Let_def)+
qed

text \<open>The bits of the flags below the awaiter are kept.\<close>

lemma notify_word:
  assumes "pr_state p = word_of f r" "notify p = Inr p'"
  shows "pr_awaiter p' = None" "pr_woken p' = pr_woken p @ (case pr_awaiter p of None \<Rightarrow> [] | Some w \<Rightarrow> [w])"
    "\<exists>f'. pr_state p' = word_of f' r \<and> \<not> bit f' 5 \<and> bit f' 2 = bit f 2 \<and> bit f' 3 = bit f 3"
proof -
  obtain old p1 where sw: "swap_awaiter p None = Inr (old, p1)"
    and p': "p' = (case old of None \<Rightarrow> p1 | Some waker \<Rightarrow> p1\<lparr>pr_woken := pr_woken p1 @ [waker]\<rparr>)"
    using assms(2) by (auto simp: notify_def bind_result_Inr_iff split: option.splits)
  let ?f = "(f OR acquire_flags (None :: 'b option)) AND release_flags (None :: 'b option)"
  note s = swap_awaiter_word [OF assms(1) sw]
  have "\<not> bit ?f 5" "bit ?f 2 = bit f 2" "bit ?f 3 = bit f 3" by (auto simp: acquire_flags_def release_flags_def bit_simps)
  then show "pr_awaiter p' = None" "pr_woken p' = pr_woken p @ (case pr_awaiter p of None \<Rightarrow> [] | Some w \<Rightarrow> [w])"
    "\<exists>f'. pr_state p' = word_of f' r \<and> \<not> bit f' 5 \<and> bit f' 2 = bit f 2 \<and> bit f' 3 = bit f 3"
    by (auto simp: p' s split: option.splits)
qed

text \<open>Waking the registered waker, if the flag says there is one.\<close>

lemma notify_if_word:
  assumes "pr_state p = word_of f r" "bit f' 5 = (pr_awaiter p \<noteq> None)" "bit f 5 = bit f' 5"
    and "(if bit f' 5 then notify p else Inr p) = Inr p'"
  shows "pr_awaiter p' = None" "pr_woken p' = pr_woken p @ (case pr_awaiter p of None \<Rightarrow> [] | Some w \<Rightarrow> [w])"
    "\<exists>f. pr_state p' = word_of f r \<and> \<not> bit f 5"
proof -
  have c: "pr_awaiter p' = None \<and> pr_woken p' = pr_woken p @ (case pr_awaiter p of None \<Rightarrow> [] | Some w \<Rightarrow> [w]) \<and>
      (\<exists>f. pr_state p' = word_of f r \<and> \<not> bit f 5)"
  proof (cases "bit f' 5")
    case True
    then show ?thesis using notify_word [OF assms(1)] assms(4) by auto
  next
    case False
    then show ?thesis using assms by auto
  qed
  then show "pr_awaiter p' = None" "pr_woken p' = pr_woken p @ (case pr_awaiter p of None \<Rightarrow> [] | Some w \<Rightarrow> [w])"
    "\<exists>f. pr_state p' = word_of f r \<and> \<not> bit f 5" by blast+
qed

text \<open>Waking and giving a reference up.\<close>

lemma notify_decrement:
  assumes "pr_state p = word_of f r" "bit f' 5 = (pr_awaiter p \<noteq> None)" "bit f 5 = bit f' 5" "r \<noteq> 0"
    and "bind_result (if bit f' 5 then notify p else Inr p) decrement = Inr p'"
  shows "awaiter_step p p'"
proof -
  obtain p1 where p1: "(if bit f' 5 then notify p else Inr p) = Inr p1" "decrement p1 = Inr p'"
    using assms(5) by (auto simp: bind_result_Inr_iff)
  note n = notify_if_word [OF assms(1-3) p1(1)]
  obtain f1 where f1: "pr_state p1 = word_of f1 r" "\<not> bit f1 5" using n(3) by blast
  note d = decrement_word [OF f1(1) assms(4) p1(2)]
  have "awaiter_ok p'" by (rule awaiter_okI [OF d(1)]) (simp_all add: d f1(2) n(1))
  then show ?thesis using n d by (simp add: awaiter_step_def hands_over_def)
qed

subsection \<open>The operations\<close>

abbreviation references_of :: "('r, 'w) proc \<Rightarrow> u32" where
  "references_of p \<equiv> get_refcount (proc_load p)"

text \<open>A change of flags other than those of the awaiter, of completion and of closing.\<close>

lemma exchange_awaiter:
  assumes "awaiter_ok p" "pr_state p = word_of f r" "bit f' 5 = bit f 5" "bit f' 2 = bit f 2" "bit f' 3 = bit f 3"
    and "pr_state p' = word_of f' r'" "pr_awaiter p' = pr_awaiter p" "pr_woken p' = pr_woken p"
  shows "awaiter_step p p'"
proof -
  have "bit f 5 = (pr_awaiter p \<noteq> None)" "bit f 2 \<or> bit f 3 \<Longrightarrow> pr_awaiter p = None"
    using assms(1,2) by (auto simp: awaiter_ok_def)
  then have "awaiter_ok p'" using assms(3-7) by (intro awaiter_okI [OF assms(6)]) auto
  then show ?thesis using assms(7,8) by (simp add: awaiter_step_def)
qed

lemma step_decrement:
  assumes "awaiter_step p p1" "pr_state p1 = word_of f r" "r \<noteq> 0" "decrement p1 = Inr p'"
  shows "awaiter_step p p'"
  using decrement_awaiter [OF _ assms(2-4)] assms(1) by (auto simp: awaiter_step_def hands_over_def)

lemma step_refl: "awaiter_ok p \<Longrightarrow> awaiter_step p p"
  by (simp add: awaiter_step_def)

lemma step_same: "awaiter_step p p1 \<Longrightarrow> \<lbrakk>pr_state p2 = pr_state p1; pr_awaiter p2 = pr_awaiter p1; pr_woken p2 = pr_woken p1\<rbrakk> \<Longrightarrow> awaiter_step p p2"
  by (simp add: awaiter_step_def awaiter_ok_def hands_over_def)

lemma wake_awaiter:
  assumes "awaiter_ok p" "references_of p \<noteq> 0" "wake p = Inr p'"
  shows "awaiter_step p p'"
proof -
  obtain f r where p: "pr_state p = word_of f r" using assms(1) by (rule awaiter_okE)
  have r: "r \<noteq> 0" and live: "pr_live p" using assms(2,3) p by (auto simp: wake_def live_proc_def split: if_splits)
  let ?p1 = "p\<lparr>pr_state := word_of (f OR SCHEDULED) r\<rparr>"
  have e: "awaiter_step p ?p1" by (rule exchange_awaiter [OF assms(1) p, of "f OR SCHEDULED"]) (auto simp: bit_simps)
  have sch: "awaiter_step p (schedule ?p1)" by (rule step_same [OF e]) (simp_all add: schedule_def)
  have same: "decrement (p\<lparr>pr_state := word_of f r\<rparr>) = decrement p" unfolding p [symmetric] by simp
  have "wake p = (if bit f 2 \<or> bit f 3 \<or> bit f 0 then decrement p else if bit f 1 then decrement ?p1 else Inr (schedule ?p1))"
    using p live
    by (cases "bit f 2"; cases "bit f 3"; cases "bit f 0"; cases "bit f 1")
       (simp_all add: wake_def live_proc_def is_scheduled_def is_running_def Let_def same)
  then consider "decrement p = Inr p'" | "p' = schedule ?p1" | "decrement ?p1 = Inr p'"
    using assms(3) by (simp split: if_splits)
  then show ?thesis
  proof cases
    case 1
    show ?thesis by (rule step_decrement [OF step_refl [OF assms(1)] p r 1])
  next
    case 2
    then show ?thesis using sch by simp
  next
    case 3
    have w: "pr_state ?p1 = word_of (f OR SCHEDULED) r" by simp
    show ?thesis by (rule step_decrement [OF e w r 3])
  qed
qed

lemma wake_by_ref_awaiter:
  assumes "awaiter_ok p" "wake_by_ref p = Inr p'"
  shows "awaiter_step p p'"
proof -
  obtain f r where p: "pr_state p = word_of f r" using assms(1) by (rule awaiter_okE)
  have live: "pr_live p" using assms(2) by (auto simp: wake_by_ref_def live_proc_def split: if_splits)
  have e: "awaiter_step p p1" if "pr_state p1 = word_of (f OR SCHEDULED) r'" "pr_awaiter p1 = pr_awaiter p" "pr_woken p1 = pr_woken p"
    for p1 :: "('a, 'b) proc" and r'
    by (rule exchange_awaiter [OF assms(1) p _ _ _ that]) (auto simp: bit_simps)
  have "p' = p \<or> p' = p\<lparr>pr_state := word_of f r\<rparr> \<or> (\<exists>r' q. p' = p\<lparr>pr_state := word_of (f OR SCHEDULED) r', pr_queue := q\<rparr>) \<or>
      p' = p\<lparr>pr_state := word_of (f OR SCHEDULED) r\<rparr>"
    using assms(2) p live by (auto simp: wake_by_ref_def live_proc_def schedule_def Let_def split: if_splits)
  moreover have "p\<lparr>pr_state := word_of f r\<rparr> = p" unfolding p [symmetric] by simp
  ultimately show ?thesis using step_refl [OF assms(1)] e by auto
qed

lemma clone_waker_awaiter:
  assumes "awaiter_ok p" "unat (references_of p) + 1 < 2 ^ 32" "clone_waker p = Inr p'"
  shows "awaiter_step p p'"
proof -
  obtain f r where p: "pr_state p = word_of f r" using assms(1) by (rule awaiter_okE)
  have live: "pr_live p" using assms(3) by (auto simp: clone_waker_def live_proc_def split: if_splits)
  have "unat r + unat (1 :: u32) < 2 ^ 32" using assms(2) p by simp
  then have "p' = p\<lparr>pr_state := word_of f (r + 1)\<rparr>"
    using assms(3) p live by (auto simp: clone_waker_def live_proc_def fetch_add_new split: if_splits)
  then show ?thesis using exchange_awaiter [OF assms(1) p, of f] by simp
qed

text \<open>Closing or completing a process hands its waker over.\<close>

lemma hand_over_decrement:
  assumes "awaiter_ok p" "pr_state p = word_of f r" "r \<noteq> 0"
    and "pr_state p1 = word_of f1 r" "bit f1 5 = bit f 5" "pr_awaiter p1 = pr_awaiter p" "pr_woken p1 = pr_woken p"
    and "bind_result (if is_awaiter (state_new f r) then notify p1 else Inr p1) decrement = Inr p'"
  shows "awaiter_step p p'"
proof -
  have "bit f 5 = (pr_awaiter p \<noteq> None)" using assms(1,2) by (auto simp: awaiter_ok_def)
  then have "awaiter_step p1 p'"
    using assms(4-8) by (intro notify_decrement [OF assms(4) _ assms(5) assms(3)]) (simp_all add: is_awaiter_def)
  then show ?thesis using assms(6,7) by (simp add: awaiter_step_def hands_over_def)
qed

lemma pdata_cancel_awaiter:
  assumes "awaiter_ok p" "pr_state p = word_of f r" "pdata_cancel p = Inr p'"
  shows "awaiter_step p p' \<and> (\<exists>f'. pr_state p' = word_of f' r)"
proof -
  have live: "pr_live p" using assms(3) by (auto simp: pdata_cancel_def live_proc_def split: if_splits)
  have aw: "bit f 5 = (pr_awaiter p \<noteq> None)" using assms(1,2) by (auto simp: awaiter_ok_def)
  let ?p1 = "p\<lparr>pr_state := word_of (f OR CLOSED) r\<rparr>"
  have "pdata_cancel p = (if bit f 2 \<or> bit f 3 then Inr p else if bit f 5 then notify ?p1 else Inr ?p1)"
    using assms(2) live by (cases "bit f 2"; cases "bit f 3") (simp_all add: pdata_cancel_def live_proc_def is_awaiter_def Let_def)
  then consider "p' = p" | "(if bit f 5 then notify ?p1 else Inr ?p1) = Inr p'" using assms(3) by (auto split: if_splits)
  then show ?thesis
  proof cases
    case 1
    then show ?thesis using step_refl [OF assms(1)] assms(2) by auto
  next
    case 2
    have w: "pr_state ?p1 = word_of (f OR CLOSED) r" "bit f 5 = (pr_awaiter ?p1 \<noteq> None)" "bit (f OR CLOSED) 5 = bit f 5"
      using aw by (simp_all add: bit_simps)
    note n = notify_if_word [OF w 2]
    obtain f' where f': "pr_state p' = word_of f' r" "\<not> bit f' 5" using n(3) by blast
    have "awaiter_ok p'" by (rule awaiter_okI [OF f'(1)]) (simp_all add: f'(2) n(1))
    then show ?thesis using n f' by (auto simp: awaiter_step_def hands_over_def)
  qed
qed

lemma lightproc_drop_awaiter:
  assumes "awaiter_ok p" "references_of p \<noteq> 0" "lightproc_drop p = Inr p'"
  shows "awaiter_step p p'"
proof -
  let ?q = "p\<lparr>pr_queue := pr_queue p - 1\<rparr>"
  obtain f r where p: "pr_state p = word_of f r" using assms(1) by (rule awaiter_okE)
  have r: "r \<noteq> 0" using assms(2) p by simp
  obtain p1 p2 where c: "pdata_cancel ?q = Inr p1" "drop_future p1 = Inr p2" "decrement p2 = Inr p'"
    using assms(3) by (auto simp: lightproc_drop_def bind_result_Inr_iff)
  have "awaiter_ok ?q" using assms(1) by (simp add: awaiter_ok_def)
  then obtain f1 where a: "awaiter_step ?q p1" "pr_state p1 = word_of f1 r"
    using pdata_cancel_awaiter [of ?q f r p1] p c(1) by auto
  then have "awaiter_step ?q p2" "pr_state p2 = word_of f1 r"
    using drop_future_same [OF c(2)] by (auto intro: step_same)
  then have "awaiter_step ?q p'" using step_decrement r c(3) by blast
  then show ?thesis by (simp add: awaiter_step_def hands_over_def)
qed

lemma tick_begin_awaiter:
  assumes "awaiter_ok p" "references_of p \<noteq> 0" "tick_begin p = Inr (b, p')"
  shows "awaiter_step p p'"
proof -
  obtain f r where p: "pr_state p = word_of f r" and aw: "bit f 5 = (pr_awaiter p \<noteq> None)" "bit f 2 \<or> bit f 3 \<longrightarrow> pr_awaiter p = None"
    using assms(1) by (rule awaiter_okE)
  have r: "r \<noteq> 0" and live: "pr_live p" using assms(2,3) p by (auto simp: tick_begin_def live_proc_def split: if_splits)
  show ?thesis
  proof (cases "bit f 3")
    case True
    then have "\<not> bit f 5" using aw by simp
    then obtain p1 where c: "drop_future p = Inr p1" "decrement p1 = Inr p'"
      using assms(3) p live True
      by (auto simp: tick_begin_def live_proc_def is_closed_def is_awaiter_def Let_def bind_result_Inr_iff)
    have "awaiter_step p p1" "pr_state p1 = word_of f r"
      using step_same [OF step_refl [OF assms(1)]] drop_future_same [OF c(1)] p by auto
    then show ?thesis using step_decrement r c(2) by blast
  next
    case False
    then have "p' = p\<lparr>pr_state := word_of ((f AND flags_not SCHEDULED) OR RUNNING) r\<rparr>"
      using assms(3) p live by (auto simp: tick_begin_def live_proc_def is_closed_def Let_def)
    then show ?thesis
      by (intro exchange_awaiter [OF assms(1) p, of "(f AND flags_not SCHEDULED) OR RUNNING" p' r]) (auto simp: bit_simps)
  qed
qed

lemma tick_ready_awaiter:
  assumes "awaiter_ok p" "references_of p \<noteq> 0" "tick_ready p out = Inr p'"
  shows "awaiter_step p p'"
proof -
  obtain f r where p: "pr_state p = word_of f r" using assms(1) by (rule awaiter_okE)
  have r: "r \<noteq> 0" using assms(2) p by simp
  let ?st = "state_new f r"
  let ?f = "if \<not> is_handle ?st then (f AND all_flags) OR COMPLETED OR CLOSED else (f AND all_flags) OR COMPLETED"
  obtain p0 where p0: "drop_future p = Inr p0" using assms(3) by (auto simp: tick_ready_def bind_result_Inr_iff)
  let ?p1 = "p0\<lparr>pr_slot := OutputIn out, pr_state := word_of ?f r\<rparr>"
  have load: "proc_load (p0\<lparr>pr_slot := OutputIn out\<rparr>) = ?st" using drop_future_same [OF p0] p by simp
  have eq: "tick_ready p out = bind_result
      (if \<not> is_handle ?st \<or> is_closed ?st then bind_result (read_output ?p1) (\<lambda>(out, p). Inr p) else Inr ?p1)
      (\<lambda>p2. bind_result (if is_awaiter ?st then notify p2 else Inr p2) decrement)"
    by (simp add: tick_ready_def p0 load Let_def cong: if_cong)
  obtain p2 where c: "(if \<not> is_handle ?st \<or> is_closed ?st then bind_result (read_output ?p1) (\<lambda>(out, p). Inr p) else Inr ?p1) = Inr p2"
      "bind_result (if is_awaiter ?st then notify p2 else Inr p2) decrement = Inr p'"
    using assms(3) unfolding eq bind_result_Inr_iff by blast
  have "pr_state p2 = word_of ?f r \<and> pr_awaiter p2 = pr_awaiter p \<and> pr_woken p2 = pr_woken p"
    using c(1) drop_future_same [OF p0]
    by (cases "\<not> is_handle ?st \<or> is_closed ?st") (auto simp: bind_result_Inr_iff dest!: read_output_same)
  moreover have "bit ?f 5 = bit f 5" by (simp add: bit_simps)
  ultimately show ?thesis using hand_over_decrement [OF assms(1) p r _ _ _ _ c(2)] by blast
qed

lemma tick_pending_awaiter:
  assumes "awaiter_ok p" "references_of p \<noteq> 0" "tick_pending p = Inr p'"
  shows "awaiter_step p p'"
proof -
  obtain f r where p: "pr_state p = word_of f r" using assms(1) by (rule awaiter_okE)
  have r: "r \<noteq> 0" and live: "pr_live p" using assms(2,3) p by (auto simp: tick_pending_def live_proc_def split: if_splits)
  let ?f = "if bit f 3 then f AND flags_not (RUNNING OR SCHEDULED) else f AND flags_not RUNNING"
  let ?p1 = "p\<lparr>pr_state := word_of ?f r\<rparr>"
  have e: "awaiter_step p ?p1" by (rule exchange_awaiter [OF assms(1) p, of ?f]) (auto simp: bit_simps)
  have t: "tick_pending p = (if bit f 3 then bind_result (drop_future ?p1) decrement
      else if bit f 0 then Inr (schedule ?p1) else decrement ?p1)"
    using p live by (cases "bit f 3"; cases "bit f 0") (simp_all add: tick_pending_def live_proc_def is_closed_def is_scheduled_def Let_def)
  consider p2 where "drop_future ?p1 = Inr p2" "decrement p2 = Inr p'" | "p' = schedule ?p1" | "decrement ?p1 = Inr p'"
    using assms(3) unfolding t by (auto simp: bind_result_Inr_iff split: if_splits)
  then show ?thesis
  proof cases
    case (1 p2)
    then have "awaiter_step p p2" "pr_state p2 = word_of ?f r"
      using step_same [OF e] drop_future_same [OF 1(1)] by auto
    then show ?thesis using step_decrement r 1(2) by blast
  next
    case 2
    then show ?thesis using step_same [OF e] by (simp add: schedule_def)
  next
    case 3
    have "pr_state ?p1 = word_of ?f r" by simp
    then show ?thesis using step_decrement [OF e _ r 3] by blast
  qed
qed

lemma guard_drop_awaiter:
  assumes "awaiter_ok p" "references_of p \<noteq> 0" "guard_drop p = Inr p'"
  shows "awaiter_step p p'"
proof -
  obtain f r where p: "pr_state p = word_of f r" using assms(1) by (rule awaiter_okE)
  have r: "r \<noteq> 0" and live: "pr_live p" using assms(2,3) p by (auto simp: guard_drop_def live_proc_def split: if_splits)
  show ?thesis
  proof (cases "bit f 3")
    case True
    let ?p1 = "p\<lparr>pr_state := word_of (f AND flags_not SCHEDULED) r\<rparr>"
    obtain p2 where c: "drop_future ?p1 = Inr p2" "decrement p2 = Inr p'"
      using assms(3) p live True
      by (auto simp: guard_drop_def live_proc_def is_closed_def fetch_and_new Let_def bind_result_Inr_iff)
    have e: "awaiter_step p ?p1" by (rule exchange_awaiter [OF assms(1) p, of "f AND flags_not SCHEDULED"]) (auto simp: bit_simps)
    have "awaiter_step p p2" "pr_state p2 = word_of (f AND flags_not SCHEDULED) r"
      using step_same [OF e] drop_future_same [OF c(1)] by auto
    then show ?thesis using step_decrement r c(2) by blast
  next
    case False
    let ?f = "(f AND all_flags) OR CLOSED"
    obtain p2 where c: "drop_future (p\<lparr>pr_state := word_of ?f r\<rparr>) = Inr p2"
        "bind_result (if is_awaiter (state_new f r) then notify p2 else Inr p2) decrement = Inr p'"
      using assms(3) p live False by (auto simp: guard_drop_def live_proc_def is_closed_def Let_def bind_result_Inr_iff)
    have "pr_state p2 = word_of ?f r" "pr_awaiter p2 = pr_awaiter p" "pr_woken p2 = pr_woken p" "bit ?f 5 = bit f 5"
      using drop_future_same [OF c(1)] by (simp_all add: bit_simps)
    then show ?thesis using hand_over_decrement [OF assms(1) p r _ _ _ _ c(2)] by blast
  qed
qed

subsection \<open>The handle\<close>

lemma notify_unless_word:
  assumes "pr_state p = word_of f r" "notify_unless p w = Inr p'"
  shows "pr_awaiter p' = None" "awaiter_ok p'"
proof -
  obtain old p1 where sw: "swap_awaiter p None = Inr (old, p1)"
    and un: "(case old of None \<Rightarrow> Inr p1
      | Some waker \<Rightarrow> if waker \<noteq> w then Inr (p1\<lparr>pr_woken := pr_woken p1 @ [waker]\<rparr>) else Inr p1) = (Inr p' :: ('a, 'b) pres)"
    using assms(2) by (auto simp: notify_unless_def bind_result_Inr_iff)
  have p': "p' = p1 \<or> (\<exists>waker. p' = p1\<lparr>pr_woken := pr_woken p1 @ [waker]\<rparr>)"
    using un by (auto split: option.splits if_splits)
  let ?f = "(f OR acquire_flags (None :: 'b option)) AND release_flags (None :: 'b option)"
  note s = swap_awaiter_word [OF assms(1) sw]
  have "\<not> bit ?f 5" by (auto simp: acquire_flags_def release_flags_def bit_simps)
  then show "pr_awaiter p' = None" "awaiter_ok p'" using p' by (auto simp: s(2) awaiter_ok_def)
qed

lemma handle_take_awaiter:
  assumes "awaiter_ok p" "handle_take p w = Inr (res, p')"
  shows "awaiter_ok p' \<and> res \<noteq> HandlePending"
proof -
  obtain f r where p: "pr_state p = word_of f r" and aw: "bit f 5 = (pr_awaiter p \<noteq> None)" using assms(1) by (rule awaiter_okE)
  let ?p1 = "p\<lparr>pr_state := word_of (f OR CLOSED) r\<rparr>"
  obtain p2 out where c: "(if bit f 5 then notify_unless ?p1 w else Inr ?p1) = Inr p2" "read_output p2 = Inr (out, p')"
      "res = HandleReady (Some out)"
    using assms(2) p by (auto simp: handle_take_def is_awaiter_def Let_def bind_result_Inr_iff)
  have w: "pr_state ?p1 = word_of (f OR CLOSED) r" by simp
  have "awaiter_ok p2"
  proof (cases "bit f 5")
    case True
    then show ?thesis using notify_unless_word [OF w] c(1) by simp
  next
    case False
    then show ?thesis using c(1) aw by (auto intro: awaiter_okI [of _ "f OR CLOSED" r] simp: bit_simps)
  qed
  then show ?thesis using read_output_same [OF c(2)] c(3) by (simp add: awaiter_ok_def)
qed

lemma handle_poll_awaiter:
  assumes "awaiter_ok p" "handle_poll p w = Inr (res, p')"
  shows "awaiter_ok p' \<and> (res = HandlePending \<longrightarrow> pr_awaiter p' = Some w)"
proof -
  obtain f r where p: "pr_state p = word_of f r" using assms(1) by (rule awaiter_okE)
  have live: "pr_live p" using assms(2) by (auto simp: handle_poll_def live_proc_def split: if_splits)
  consider "bit f 3" | "\<not> bit f 3" "bit f 2" | "\<not> bit f 3" "\<not> bit f 2" by blast
  then show ?thesis
  proof cases
    case 1
    then have "notify_unless p w = Inr p'" "res = HandleReady None"
      using assms(2) p live by (auto simp: handle_poll_def live_proc_def is_closed_def bind_result_Inr_iff)
    then show ?thesis using notify_unless_word [OF p] by simp
  next
    case 2
    then have "handle_take p w = Inr (res, p')"
      using assms(2) p live by (simp add: handle_poll_def live_proc_def is_closed_def is_completed_def)
    then show ?thesis using handle_take_awaiter [OF assms(1)] by simp
  next
    case 3
    let ?f = "(f OR acquire_flags (Some w)) AND release_flags (Some w)"
    obtain old p1 where sw: "swap_awaiter p (Some w) = Inr (old, p1)"
      using assms(2) p live 3
      by (cases "swap_awaiter p (Some w)") (auto simp: handle_poll_def live_proc_def is_closed_def is_completed_def)
    note p1 = swap_awaiter_word(2) [OF p sw]
    have bits: "bit ?f 5" "\<not> bit ?f 3" "\<not> bit ?f 2" using 3 by (simp_all add: acquire_flags_def release_flags_def bit_simps)
    have "res = HandlePending" "p' = p1"
      using assms(2) p live 3 sw bits by (auto simp: handle_poll_def live_proc_def is_closed_def is_completed_def p1)
    then show ?thesis using bits by (auto simp: p1 intro!: awaiter_okI [of _ ?f r])
  qed
qed

subsection \<open>Through a life\<close>

lemma clone_waker_bound:
  "\<lbrakk>pr_state p = word_of f r; clone_waker p = Inr p'\<rbrakk> \<Longrightarrow> unat r + 1 < 2 ^ 32"
proof -
  assume p: "pr_state p = word_of f r" and c: "clone_waker p = Inr p'"
  have "fst (fetch_add (word_of f r) 1) = state_new f r" by (simp add: fetch_add_def)
  then have "r \<le> 2147483647"
    using c p by (cases "pr_live p") (auto simp: clone_waker_def live_proc_def case_prod_unfold split: if_splits)
  then show "unat r + 1 < 2 ^ 32" by (simp add: word_le_nat_alt)
qed

text \<open>No operation of the executor, the future or a waker loses the registered waker.\<close>

definition handle_op :: "('r, 'w) life_op \<Rightarrow> bool" where
  "handle_op x = (case x of HandlePoll w \<Rightarrow> True | HandleDrop \<Rightarrow> True | _ \<Rightarrow> False)"

lemma life_do_awaiter:
  assumes "life_ok l" "awaiter_ok (lf_proc l)" "life_do l x = Inr l'" "\<not> handle_op x"
  shows "awaiter_step (lf_proc l) (lf_proc l')"
proof -
  obtain f r where p: "pr_state (lf_proc l) = word_of f r" using assms(2) by (rule awaiter_okE)
  have "unat (references_of (lf_proc l)) = references l" by (rule life_ok_facts(2) [OF assms(1)])
  then have refs: "0 < references l \<Longrightarrow> references_of (lf_proc l) \<noteq> 0" by auto
  note refl = step_refl [OF assms(2)]
  show ?thesis
  proof (cases x)
    case Run
    show ?thesis
    proof (cases "pr_queue (lf_proc l) = 0")
      case False
      let ?q = "(lf_proc l)\<lparr>pr_queue := pr_queue (lf_proc l) - 1\<rparr>"
      have q: "awaiter_ok ?q" "references_of ?q \<noteq> 0"
        using assms(2) refs False by (simp_all add: awaiter_ok_def proc_load_def references_def)
      obtain b p' where "tick_begin ?q = Inr (b, p')" "lf_proc l' = p'"
        using assms(3) False Run by (auto simp: bind_result_Inr_iff split: if_splits)
      then show ?thesis using tick_begin_awaiter [OF q] by (auto simp: awaiter_step_def hands_over_def)
    qed (use assms(3) Run refl in simp)
  next
    case (PollReady out)
    then show ?thesis using assms(3) refl refs tick_ready_awaiter [OF assms(2)]
      by (cases "lf_polls l = 0") (auto simp: set_proc_def bind_result_Inr_iff references_def)
  next
    case PollPending
    then show ?thesis using assms(3) refl refs tick_pending_awaiter [OF assms(2)]
      by (cases "lf_polls l = 0") (auto simp: set_proc_def bind_result_Inr_iff references_def)
  next
    case PollPanic
    then show ?thesis using assms(3) refl refs guard_drop_awaiter [OF assms(2)]
      by (cases "lf_polls l = 0") (auto simp: set_proc_def bind_result_Inr_iff references_def)
  next
    case CloneWaker
    then show ?thesis using assms(3) refl clone_waker_awaiter [OF assms(2)] clone_waker_bound [OF p] p
      by (cases "lf_wakers l + lf_polls l = 0") (auto simp: set_proc_def bind_result_Inr_iff)
  next
    case Wake
    then show ?thesis using assms(3) refl refs wake_awaiter [OF assms(2)]
      by (cases "lf_wakers l = 0") (auto simp: set_proc_def bind_result_Inr_iff references_def)
  next
    case WakeByRef
    then show ?thesis using assms(3) refl wake_by_ref_awaiter [OF assms(2)]
      by (cases "lf_wakers l + lf_polls l = 0") (auto simp: set_proc_def bind_result_Inr_iff)
  next
    case DropWaker
    then show ?thesis using assms(3) refl refs p step_decrement [OF refl p]
      by (cases "lf_wakers l = 0") (auto simp: set_proc_def bind_result_Inr_iff references_def)
  next
    case DropProc
    then show ?thesis using assms(3) refl refs lightproc_drop_awaiter [OF assms(2)]
      by (cases "pr_queue (lf_proc l) = 0") (auto simp: set_proc_def bind_result_Inr_iff references_def)
  next
    case CancelProc
    then show ?thesis using assms(3) refl pdata_cancel_awaiter [OF assms(2) p]
      by (cases "pr_queue (lf_proc l) = 0") (auto simp: set_proc_def bind_result_Inr_iff lightproc_cancel_def)
  qed (use assms(4) in \<open>simp_all add: handle_op_def\<close>)
qed

lemma life_do_handle:
  assumes "life_do l x = Inr l'"
  shows "lf_handle l' \<Longrightarrow> lf_handle l" "\<lbrakk>lf_handle l; \<not> handle_op x\<rbrakk> \<Longrightarrow> lf_handle l'"
  using assms
  by (cases x; auto simp: handle_op_def set_proc_def bind_result_Inr_iff split: if_splits)+

text \<open>As long as the handle exists, the flag says whether its waker is registered, and a finished process has none.\<close>

lemma life_do_awaiter_ok:
  assumes "life_ok l" "lf_handle l \<longrightarrow> awaiter_ok (lf_proc l)" "life_do l x = Inr l'"
  shows "lf_handle l' \<longrightarrow> awaiter_ok (lf_proc l')"
proof (cases "lf_handle l' \<and> handle_op x")
  case True
  then have h: "lf_handle l" using life_do_handle(1) [OF assms(3)] by simp
  show ?thesis
  proof (cases x)
    case (HandlePoll w)
    then obtain res p' where "handle_poll (lf_proc l) w = Inr (res, p')" "lf_proc l' = p'"
      using assms(3) h by (auto simp: bind_result_Inr_iff)
    then show ?thesis using handle_poll_awaiter [of "lf_proc l" w res p'] assms(2) h by simp
  next
    case HandleDrop
    then show ?thesis using assms(3) h True by (auto simp: set_proc_def bind_result_Inr_iff)
  qed (use True in \<open>simp_all add: handle_op_def\<close>)
next
  case False
  then show ?thesis
    using life_do_awaiter [OF assms(1) _ assms(3)] life_do_handle(1) [OF assms(3)] assms(2) by (auto simp: awaiter_step_def)
qed

lemma life_run_awaiter_ok:
  "\<lbrakk>life_ok l; lf_handle l \<longrightarrow> awaiter_ok (lf_proc l); life_run l ops = Inr l'\<rbrakk> \<Longrightarrow> lf_handle l' \<longrightarrow> awaiter_ok (lf_proc l')"
proof (induction ops arbitrary: l)
  case (Cons x ops)
  obtain l1 where l1: "life_do l x = Inr l1" "life_run l1 ops = Inr l'" using Cons.prems(3) by (auto simp: bind_result_Inr_iff)
  have "life_ok l1" using life_do_ok [OF Cons.prems(1), of x] l1(1) by auto
  then show ?case using Cons.IH [OF _ _ l1(2)] life_do_awaiter_ok [OF Cons.prems(1,2) l1(1)] by blast
qed simp

lemma life_new_awaiter_ok: "awaiter_ok (lf_proc life_new)"
  by (rule awaiter_okI [of _ "SCHEDULED OR HANDLE" 1]) (simp_all add: life_new_def allocate_def atomic_new_def bit_simps)

lemma awaiter_kept:
  assumes "life_ok l" "awaiter_ok (lf_proc l)" "life_run l ops = Inr l'" "\<forall>x\<in>set ops. \<not> handle_op x"
  shows "awaiter_ok (lf_proc l') \<and> hands_over (lf_proc l) (lf_proc l')"
  using assms
proof (induction ops arbitrary: l)
  case (Cons x ops)
  obtain l1 where l1: "life_do l x = Inr l1" "life_run l1 ops = Inr l'" using Cons.prems(3) by (auto simp: bind_result_Inr_iff)
  have ok: "life_ok l1" using life_do_ok [OF Cons.prems(1), of x] l1(1) by auto
  have s: "awaiter_step (lf_proc l) (lf_proc l1)" using life_do_awaiter [OF Cons.prems(1,2) l1(1)] Cons.prems(4) by simp
  then have "awaiter_ok (lf_proc l') \<and> hands_over (lf_proc l1) (lf_proc l')"
    using Cons.IH [OF ok _ l1(2)] Cons.prems(4) by (simp add: awaiter_step_def)
  then show ?case using s by (auto simp: awaiter_step_def hands_over_def)
qed simp

text \<open>C19. Whoever waits for a process is woken when it is done: after the handle was polled and told to wait, whatever the
  executor, the future and its wakers do until the process is completed or closed, the waker of that poll is
  woken, and exactly once.\<close>

theorem handle_woken:
  assumes "life_run life_new ops = Inr l" "lf_handle l" "handle_poll (lf_proc l) w = Inr (HandlePending, p1)"
    and "life_do l (HandlePoll w) = Inr l1" "life_run l1 ops' = Inr l2" "\<forall>x\<in>set ops'. \<not> handle_op x"
    and "intersects (get_flags (proc_load (lf_proc l2))) (COMPLETED OR CLOSED)"
  shows "pr_woken (lf_proc l2) = pr_woken (lf_proc l1) @ [w]"
proof -
  have l: "life_ok l" "awaiter_ok (lf_proc l)"
    using life_reach_ok [OF assms(1)] life_run_awaiter_ok [OF life_new_ok _ assms(1)] life_new_awaiter_ok assms(2) by auto
  have l1: "life_ok l1" using life_do_ok [OF l(1), of "HandlePoll w"] assms(4) by auto
  have p1: "lf_proc l1 = p1" using assms(2-4) by auto
  then have a1: "awaiter_ok (lf_proc l1)" "pr_awaiter (lf_proc l1) = Some w"
    using handle_poll_awaiter [OF l(2) assms(3)] by simp_all
  note k = awaiter_kept [OF l1 a1(1) assms(5,6)]
  then obtain f r where "pr_state (lf_proc l2) = word_of f r" "bit f 2 \<or> bit f 3 \<longrightarrow> pr_awaiter (lf_proc l2) = None"
    by (elim conjE awaiter_okE)
  then have "pr_awaiter (lf_proc l2) = None" using assms(7) by auto
  then show ?thesis using k a1(2) by (simp add: hands_over_def)
qed

text \<open>The handle is polled, the process runs, its future wakes itself, is polled again and returns.\<close>

theorem handle_woken_witness:
  "\<exists>l1 l2. life_do (life_new :: (nat, nat) life) (HandlePoll 5) = Inr l1 \<and>
     life_run l1 [Run, WakeByRef, PollPending, Run, PollReady 7] = Inr l2 \<and> pr_woken (lf_proc l2) = pr_woken (lf_proc l1) @ [5]"
proof -
  let ?ops = "[Run, WakeByRef, PollPending, Run, PollReady 7] :: (nat, nat) life_op list"
  have c: "case life_do (life_new :: (nat, nat) life) (HandlePoll 5) of Inl e \<Rightarrow> False | Inr l1 \<Rightarrow>
      (case life_run l1 ?ops of Inl e \<Rightarrow> False | Inr l2 \<Rightarrow> intersects (get_flags (proc_load (lf_proc l2))) (COMPLETED OR CLOSED)) \<and>
      (case handle_poll (lf_proc (life_new :: (nat, nat) life)) 5 of Inl e \<Rightarrow> False | Inr (r, p) \<Rightarrow> r = HandlePending)"
    by code_simp
  then obtain l1 l2 p where l: "life_do (life_new :: (nat, nat) life) (HandlePoll 5) = Inr l1" "life_run l1 ?ops = Inr l2"
      "intersects (get_flags (proc_load (lf_proc l2))) (COMPLETED OR CLOSED)"
      "handle_poll (lf_proc (life_new :: (nat, nat) life)) 5 = Inr (HandlePending, p)"
    by (auto split: sum.splits)
  have "lf_handle (life_new :: (nat, nat) life)" by (simp add: life_new_def)
  then have "pr_woken (lf_proc l2) = pr_woken (lf_proc l1) @ [5]"
    using handle_woken [of "[]" life_new 5 p l1 ?ops l2] l by (simp add: handle_op_def)
  then show ?thesis using l(1,2) by blast
qed

end
