(* ===== verification/Executor_Correct.thy ===== *)
theory Executor_Correct
  imports Executor
begin

text \<open>
  Workers neither lose nor repeat a task and stop only when there is nothing left to take; the
  statistics are what they are documented to be; the groups count their references.
\<close>

subsection \<open>Workers\<close>

definition waiting :: "'t worker \<Rightarrow> 't multiset" where
  "waiting w = mset (wk_local w) + mset (wk_tasks w) + mset (wk_global w) + mset (concat (wk_fences w))"

text \<open>Every task that was waiting or was spawned has run or waits still.\<close>

definition balanced :: "'t multiset \<Rightarrow> 't worker \<Rightarrow> bool" where
  "balanced start w \<longleftrightarrow> start + mset (wk_spawned w) = waiting w + mset (wk_ran w)"

definition phase_ok :: "phase \<Rightarrow> 't worker \<Rightarrow> bool" where
  "phase_ok ph w \<longleftrightarrow>
     (case ph of
        Pick \<Rightarrow> True
      | Global i \<Rightarrow> wk_local w = [] \<and> wk_tasks w = []
      | Fences \<Rightarrow> wk_local w = [] \<and> wk_tasks w = [] \<and> wk_global w = []
      | Parking \<Rightarrow> waiting w = {#})"

lemma balanced_run_task:
  assumes "start + mset (wk_spawned w) = add_mset t (waiting w) + mset (wk_ran w)"
  shows "balanced start (run_task spawns t w)"
  using assms by (simp add: balanced_def run_task_def waiting_def ac_simps)

lemma select_fence_Some: "select_fence qs = Some k \<Longrightarrow> k < length qs \<and> (\<forall>q\<in>set qs. length q \<le> length (qs ! k))"
proof (induction qs arbitrary: k)
  case (Cons q qs)
  show ?case
  proof (cases "select_fence qs")
    case None
    then have "qs = []" by (cases qs) (auto split: option.splits if_splits)
    then show ?thesis using Cons.prems by simp
  next
    case (Some i)
    from Cons.IH [OF Some] show ?thesis using Cons.prems Some by (fastforce split: if_splits)
  qed
qed simp

lemma select_fence_None: "select_fence qs = None \<longleftrightarrow> qs = []"
  by (cases qs) (auto split: option.splits if_splits)

lemma concat_update:
  "\<lbrakk>k < length qs; qs ! k = t # ts\<rbrakk> \<Longrightarrow>
     mset (concat qs) = add_mset t (mset (take n ts)) + mset (concat (qs[k := drop n ts]))"
proof (induction qs arbitrary: k)
  case (Cons q qs)
  have ts: "mset ts = mset (take n ts) + mset (drop n ts)" by (metis append_take_drop_id mset_append)
  show ?case
  proof (cases k)
    case 0
    then show ?thesis using Cons.prems ts by simp
  next
    case (Suc j)
    then show ?thesis using Cons.IH [of j] Cons.prems by simp
  qed
qed simp

lemma worker_pick_ok:
  assumes "balanced start w" "worker_step spawns a (Pick, w) = Value (ph', w')"
  shows "balanced start w' \<and> phase_ok ph' w'"
proof (cases "wk_local w")
  case (Cons t ts)
  have "balanced start (run_task spawns t (w\<lparr>wk_local := ts\<rparr>))"
    by (rule balanced_run_task) (use assms(1) Cons in \<open>simp add: balanced_def waiting_def ac_simps\<close>)
  then show ?thesis using assms(2) Cons by (auto simp: worker_step_def phase_ok_def)
next
  case Nil
  show ?thesis
  proof (cases "wk_tasks w")
    case (Cons t ts)
    have "balanced start (run_task spawns t (w\<lparr>wk_tasks := ts\<rparr>))"
      by (rule balanced_run_task) (use assms(1) Cons in \<open>simp add: balanced_def waiting_def ac_simps\<close>)
    then show ?thesis using assms(2) Nil Cons by (auto simp: worker_step_def phase_ok_def)
  qed (use assms Nil in \<open>auto simp: worker_step_def phase_ok_def\<close>)
qed

lemma worker_global_ok:
  assumes "balanced start w" "phase_ok (Global i) w" "worker_step spawns a (Global i, w) = Value (ph', w')"
  shows "balanced start w' \<and> phase_ok ph' w'"
proof (cases a)
  case None
  then show ?thesis using assms by (auto simp: worker_step_def phase_ok_def bind_outcome_Value_iff)
next
  case (Some n)
  show ?thesis
  proof (cases "wk_global w")
    case (Cons t ts)
    have ts: "mset ts = mset (take n ts) + mset (drop n ts)" by (metis append_take_drop_id mset_append)
    have "balanced start (run_task spawns t (w\<lparr>wk_tasks := wk_tasks w @ take n ts, wk_global := drop n ts\<rparr>))"
      by (rule balanced_run_task) (use assms(1) Cons ts in \<open>simp add: balanced_def waiting_def ac_simps\<close>)
    then show ?thesis using assms(3) Some Cons by (auto simp: worker_step_def phase_ok_def)
  qed (use assms Some in \<open>auto simp: worker_step_def phase_ok_def\<close>)
qed

lemma worker_fences_ok:
  assumes "balanced start w" "phase_ok Fences w" "worker_step spawns a (Fences, w) = Value (ph', w')"
  shows "balanced start w' \<and> phase_ok ph' w'"
proof (cases "select_fence (wk_fences w)")
  case None
  then have "waiting w = {#}" using assms(2) by (simp add: phase_ok_def waiting_def select_fence_None)
  then show ?thesis using assms(1,3) None by (auto simp: worker_step_def phase_ok_def)
next
  case k: (Some k)
  note f = select_fence_Some [OF k]
  show ?thesis
  proof (cases a)
    case None
    then show ?thesis using assms k by (auto simp: worker_step_def)
  next
    case (Some n)
    show ?thesis
    proof (cases "wk_fences w ! k")
      case Nil
      then have "concat (wk_fences w) = []" using f by auto
      then have "waiting w = {#}" using assms(2) by (simp add: phase_ok_def waiting_def)
      then show ?thesis using assms(1,3) Some Nil k by (auto simp: worker_step_def phase_ok_def)
    next
      case (Cons t ts)
      have "balanced start (run_task spawns t (w\<lparr>wk_tasks := wk_tasks w @ take n ts, wk_fences := (wk_fences w)[k := drop n ts]\<rparr>))"
        by (rule balanced_run_task)
           (use assms(1) concat_update [of k "wk_fences w" t ts n] f Cons in \<open>simp add: balanced_def waiting_def ac_simps\<close>)
      then show ?thesis using assms(3) Some Cons k by (auto simp: worker_step_def phase_ok_def)
    qed
  qed
qed

lemma worker_step_ok:
  assumes "balanced start w" "phase_ok ph w" "worker_step spawns a (ph, w) = Value (ph', w')"
  shows "balanced start w' \<and> phase_ok ph' w'"
proof (cases ph)
  case Parking
  then show ?thesis using assms by (auto simp: worker_step_def)
qed (use assms worker_pick_ok worker_global_ok worker_fences_ok in blast)+

interpretation worker_runs: stepwise "worker_step spawns" "worker_run spawns" for spawns
  by unfold_locales simp_all

lemma worker_run_ok:
  assumes "balanced start w" "phase_ok ph w" "worker_run spawns as (ph, w) = Value (ph', w')"
  shows "balanced start w' \<and> phase_ok ph' w'"
proof -
  have "case (ph', w') of (ph, w) \<Rightarrow> balanced start w \<and> phase_ok ph w"
  proof (rule worker_runs.run_keeps [OF _ _ assms(3)])
    show "case s' of (ph, w) \<Rightarrow> balanced start w \<and> phase_ok ph w"
      if "case s of (ph, w) \<Rightarrow> balanced start w \<and> phase_ok ph w" "worker_step spawns x s = Value s'" for x s s'
      using that by (cases s; cases s') (auto dest: worker_step_ok)
  qed (use assms(1,2) in simp)
  then show ?thesis by simp
qed


text \<open>Three tasks, one of them in the queue of another worker; the first spawns a fourth.\<close>

definition sample_spawns :: "nat \<Rightarrow> nat list \<times> nat list" where
  "sample_spawns t = (if t = 1 then ([4], []) else ([], []))"


text \<open>The backoff counter grows by powers of two and overflows the shift: the fifth race in a row that a worker loses
  at the global queue is a panic where overflow is checked.\<close>

lemma fifth_lost_race_panics: "worker_run spawns [None, None, None, None, None] (Global 0, w) = Panic"
proof -
  have "backoff 0 = Value 1" "backoff 1 = Value 3" "backoff 3 = Value 11" "backoff 11 = Value 2059" "backoff 2059 = Panic"
    by (simp_all add: backoff_def)
  then show ?thesis by (simp add: worker_step_def)
qed

subsection \<open>Load statistics\<close>

text \<open>The sorted load holds the load of every core up to the first that does not exist, highest first.\<close>

lemma get_sorted_load_sorted:
  "sorted_wrt (\<lambda>x y. snd y \<le> snd x) (get_sorted_load self)"
proof -
  have "sorted (map (\<lambda>(core, ld). - int (unat ld)) (get_sorted_load self))"
    unfolding get_sorted_load_def by (rule sorted_sort_key)
  then show ?thesis by (auto simp: sorted_map sorted_wrt_map case_prod_beta word_le_def elim!: sorted_wrt_mono_rel [rotated])
qed

lemma get_sorted_load_set:
  "(core, ld) \<in> set (get_sorted_load self) \<longleftrightarrow>
     core < length (ls_smp_load self) \<and> ls_smp_load self ! core = ld \<and> (\<forall>i\<le>core. ls_smp_load self ! i \<noteq> - 1)"
proof -
  have tw: "(n, x) \<in> set (takeWhile (\<lambda>(c, ld). ld \<noteq> y) (enumerate k xs)) \<longleftrightarrow>
      k \<le> n \<and> n - k < length xs \<and> xs ! (n - k) = x \<and> (\<forall>i<Suc (n - k). xs ! i \<noteq> y)" for n x y k and xs :: "u64 list"
  proof (induction xs arbitrary: k)
    case (Cons a xs)
    have less: "n - k = Suc (n - Suc k)" if "k < n" using that by simp
    show ?case
    proof (cases "n = k")
      case True
      have "(n, x) \<notin> set (takeWhile (\<lambda>(c, ld). ld \<noteq> y) (enumerate (Suc k) xs))"
        using True by (auto dest!: set_takeWhileD simp: in_set_enumerate_eq)
      then show ?thesis using True by auto
    next
      case False
      then show ?thesis using Cons.IH [of "Suc k"] less
        by (cases "k < n") (auto simp: All_less_Suc2)
    qed
  qed simp
  show ?thesis using tw [of core ld "- 1" 0 "ls_smp_load self"] by (simp add: get_sorted_load_def less_Suc_eq_le)
qed

lemma sum_loads_bound:
  "\<forall>x\<in>set xs. unat x \<le> m \<Longrightarrow> unat (sum_loads sm xs) \<le> unat sm + length xs * m"
proof (induction xs arbitrary: sm)
  case (Cons x xs)
  show ?case
  proof (cases "unat sm + unat x < 2 ^ 64")
    case True
    then have "unat (sm + x) = unat sm + unat x" by (simp add: unat_plus_if')
    then show ?thesis using Cons.IH [of "sm + x"] Cons.prems True by simp
  next
    case False
    have "unat (sum_loads sm xs) \<le> unat sm + length xs * m" using Cons.IH [of sm] Cons.prems by simp
    then show ?thesis using False by simp
  qed
qed simp

text \<open>The mean never exceeds a bound on the loads, overflowing sums included.\<close>

lemma update_mean_bound:
  assumes "update_mean n self = Value self'" "\<not> ls_updating_mean self" "\<forall>x\<in>set (take n (ls_smp_load self)). unat x \<le> m"
  shows "unat (ls_mean_level self') \<le> m"
proof -
  let ?s = "unat (sum_loads 0 (take n (ls_smp_load self)))"
  have n: "n \<noteq> 0" using assms(1,2) by (auto simp: update_mean_def split: if_splits)
  have "?s \<le> length (take n (ls_smp_load self)) * m" using sum_loads_bound [OF assms(3), of 0] by simp
  also have "\<dots> \<le> n * m" by (intro mult_right_mono) simp_all
  finally have d: "?s div n \<le> m" using n by (metis div_le_mono nonzero_mult_div_cancel_left)
  have "?s div n < 2 ^ 64"
    by (rule le_less_trans [OF div_le_dividend]) (use unsigned_less [of "sum_loads 0 (take n (ls_smp_load self))", where ?'a = nat] in simp)
  moreover have "ls_mean_level self' = of_nat (?s div n)" using assms(1,2) n by (auto simp: update_mean_def)
  ultimately show ?thesis using d by (simp add: unat_of_nat take_bit_nat_eq_self)
qed

lemma stats_new_loads: "n \<le> MAX_CORE \<Longrightarrow> get_sorted_load (stats_new n) = map (\<lambda>i. (i, 0)) [0..<n]"
proof -
  assume n: "n \<le> MAX_CORE"
  have e: "enumerate 0 (map (\<lambda>i. if i < n then 0 else - 1) [0..<MAX_CORE]) =
      map (\<lambda>i. (i, 0 :: u64)) [0..<n] @ map (\<lambda>i. (i, - 1)) [n..<MAX_CORE]"
    using n by (intro nth_equalityI) (auto simp: nth_append nth_enumerate_eq)
  have "takeWhile (\<lambda>(core, ld). ld \<noteq> - 1) (map (\<lambda>i. (i, 0 :: u64)) [0..<n] @ map (\<lambda>i. (i, - 1)) [n..<MAX_CORE]) =
      map (\<lambda>i. (i, 0)) [0..<n]"
    by (subst takeWhile_append2) (cases "n < MAX_CORE", auto simp: takeWhile_eq_Nil_iff hd_map)
  moreover have "sort_key (\<lambda>(core, ld). - int (unat ld)) (map (\<lambda>i. (i, 0 :: u64)) [0..<n]) = map (\<lambda>i. (i, 0)) [0..<n]"
    by (rule sort_key_id_if_sorted) (simp add: comp_def case_prod_beta map_replicate_const)
  ultimately show ?thesis by (simp add: get_sorted_load_def stats_new_def e)
qed

subsection \<open>The thread manager\<close>

text \<open>Starting parks every thread; providing threads wakes all of them, whatever number was asked for, and none is
  parked again, so a second request finds nobody.\<close>

lemma park_all_fits: "length q + length ss \<le> cap \<Longrightarrow> park_all cap ss q = Value (q @ ss)"
  by (induction ss arbitrary: q) simp_all

lemma pool_wakes_once:
  assumes "initialize_pool (thread_manager_new cpus n) = Value tm" "provision_threads tm k = (woken, tm')"
  shows "woken = [0..<n + max 1 (cpus - n)]" "fst (provision_threads tm' k') = []"
proof -
  have "tm_parked tm = [0..<n + max 1 (cpus - n)]"
    using assms(1) by (auto simp: initialize_pool_def thread_manager_new_def park_all_fits)
  then show "woken = [0..<n + max 1 (cpus - n)]" "fst (provision_threads tm' k') = []"
    using assms(2) by (auto simp: provision_threads_def unpark_thread_def Let_def)
qed

lemma unpark_thread_returns_request: "fst (unpark_thread self num) = num"
  by (simp add: unpark_thread_def)

lemma affinity_pinner_in_range: "\<lbrakk>core < n; affinity_pinner n core = (pin, core')\<rbrakk> \<Longrightarrow> core' < n"
  by (auto simp: affinity_pinner_def split: if_splits)

subsection \<open>Supervision groups\<close>

lemma group_index_round_trip: "idx \<noteq> - 1 \<Longrightarrow> \<exists>gid. idx_to_id idx = Value gid \<and> id_to_idx gid = idx"
  by (simp add: idx_to_id_def group_from_u64_def id_to_idx_def flip: eq_neg_iff_add_eq_0)

text \<open>Cloning a group and giving the clone up again leaves its count, and the group is reported closed exactly on its
  last reference.\<close>

lemma clone_then_close:
  assumes "clone_group self gid = Value (gid', self1)" "registry_get self gid = Some g" "unat (gi_ref_count g) < 2 ^ 64 - 2"
  shows "gid' = gid \<and> try_close self1 gid = Value (False, self)"
proof -
  have c: "gi_ref_count g \<noteq> 0" "gid' = gid"
      "self1 = self\<lparr>rg_groups := (rg_groups self)(id_to_idx gid \<mapsto> g\<lparr>gi_ref_count := gi_ref_count g + 1\<rparr>)\<rparr>"
    using assms(1,2) by (auto simp: clone_group_def split: if_splits)
  have up: "unat (gi_ref_count g + 1) = unat (gi_ref_count g) + 1" using assms(3) by (simp add: unat_plus_if')
  have less: "gi_ref_count g + 1 \<noteq> - 1"
  proof
    assume e: "gi_ref_count g + 1 = - 1"
    have "unat (- 1 :: u64) = 2 ^ 64 - 1" by (simp add: unsigned_minus_1_eq_mask mask_eq_exp_minus_1)
    then show False using assms(3) up unfolding e by simp
  qed
  have "\<not> gi_ref_count g + 1 \<le> 1" using up c(1) by (simp add: word_le_nat_alt unat_eq_0)
  then show ?thesis
    using c less assms(2) by (simp add: try_close_def registry_get_def Let_def fun_upd_idem)
qed

lemma current_group_set_once: "rg_current (set_current (set_current registry_new a) b) = Some a"
  by (simp add: set_current_def registry_new_def)

text \<open>A new child of the current group holds a reference to it; clearing the child gives it back.\<close>

lemma clear_releases_parent:
  assumes "new_group (Some idx) self = Value (gid', self1)" "rg_current self = Some gid"
    and "registry_get self gid = Some g" "unat (gi_ref_count g) < 2 ^ 64 - 2" "idx \<noteq> id_to_idx gid"
  shows "\<exists>self2. group_clear self1 idx = Value self2 \<and> registry_get self2 gid = Some g"
proof -
  obtain reg where c: "clone_group self gid = Value (gid, reg)"
    using assms(1,2,3) by (auto simp: new_group_def registry_current_def clone_group_def bind_outcome_Value_iff split: if_splits)
  note close = clone_then_close [OF c assms(3,4)]
  have regis: "reg = self\<lparr>rg_groups := (rg_groups self)(id_to_idx gid \<mapsto> g\<lparr>gi_ref_count := gi_ref_count g + 1\<rparr>)\<rparr>"
    using c assms(3) by (auto simp: clone_group_def split: if_splits)
  have self1: "self1 = reg\<lparr>rg_groups := (rg_groups reg)(idx \<mapsto> \<lparr>gi_parent = Some gid, gi_ref_count = 1\<rparr>)\<rparr>"
    using assms(1,2) c by (auto simp: new_group_def registry_current_def new_group_inner_def bind_outcome_Value_iff)
  show ?thesis
    using close assms(3,5) unfolding self1 regis
    by (auto simp: group_clear_def try_close_def registry_get_def Let_def split: if_splits)
qed

end
