(* ===== verification/Blocking.thy ===== *)
theory Blocking
  imports Prelude
begin

text \<open>
  \<open>runtime/executor/src/run.rs\<close>: polling a future on the current thread, which parks in between.
  The parker has a token that an unpark sets and a park takes; the wakers are references to
  its unparker.  What the future answers to each poll and what happens to its wakers meanwhile
  is a script.
\<close>

subsection \<open>The waker\<close>

text \<open>The references are those of the parker itself and of the wakers that exist.\<close>

record parker =
  pk_token :: bool
  pk_refs :: nat
  pk_wakers :: nat

definition parker_new :: parker where
  "parker_new = \<lparr>pk_token = False, pk_refs = 1, pk_wakers = 0\<rparr>"

definition unpark :: "parker \<Rightarrow> parker" where "unpark pk = pk\<lparr>pk_token := True\<rparr>"

definition unparker_drop :: "parker \<Rightarrow> parker" where "unparker_drop pk = pk\<lparr>pk_refs := pk_refs pk - 1\<rparr>"

definition unparker_clone :: "parker \<Rightarrow> parker" where "unparker_clone pk = pk\<lparr>pk_refs := pk_refs pk + 1\<rparr>"

definition clone_raw :: "parker \<Rightarrow> parker" where
  "clone_raw pk = (unparker_clone pk)\<lparr>pk_wakers := pk_wakers pk + 1\<rparr>"

definition wake_raw :: "parker \<Rightarrow> parker" where
  "wake_raw pk = (unparker_drop (unpark pk))\<lparr>pk_wakers := pk_wakers pk - 1\<rparr>"

definition wake_by_ref_raw :: "parker \<Rightarrow> parker" where
  "wake_by_ref_raw pk = unpark pk"

definition drop_raw :: "parker \<Rightarrow> parker" where
  "drop_raw pk = (unparker_drop pk)\<lparr>pk_wakers := pk_wakers pk - 1\<rparr>"

datatype waker_call = CloneIt | WakeIt | WakeItByRef | DropIt

text \<open>The first waker belongs to \<open>block\<close>, which only lends it; a call on a waker that does not exist does not
  happen.\<close>

definition waker_do :: "parker \<Rightarrow> waker_call \<Rightarrow> parker" where
  "waker_do pk c =
     (case c of
        CloneIt \<Rightarrow> if 1 \<le> pk_wakers pk then clone_raw pk else pk
      | WakeIt \<Rightarrow> if 2 \<le> pk_wakers pk then wake_raw pk else pk
      | WakeItByRef \<Rightarrow> if 1 \<le> pk_wakers pk then wake_by_ref_raw pk else pk
      | DropIt \<Rightarrow> if 2 \<le> pk_wakers pk then drop_raw pk else pk)"

subsection \<open>Blocking on a future\<close>

text \<open>The answer to one poll: the calls on wakers during it, the result if it is ready, and the calls that other
  threads make afterwards, before the thread goes on.\<close>

type_synonym 't poll_script = "(waker_call list \<times> 't option \<times> waker_call list) list"

text \<open>A thread that parks without a token goes on when one is set, and sleeps for good otherwise.\<close>

datatype 't blocked = Asleep | Returned 't nat parker

fun block_loop :: "nat \<Rightarrow> parker \<Rightarrow> 't poll_script \<Rightarrow> 't blocked" where
  "block_loop n pk [] = Asleep"
| "block_loop n pk ((during, answer, after) # rest) =
     (let pk1 = foldl waker_do pk during in
      case answer of
        Some t \<Rightarrow> Returned t (Suc n) pk1
      | None \<Rightarrow>
          let pk2 = foldl waker_do pk1 after in
          if pk_token pk2 then block_loop (Suc n) (pk2\<lparr>pk_token := False\<rparr>) rest else Asleep)"

text \<open>The parker of the last call on the thread is used again; the waker goes when \<open>block\<close> returns.\<close>

definition block :: "parker option \<Rightarrow> 't poll_script \<Rightarrow> 't blocked \<times> parker option" where
  "block cache script =
     (let pk = (case cache of Some pk \<Rightarrow> pk | None \<Rightarrow> parker_new) in
      case block_loop 0 (clone_raw pk) script of
        Asleep \<Rightarrow> (Asleep, None)
      | Returned t n pk' \<Rightarrow> (Returned t n (drop_raw pk'), Some (drop_raw pk')))"

text \<open>\<open>Executor::run\<close> in \<open>pool.rs\<close>: the future is wrapped into one that writes its output to a place that is read
  when \<open>block\<close> returns.\<close>

datatype 'r ran = StillBlocked | Uninitialised | Ran 'r

definition wrap_script :: "'r poll_script \<Rightarrow> unit poll_script" where
  "wrap_script script = map (\<lambda>(during, answer, after). (during, map_option (\<lambda>_. ()) answer, after)) script"

definition written :: "'r poll_script \<Rightarrow> nat \<Rightarrow> 'r option" where
  "written script n = fold (\<lambda>(during, answer, after) out. case answer of Some r \<Rightarrow> Some r | None \<Rightarrow> out) (take n script) None"

definition run_blocking :: "parker option \<Rightarrow> 'r poll_script \<Rightarrow> 'r ran" where
  "run_blocking cache script =
     (case fst (block cache (wrap_script script)) of
        Asleep \<Rightarrow> StillBlocked
      | Returned _ n _ \<Rightarrow> (case written script n of Some r \<Rightarrow> Ran r | None \<Rightarrow> Uninitialised))"

subsection \<open>References\<close>

definition parker_ok :: "parker \<Rightarrow> bool" where
  "parker_ok pk \<longleftrightarrow> pk_refs pk = 1 + pk_wakers pk"

lemma waker_do_ok:
  "parker_ok pk \<Longrightarrow> parker_ok (waker_do pk c) \<and> (1 \<le> pk_wakers pk \<longrightarrow> 1 \<le> pk_wakers (waker_do pk c))"
  by (cases c) (auto simp: waker_do_def parker_ok_def clone_raw_def wake_raw_def wake_by_ref_raw_def drop_raw_def
    unpark_def unparker_drop_def unparker_clone_def)

lemma waker_calls_ok:
  "\<lbrakk>parker_ok pk; 1 \<le> pk_wakers pk\<rbrakk> \<Longrightarrow> parker_ok (foldl waker_do pk cs) \<and> 1 \<le> pk_wakers (foldl waker_do pk cs)"
proof (induction cs arbitrary: pk)
  case (Cons c cs)
  then show ?case using waker_do_ok [OF Cons.prems(1), of c] by simp
qed simp

lemma block_loop_ok:
  "\<lbrakk>parker_ok pk; 1 \<le> pk_wakers pk; block_loop n pk script = Returned t m pk'\<rbrakk> \<Longrightarrow> parker_ok pk' \<and> 1 \<le> pk_wakers pk'"
proof (induction n pk script rule: block_loop.induct)
  case (2 n pk during answer after rest)
  let ?pk1 = "foldl waker_do pk during"
  have pk1: "parker_ok ?pk1" "1 \<le> pk_wakers ?pk1" using waker_calls_ok [OF 2(2,3)] by blast+
  show ?case
  proof (cases answer)
    case None
    let ?pk2 = "foldl waker_do ?pk1 after"
    have "parker_ok ?pk2 \<and> 1 \<le> pk_wakers ?pk2" using waker_calls_ok [OF pk1] .
    then show ?thesis using 2(4) None by (intro 2(1) [OF refl None refl]) (auto simp: parker_ok_def Let_def split: if_splits)
  qed (use 2(4) pk1 in \<open>simp add: Let_def\<close>)
qed simp

text \<open>The wakers that are left keep the unparker of the cached parker.\<close>

lemma block_keeps_references:
  assumes "\<And>pk. cache = Some pk \<Longrightarrow> parker_ok pk" "block cache script = (r, Some pk')"
  shows "parker_ok pk'"
proof -
  let ?pk = "case cache of Some pk \<Rightarrow> pk | None \<Rightarrow> parker_new"
  have ok: "parker_ok (clone_raw ?pk)" "1 \<le> pk_wakers (clone_raw ?pk)"
    using assms(1) by (auto simp: parker_ok_def parker_new_def clone_raw_def unparker_clone_def split: option.splits)
  obtain t n pk where b: "block_loop 0 (clone_raw ?pk) script = Returned t n pk" "pk' = drop_raw pk"
    using assms(2) by (auto simp: block_def Let_def split: blocked.splits)
  show ?thesis using block_loop_ok [OF ok b(1)] by (auto simp: b(2) parker_ok_def drop_raw_def unparker_drop_def)
qed

subsection \<open>Wake-ups\<close>

text \<open>A call that wakes: through a reference to a waker, or consuming one that the future or another thread has.\<close>

fun wakes :: "nat \<Rightarrow> waker_call list \<Rightarrow> bool" where
  "wakes n [] = False"
| "wakes n (CloneIt # cs) = wakes (if 1 \<le> n then Suc n else n) cs"
| "wakes n (WakeIt # cs) = (2 \<le> n \<or> wakes n cs)"
| "wakes n (WakeItByRef # cs) = (1 \<le> n \<or> wakes n cs)"
| "wakes n (DropIt # cs) = wakes (if 2 \<le> n then n - 1 else n) cs"

lemma token_kept: "pk_token pk \<Longrightarrow> pk_token (foldl waker_do pk cs)"
  by (induction cs arbitrary: pk)
     (auto simp: waker_do_def clone_raw_def wake_raw_def wake_by_ref_raw_def drop_raw_def
      unpark_def unparker_drop_def unparker_clone_def split: waker_call.splits)

lemma token_after: "pk_token (foldl waker_do pk cs) \<longleftrightarrow> pk_token pk \<or> wakes (pk_wakers pk) cs"
proof (induction cs arbitrary: pk)
  case (Cons c cs)
  then show ?case
    by (cases c) (auto simp: waker_do_def clone_raw_def wake_raw_def wake_by_ref_raw_def drop_raw_def
      unpark_def unparker_drop_def unparker_clone_def intro: token_kept)
qed simp

lemma wakes_mono: "\<lbrakk>wakes n cs; n \<le> m\<rbrakk> \<Longrightarrow> wakes m cs"
proof (induction cs arbitrary: n m)
  case (Cons c cs)
  then show ?case by (cases c) (auto elim!: Cons.IH split: if_splits)
qed simp

lemma token_when_woken:
  assumes "wakes 1 (during @ after)" "1 \<le> pk_wakers pk"
  shows "pk_token (foldl waker_do (foldl waker_do pk during) after)"
  using token_after [of pk "during @ after"] wakes_mono [OF assms] by simp

text \<open>The answers of a future that wakes its waker whenever it is pending.\<close>

definition keeps_waking :: "'t poll_script \<Rightarrow> nat \<Rightarrow> bool" where
  "keeps_waking script k \<longleftrightarrow>
     (\<forall>i<k. case script ! i of (during, answer, after) \<Rightarrow> answer = None \<and> wakes 1 (during @ after))"

lemma keeps_waking_Suc:
  "keeps_waking ((during, answer, after) # rest) (Suc k) \<longleftrightarrow>
     answer = None \<and> wakes 1 (during @ after) \<and> keeps_waking rest k"
  unfolding keeps_waking_def by (simp add: All_less_Suc2)

lemma block_loop_returns:
  assumes "parker_ok pk" "1 \<le> pk_wakers pk" "k < length script" "fst (snd (script ! k)) = Some t" "keeps_waking script k"
  shows "\<exists>pk'. block_loop n pk script = Returned t (n + Suc k) pk'"
  using assms
proof (induction n pk script arbitrary: k rule: block_loop.induct)
  case (2 n pk during answer after rest)
  show ?case
  proof (cases k)
    case (Suc j)
    let ?pk2 = "foldl waker_do (foldl waker_do pk during) after"
    have w: "answer = None" "wakes 1 (during @ after)" "keeps_waking rest j"
      using 2(6) by (auto simp: Suc keeps_waking_Suc)
    have pk2: "parker_ok ?pk2 \<and> 1 \<le> pk_wakers ?pk2" using waker_calls_ok [OF 2(2,3)] waker_calls_ok by blast
    have tok: "pk_token ?pk2" by (rule token_when_woken [OF w(2) 2(3)])
    have "\<exists>pk'. block_loop (Suc n) (?pk2\<lparr>pk_token := False\<rparr>) rest = Returned t (Suc n + Suc j) pk'"
      by (rule 2(1) [OF refl w(1) refl tok]) (use pk2 2(4,5) w(3) Suc in \<open>auto simp: parker_ok_def\<close>)
    then show ?thesis using w(1) tok Suc by simp
  qed (use 2(5) in simp)
qed simp

lemma written_first:
  assumes "k < length script" "fst (snd (script ! k)) = Some t"
  shows "written script (Suc k) = Some t"
  using assms by (cases "script ! k") (simp add: written_def take_Suc_conv_app_nth)

lemma wrap_script_nth:
  "k < length script \<Longrightarrow> fst (snd (wrap_script script ! k)) = map_option (\<lambda>_. ()) (fst (snd (script ! k)))"
  by (simp add: wrap_script_def case_prod_unfold)

lemma keeps_waking_wrap: "k \<le> length script \<Longrightarrow> keeps_waking (wrap_script script) k = keeps_waking script k"
  by (simp add: keeps_waking_def wrap_script_def case_prod_unfold)

lemma block_returns_at:
  assumes "\<And>pk. cache = Some pk \<Longrightarrow> parker_ok pk"
    and "k < length script" "fst (snd (script ! k)) = Some t" "keeps_waking script k"
  shows "\<exists>pk. block cache script = (Returned t (Suc k) pk, Some pk)"
proof -
  let ?pk = "case cache of Some pk \<Rightarrow> pk | None \<Rightarrow> parker_new"
  have ok: "parker_ok (clone_raw ?pk)" "1 \<le> pk_wakers (clone_raw ?pk)"
    using assms(1) by (auto simp: parker_ok_def parker_new_def clone_raw_def unparker_clone_def split: option.splits)
  show ?thesis using block_loop_returns [OF ok assms(2-4), of 0] by (auto simp: block_def Let_def)
qed

text \<open>C31. Blocking on a future that wakes one of its wakers whenever it is pending, during the poll or at any time after
  it and from any thread, returns the output, after one poll for each answer; the output is written before
  it is read, and the wakers that are left still refer to the parker that is kept for the next call.\<close>

theorem block_returns:
  assumes "\<And>pk. cache = Some pk \<Longrightarrow> parker_ok pk"
    and "k < length script" "fst (snd (script ! k)) = Some t" "keeps_waking script k"
  shows "run_blocking cache script = Ran t \<and>
    (\<exists>pk. block cache script = (Returned t (Suc k) pk, Some pk) \<and> parker_ok pk)"
proof -
  have "fst (snd (wrap_script script ! k)) = Some ()" using assms(2,3) by (simp add: wrap_script_nth)
  moreover have "keeps_waking (wrap_script script) k" using assms(2,4) by (simp add: keeps_waking_wrap)
  moreover have "k < length (wrap_script script)" using assms(2) by (simp add: wrap_script_def)
  ultimately have "\<exists>pk. block cache (wrap_script script) = (Returned () (Suc k) pk, Some pk)"
    by (intro block_returns_at) (use assms(1) in auto)
  then have "run_blocking cache script = Ran t" using written_first [OF assms(2,3)] by (auto simp: run_blocking_def)
  moreover obtain pk where "block cache script = (Returned t (Suc k) pk, Some pk)"
    using block_returns_at [OF assms] by blast
  ultimately show ?thesis using block_keeps_references [OF assms(1)] by blast
qed

text \<open>Pending twice: a clone is woken by another thread, then the waker is woken during the poll.\<close>

definition sample_script :: "nat poll_script" where
  "sample_script = [([CloneIt], None, [WakeIt]), ([WakeItByRef], None, []), ([CloneIt], Some 7, [])]"

theorem block_returns_witness:
  "parker_ok parker_new \<and> keeps_waking sample_script 2 \<and> run_blocking (Some parker_new) sample_script = Ran 7"
proof -
  have k: "keeps_waking sample_script 2" by (simp add: keeps_waking_def sample_script_def numeral_2_eq_2 All_less_Suc2)
  have "parker_ok parker_new" by (simp add: parker_ok_def parker_new_def)
  then show ?thesis
    using block_returns [of "Some parker_new" 2 sample_script 7] k by (simp add: sample_script_def)
qed

text \<open>A future that is pending and never wakes is not polled again.\<close>

lemma unwoken_sleeps: "\<not> wakes 1 (during @ after) \<Longrightarrow> block None ((during, None, after) # rest) = (Asleep, None)"
  using token_after [of "clone_raw parker_new" "during @ after"]
  by (simp add: block_def Let_def parker_new_def clone_raw_def unparker_clone_def)

text \<open>A wake after the last poll is left in the cached parker: the next call on the thread polls a pending future
  once more than it is woken.\<close>

lemma stale_token_polls_again:
  "snd (block None [([CloneIt, WakeIt], Some (), [])]) = Some (parker_new\<lparr>pk_token := True\<rparr>)"
  "fst (block (Some (parker_new\<lparr>pk_token := True\<rparr>)) [([], None, []), ([], Some (), [])]) = Returned () 2 parker_new"
  by code_simp+

end
