(* ===== verification/Worker_Loop.thy ===== *)
theory Worker_Loop
  imports Executor_Correct Blocking
begin

text \<open>
  \<open>runtime/executor/src/worker.rs\<close>: the thread of a worker, which works until it finds nothing and then parks, with
  the threads that push tasks for it.  Pushing a local task and unparking the worker are two steps, and
  anything may happen in between.
\<close>

subsection \<open>The thread\<close>

text \<open>A static thread parks with a timeout, a dynamic one without, a standalone one returns.\<close>

datatype run_kind = Run_Static | Run_Dynamic | Run_Standalone

record 't thread =
  th_worker :: "'t worker"
  th_phase :: phase
  th_parker :: parker
  th_kind :: run_kind
  th_returned :: bool
  th_pushing :: nat

text \<open>The worker starts with empty queues of its own; its sleeper holds another reference to the unparker.\<close>

definition worker_new :: "'t list \<Rightarrow> 't list list \<Rightarrow> 't worker \<times> parker" where
  "worker_new task_queue fences =
     (\<lparr>wk_local = [], wk_tasks = [], wk_global = task_queue, wk_fences = fences, wk_ran = [], wk_spawned = []\<rparr>,
      unparker_clone parker_new)"

definition thread_new :: "run_kind \<Rightarrow> 't list \<Rightarrow> 't list list \<Rightarrow> 't thread" where
  "thread_new kind task_queue fences =
     (let (w, pk) = worker_new task_queue fences in
      \<lparr>th_worker = w, th_phase = Pick, th_parker = pk, th_kind = kind, th_returned = False, th_pushing = 0\<rparr>)"

text \<open>Parking takes the token if there is one and waits for it otherwise; with a timeout it may also give up.\<close>

definition park :: "parker \<Rightarrow> (bool \<times> parker)" where
  "park pk = (pk_token pk, pk\<lparr>pk_token := False\<rparr>)"

definition park_timeout :: "bool \<Rightarrow> parker \<Rightarrow> (bool \<times> parker)" where
  "park_timeout elapsed pk = (pk_token pk \<or> elapsed, pk\<lparr>pk_token := False\<rparr>)"

definition sleeper_wakeup :: "'t thread \<Rightarrow> 't thread" where
  "sleeper_wakeup s = s\<lparr>th_parker := unpark (th_parker s)\<rparr>"

text \<open>A task that runs on the thread and pushes local tasks unparks the thread as well.\<close>

definition wakes_itself :: "('t \<Rightarrow> 't list \<times> 't list) \<Rightarrow> 't worker \<Rightarrow> 't worker \<Rightarrow> bool" where
  "wakes_itself spawns w w' = list_ex (\<lambda>t. fst (spawns t) \<noteq> []) (drop (length (wk_ran w)) (wk_ran w'))"

text \<open>One step of the thread itself, with the answer to a steal and whether the time to park is over: a step of
  \<open>run_inner\<close>, or what its caller does when it has returned.\<close>

definition thread_step :: "('t \<Rightarrow> 't list \<times> 't list) \<Rightarrow> steal \<Rightarrow> bool \<Rightarrow> 't thread \<Rightarrow> 't thread outcome" where
  "thread_step spawns ans elapsed s =
     (if th_returned s then Value s
      else if th_phase s = Parking then
        (case th_kind s of
           Run_Standalone \<Rightarrow> Value (s\<lparr>th_returned := True\<rparr>)
         | Run_Dynamic \<Rightarrow>
             (let (woken, pk) = park (th_parker s) in
              Value (s\<lparr>th_parker := pk, th_phase := (if woken then Pick else Parking)\<rparr>))
         | Run_Static \<Rightarrow>
             (let (woken, pk) = park_timeout elapsed (th_parker s) in
              Value (s\<lparr>th_parker := pk, th_phase := (if woken then Pick else Parking)\<rparr>)))
      else
        bind_outcome (worker_step spawns ans (th_phase s, th_worker s)) (\<lambda>(ph, w).
          Value (s\<lparr>th_worker := w, th_phase := ph,
            th_parker := (if wakes_itself spawns (th_worker s) w then unpark (th_parker s) else th_parker s)\<rparr>)))"

text \<open>Scheduling a local task from elsewhere, in its two steps, and pushing on the shared queue, which
  unparks nobody.\<close>

definition schedule_local_push :: "'t \<Rightarrow> 't thread \<Rightarrow> 't thread" where
  "schedule_local_push t s =
     s\<lparr>th_worker := (th_worker s)\<lparr>wk_local := wk_local (th_worker s) @ [t]\<rparr>, th_pushing := th_pushing s + 1\<rparr>"

definition schedule_local_unpark :: "'t thread \<Rightarrow> 't thread" where
  "schedule_local_unpark s =
     (if th_pushing s = 0 then s else (sleeper_wakeup s)\<lparr>th_pushing := th_pushing s - 1\<rparr>)"

definition schedule_global :: "'t \<Rightarrow> 't thread \<Rightarrow> 't thread" where
  "schedule_global t s = s\<lparr>th_worker := (th_worker s)\<lparr>wk_global := wk_global (th_worker s) @ [t]\<rparr>\<rparr>"

datatype 't thread_op =
  Own steal bool
| PushLocal 't
| UnparkAfterPush
| PushGlobal 't
| TakenByOthers
| Wakeup

text \<open>Other workers take from the shared queue, too.\<close>

definition taken_by_others :: "'t thread \<Rightarrow> 't thread" where
  "taken_by_others s = s\<lparr>th_worker := (th_worker s)\<lparr>wk_global := tl (wk_global (th_worker s))\<rparr>\<rparr>"

fun thread_do :: "('t \<Rightarrow> 't list \<times> 't list) \<Rightarrow> 't thread_op \<Rightarrow> 't thread \<Rightarrow> 't thread outcome" where
  "thread_do spawns (Own ans elapsed) s = thread_step spawns ans elapsed s"
| "thread_do spawns (PushLocal t) s = Value (schedule_local_push t s)"
| "thread_do spawns UnparkAfterPush s = Value (schedule_local_unpark s)"
| "thread_do spawns (PushGlobal t) s = Value (schedule_global t s)"
| "thread_do spawns TakenByOthers s = Value (taken_by_others s)"
| "thread_do spawns Wakeup s = Value (sleeper_wakeup s)"

fun thread_run :: "('t \<Rightarrow> 't list \<times> 't list) \<Rightarrow> 't thread_op list \<Rightarrow> 't thread \<Rightarrow> 't thread outcome" where
  "thread_run spawns [] s = Value s"
| "thread_run spawns (x # xs) s = bind_outcome (thread_do spawns x s) (thread_run spawns xs)"

interpretation thread_runs: stepwise "thread_do spawns" "thread_run spawns" for spawns
  by unfold_locales simp_all

subsection \<open>No local task is stranded\<close>

lemma worker_step_cases:
  assumes "worker_step spawns a (ph, w) = Value (ph', w')" "ph' \<noteq> Pick"
  shows "w' = w \<and> (ph = Pick \<longrightarrow> wk_local w = [] \<and> wk_tasks w = [])"
  using assms
  by (auto simp: worker_step_def bind_outcome_Value_iff split: phase.splits list.splits option.splits)

lemma wakes_itself_same [simp]: "\<not> wakes_itself spawns w w"
  by (simp add: wakes_itself_def)

text \<open>A thread that is not about to look into its own queues has found them empty, and what was pushed since
  then has set the token or is about to.\<close>

definition thread_ok :: "'t thread \<Rightarrow> bool" where
  "thread_ok s \<longleftrightarrow> th_phase s \<noteq> Pick \<longrightarrow>
     wk_tasks (th_worker s) = [] \<and>
     (wk_local (th_worker s) \<noteq> [] \<longrightarrow> pk_token (th_parker s) \<or> 0 < th_pushing s)"

lemma thread_new_ok: "thread_ok (thread_new kind g f)"
  by (simp add: thread_ok_def thread_new_def worker_new_def)

lemma thread_step_works:
  assumes "\<not> th_returned s" "th_phase s \<noteq> Parking"
  shows "thread_step spawns a elapsed s =
     bind_outcome (worker_step spawns a (th_phase s, th_worker s)) (\<lambda>(ph, w).
       Value (s\<lparr>th_worker := w, th_phase := ph,
         th_parker := (if wakes_itself spawns (th_worker s) w then unpark (th_parker s) else th_parker s)\<rparr>))"
  using assms by (simp add: thread_step_def)

lemma thread_step_ok:
  assumes "thread_ok s" "thread_step spawns a elapsed s = Value s'"
  shows "thread_ok s'"
proof (cases "th_returned s \<or> th_phase s = Parking")
  case True
  then show ?thesis using assms
    by (auto simp: thread_step_def thread_ok_def park_def park_timeout_def split: if_splits run_kind.splits)
next
  case False
  then obtain ph w where w: "worker_step spawns a (th_phase s, th_worker s) = Value (ph, w)"
      "s' = s\<lparr>th_worker := w, th_phase := ph,
         th_parker := (if wakes_itself spawns (th_worker s) w then unpark (th_parker s) else th_parker s)\<rparr>"
    using assms(2) by (auto simp: thread_step_works bind_outcome_Value_iff)
  show ?thesis
  proof (cases "ph = Pick")
    case False
    note c = worker_step_cases [OF w(1) False]
    then show ?thesis using assms(1) w by (cases "th_phase s = Pick") (auto simp: thread_ok_def)
  qed (simp add: thread_ok_def w)
qed

lemma thread_do_ok:
  assumes "thread_ok s" "thread_do spawns x s = Value s'"
  shows "thread_ok s'"
proof (cases x)
  case (Own a e)
  then show ?thesis using assms by (simp add: thread_step_ok)
qed (use assms in \<open>auto simp: thread_ok_def schedule_local_push_def schedule_local_unpark_def
      schedule_global_def taken_by_others_def sleeper_wakeup_def unpark_def\<close>)

lemma thread_run_ok: "\<lbrakk>thread_ok s; thread_run spawns ops s = Value s'\<rbrakk> \<Longrightarrow> thread_ok s'"
  by (rule thread_runs.run_keeps [OF thread_do_ok])

text \<open>A thread that sleeps, with nobody about to unpark it, has no task in its own queues.\<close>

lemma sleeps_without_tasks:
  assumes "thread_run spawns ops (thread_new kind g f) = Value s"
    and "th_phase s = Parking" "\<not> pk_token (th_parker s)" "th_pushing s = 0"
  shows "wk_local (th_worker s) = [] \<and> wk_tasks (th_worker s) = []"
  using thread_run_ok [OF thread_new_ok assms(1)] assms(2-4) by (auto simp: thread_ok_def)

text \<open>How far the thread is from looking into its local queue, when no race is lost.\<close>

fun rank :: "phase \<Rightarrow> nat" where
  "rank Pick = 0" | "rank Parking = 1" | "rank Fences = 2" | "rank (Global i) = 3"

abbreviation local_queue :: "'t thread \<Rightarrow> 't list" where "local_queue s \<equiv> wk_local (th_worker s)"
abbreviation has_run :: "'t thread \<Rightarrow> 't set" where "has_run s \<equiv> set (wk_ran (th_worker s))"

definition due :: "'t \<Rightarrow> nat \<Rightarrow> 't thread \<Rightarrow> bool" where
  "due t n s \<longleftrightarrow> thread_ok s \<and> \<not> th_returned s \<and> th_kind s \<noteq> Run_Standalone \<and> th_pushing s = 0 \<and>
     (\<exists>k<length (local_queue s). local_queue s ! k = t \<and> rank (th_phase s) + k = n)"

lemma worker_step_wins:
  "\<exists>ph w'. worker_step spawns (Some n) (ph0, w) = Value (ph, w') \<and>
     (ph0 \<noteq> Pick \<longrightarrow> (\<exists>ys. wk_local w' = wk_local w @ ys)) \<and> (ph0 \<noteq> Parking \<longrightarrow> ph0 \<noteq> Pick \<longrightarrow> rank ph < rank ph0) \<and>
     (ph0 = Pick \<longrightarrow> wk_local w = t # ts \<longrightarrow> ph = Pick \<and> t \<in> set (wk_ran w') \<and> (\<exists>ys. wk_local w' = ts @ ys))"
  by (cases ph0; cases "wk_local w"; cases "wk_tasks w"; cases "wk_global w"; cases "select_fence (wk_fences w)";
      cases "wk_fences w ! the (select_fence (wk_fences w))")
     (auto simp: worker_step_def run_task_def)

lemma own_step_total: "\<exists>s'. thread_step spawns (Some m) elapsed s = Value s'"
proof (cases "th_returned s \<or> th_phase s = Parking")
  case False
  obtain r where "worker_step spawns (Some m) (th_phase s, th_worker s) = Value r"
    using worker_step_wins [of spawns m "th_phase s" "th_worker s"] by blast
  then show ?thesis using False by (cases r) (simp add: thread_step_works)
qed (auto simp: thread_step_def park_def park_timeout_def split: run_kind.splits)

text \<open>Every step of the thread that does not lose a race brings it nearer to a task that is due.\<close>

lemma own_step_progress:
  assumes "due t n s"
  obtains s' where "thread_step spawns (Some m) elapsed s = Value s'" "t \<in> has_run s' \<or> (\<exists>n'<n. due t n' s')"
proof -
  obtain k where k: "thread_ok s" "\<not> th_returned s" "th_kind s \<noteq> Run_Standalone" "th_pushing s = 0"
      "k < length (local_queue s)" "local_queue s ! k = t" "rank (th_phase s) + k = n"
    using assms by (auto simp: due_def)
  show thesis
  proof (cases "th_phase s = Parking")
    case True
    then have "pk_token (th_parker s)" using k(1,4,5) by (auto simp: thread_ok_def)
    then obtain s' where s': "thread_step spawns (Some m) elapsed s = Value s'"
        "s' = s\<lparr>th_parker := (th_parker s)\<lparr>pk_token := False\<rparr>, th_phase := Pick\<rparr>"
      using True k(2,3) by (cases "th_kind s") (auto simp: thread_step_def park_def park_timeout_def)
    then have "due t k s'" using k by (auto simp: due_def thread_ok_def)
    moreover have "k < n" using k(7) True by simp
    ultimately show thesis using that s'(1) by blast
  next
    case False
    obtain q qs where q: "local_queue s = q # qs" using k(5) by (cases "local_queue s") auto
    obtain ph w where w: "worker_step spawns (Some m) (th_phase s, th_worker s) = Value (ph, w)"
      "th_phase s \<noteq> Pick \<longrightarrow> (\<exists>ys. wk_local w = local_queue s @ ys)"
      "th_phase s \<noteq> Pick \<longrightarrow> rank ph < rank (th_phase s)"
      "th_phase s = Pick \<longrightarrow> ph = Pick \<and> q \<in> set (wk_ran w) \<and> (\<exists>ys. wk_local w = qs @ ys)"
      using worker_step_wins [of spawns m "th_phase s" "th_worker s" q qs] q False by blast
    define s' where "s' = s\<lparr>th_worker := w, th_phase := ph,
         th_parker := (if wakes_itself spawns (th_worker s) w then unpark (th_parker s) else th_parker s)\<rparr>"
    have step: "thread_step spawns (Some m) elapsed s = Value s'"
      using False k(2) w(1) by (simp add: thread_step_works s'_def)
    note ok = thread_step_ok [OF k(1) step]
    show thesis
    proof (cases "th_phase s = Pick")
      case True
      then obtain ys where ys: "ph = Pick" "q \<in> set (wk_ran w)" "wk_local w = qs @ ys" using w(4) q by blast
      show thesis
      proof (cases k)
        case 0
        then show thesis using that [OF step] ys(2) q k(6) by (simp add: s'_def)
      next
        case (Suc j)
        then have "due t j s'" using ok k ys q by (auto simp: due_def s'_def nth_append)
        moreover have "j < n" using Suc k(7) by simp
        ultimately show thesis using that [OF step] by blast
      qed
    next
      case p: False
      then obtain ys where "wk_local w = local_queue s @ ys" using w(2) by blast
      then have "due t (rank ph + k) s'" using ok k by (auto simp: due_def s'_def nth_append)
      moreover have "rank ph + k < n" using w(3) p k(7) by simp
      ultimately show thesis using that [OF step] by blast
    qed
  qed
qed

lemma ran_stays: "thread_step spawns a e s = Value s' \<Longrightarrow> has_run s \<subseteq> has_run s'"
  by (auto simp: thread_step_def worker_step_def run_task_def bind_outcome_Value_iff park_def park_timeout_def
      split: if_splits run_kind.splits phase.splits list.splits option.splits)

abbreviation own_steps :: "(nat \<times> bool) list \<Rightarrow> 't thread_op list" where
  "own_steps xs \<equiv> map (\<lambda>x. Own (Some (fst x)) (snd x)) xs"

lemma own_steps_keep:
  "\<exists>s'. thread_run spawns (own_steps xs) s = Value s' \<and> has_run s \<subseteq> has_run s'"
proof (induction xs arbitrary: s)
  case (Cons x xs)
  obtain s1 where s1: "thread_step spawns (Some (fst x)) (snd x) s = Value s1" using own_step_total by blast
  then show ?case using Cons.IH [of s1] ran_stays [OF s1] by auto
qed simp

lemma due_runs:
  "\<lbrakk>due t n s; n < length xs\<rbrakk> \<Longrightarrow> \<exists>s'. thread_run spawns (own_steps xs) s = Value s' \<and> t \<in> has_run s'"
proof (induction xs arbitrary: n s)
  case (Cons x xs)
  obtain s1 where s1: "thread_step spawns (Some (fst x)) (snd x) s = Value s1"
      "t \<in> has_run s1 \<or> (\<exists>n'<n. due t n' s1)"
    by (rule own_step_progress [OF Cons.prems(1)])
  from s1(2) show ?case
  proof
    assume "t \<in> has_run s1"
    then show ?thesis using own_steps_keep [of spawns xs s1] s1(1) by auto
  next
    assume "\<exists>n'<n. due t n' s1"
    then obtain n' where "n' < n" "due t n' s1" by blast
    then show ?thesis using Cons.IH [of n' s1] Cons.prems(2) s1(1) by auto
  qed
qed simp

lemma thread_do_kind:
  "\<lbrakk>thread_do spawns x s = Value s'; th_kind s \<noteq> Run_Standalone; \<not> th_returned s\<rbrakk> \<Longrightarrow>
     th_kind s' = th_kind s \<and> \<not> th_returned s'"
  by (cases x) (auto simp: thread_step_def bind_outcome_Value_iff park_def park_timeout_def schedule_local_push_def
      schedule_local_unpark_def schedule_global_def taken_by_others_def sleeper_wakeup_def
      split: if_splits run_kind.splits)

lemma thread_run_kind:
  assumes "thread_run spawns ops s = Value s'" "th_kind s \<noteq> Run_Standalone" "\<not> th_returned s"
  shows "th_kind s' = th_kind s \<and> \<not> th_returned s'"
proof (rule thread_runs.run_keeps [OF _ _ assms(1)])
  show "th_kind t' = th_kind s \<and> \<not> th_returned t'"
    if "th_kind t = th_kind s \<and> \<not> th_returned t" "thread_do spawns x t = Value t'" for x t t'
    using that thread_do_kind [OF that(2)] assms(2) by simp
qed (use assms(3) in simp)



text \<open>The shared queue has no such promise: a dynamic worker that sleeps is not woken by a push on it and sleeps on
  until it is given a local task or woken through its sleeper, which only provisioning threads does.\<close>

lemma dynamic_worker_sleeps_on:
  assumes "th_kind s = Run_Dynamic" "th_phase s = Parking" "\<not> pk_token (th_parker s)" "th_pushing s = 0"
    and "\<forall>x\<in>set ops. (\<exists>a e. x = Own a e) \<or> (\<exists>t. x = PushGlobal t)"
  shows "\<exists>s'. thread_run spawns ops s = Value s' \<and> wk_ran (th_worker s') = wk_ran (th_worker s) \<and>
    (th_phase s' = Parking \<and> \<not> pk_token (th_parker s'))"
  using assms
proof (induction ops arbitrary: s)
  case (Cons x xs)
  have "\<exists>s1. thread_do spawns x s = Value s1 \<and> wk_ran (th_worker s1) = wk_ran (th_worker s) \<and> th_kind s1 = Run_Dynamic \<and>
      th_phase s1 = Parking \<and> \<not> pk_token (th_parker s1) \<and> th_pushing s1 = 0"
    using Cons.prems by (auto simp: thread_step_def park_def schedule_global_def)
  then obtain s1 where "thread_do spawns x s = Value s1" "wk_ran (th_worker s1) = wk_ran (th_worker s)" "th_kind s1 = Run_Dynamic"
      "th_phase s1 = Parking" "\<not> pk_token (th_parker s1)" "th_pushing s1 = 0"
    by blast
  then show ?case using Cons.IH [of s1] Cons.prems(5) by simp
qed simp

text \<open>A static worker comes back by itself when its time is over.\<close>

lemma static_worker_wakes_up:
  assumes "th_kind s = Run_Static" "th_phase s = Parking" "\<not> th_returned s"
  shows "\<exists>s'. thread_step spawns a True s = Value s' \<and> th_phase s' = Pick \<and> th_worker s' = th_worker s"
  using assms by (simp add: thread_step_def park_timeout_def)

subsection \<open>Starting threads\<close>

text \<open>A new thread is pinned to the next core and then works as its kind says; the kinds are in the order in which the
  threads get the lock of the counter.\<close>

fun start_threads :: "nat \<Rightarrow> nat \<Rightarrow> run_kind list \<Rightarrow> (nat option \<times> run_kind) list \<times> nat" where
  "start_threads core_count core [] = ([], core)"
| "start_threads core_count core (k # ks) =
     (let (pinned, core1) = affinity_pinner core_count core; (ts, core2) = start_threads core_count core1 ks in
      ((pinned, k) # ts, core2))"

definition pool_kinds :: "thread_manager \<Rightarrow> run_kind list" where
  "pool_kinds self = replicate (tm_static self) Run_Static @ replicate (tm_dynamic self) Run_Dynamic"

definition thread_name :: "nat \<Rightarrow> run_kind \<Rightarrow> string" where
  "thread_name i kind =
     (case kind of
        Run_Static \<Rightarrow> ''rt('' @ show_nat i @ '') [static]''
      | Run_Dynamic \<Rightarrow> ''rt('' @ show_nat i @ '') [dyn]''
      | Run_Standalone \<Rightarrow> ''standalone worker'')"

definition spawn_threads :: "nat \<Rightarrow> nat \<Rightarrow> nat \<Rightarrow> (nat option \<times> run_kind) list \<times> nat" where
  "spawn_threads core_count core n = start_threads core_count core (replicate n Run_Standalone)"

lemma start_threads_spec:
  assumes "1 < core_count" "core < core_count"
  shows "start_threads core_count core ks =
    (map (\<lambda>i. (Some ((core + i) mod core_count), ks ! i)) [0..<length ks], (core + length ks) mod core_count)"
  using assms(2)
proof (induction ks arbitrary: core)
  case (Cons k ks)
  have "map (\<lambda>i. (Some ((core + i) mod core_count), (k # ks) ! i)) [0..<length (k # ks)] =
      (Some core, k) # map (\<lambda>i. (Some ((Suc core mod core_count + i) mod core_count), ks ! i)) [0..<length ks]"
    using Cons.prems by (simp add: upt_conv_Cons map_Suc_upt [symmetric] comp_def mod_simps del: upt_Suc)
  then show ?case
    using Cons.IH [of "Suc core mod core_count"] Cons.prems assms(1) by (simp add: affinity_pinner_def mod_simps)
qed simp

text \<open>Every core gets its turn: as many threads as there are cores are pinned to all of them.\<close>

lemma threads_on_all_cores:
  assumes "1 < core_count" "core < core_count" "length ks = core_count"
  shows "fst ` set (fst (start_threads core_count core ks)) = Some ` {..<core_count}"
proof -
  have "(\<lambda>i. (core + i) mod core_count) ` {..<core_count} = {..<core_count}"
  proof (rule card_subset_eq)
    show "card ((\<lambda>i. (core + i) mod core_count) ` {..<core_count}) = card {..<core_count}"
    proof (rule card_image, rule inj_onI)
      fix i j assume "i \<in> {..<core_count}" "j \<in> {..<core_count}" "(core + i) mod core_count = (core + j) mod core_count"
      moreover from this obtain q1 q2 where "i + core_count * q1 = j + core_count * q2" by (auto simp: nat_mod_eq_iff)
      then have "(i + core_count * q1) mod core_count = (j + core_count * q2) mod core_count" by simp
      ultimately show "i = j" by simp
    qed
  qed (use assms(1) in auto)
  then have "Some ` (\<lambda>i. (core + i) mod core_count) ` {..<core_count} = Some ` {..<core_count}" by simp
  then show ?thesis
    using assms by (simp add: start_threads_spec image_image atLeast0LessThan)
qed

end
