(* ===== verification/Placement.thy ===== *)
theory Placement
  imports Executor
begin

unbundle bit_operations_syntax

text \<open>
  \<open>runtime/executor/src/placement.rs\<close>: which cores the program may use and the placement of a
  thread on one of them, on each system the code knows, and the singleton of
  \<open>load_balancer.rs\<close> that counts them.  What the system answers is an argument; what the code
  asks the system to set is a result.
\<close>

subsection \<open>Linux\<close>

text \<open>A \<open>cpu_set_t\<close> has a bit for each of \<open>CPU_SETSIZE\<close> cores; the macros of \<open>libc\<close> index its array.\<close>

type_synonym cpu_set = "1024 word"

definition CPU_SETSIZE :: nat where "CPU_SETSIZE = 1024"

definition new_cpu_set :: cpu_set where "new_cpu_set = 0"

definition CPU_ISSET :: "nat \<Rightarrow> cpu_set \<Rightarrow> bool outcome" where
  "CPU_ISSET cpu cpus = (if cpu < CPU_SETSIZE then Value (bit cpus cpu) else Panic)"

definition CPU_SET :: "nat \<Rightarrow> cpu_set \<Rightarrow> cpu_set outcome" where
  "CPU_SET cpu cpus = (if cpu < CPU_SETSIZE then Value (set_bit cpu cpus) else Panic)"

text \<open>\<open>sched_getaffinity\<close> returns zero when it filled the set in.\<close>

definition linux_get_affinity_mask :: "int \<times> cpu_set \<Rightarrow> cpu_set option" where
  "linux_get_affinity_mask answer = (let (res, cpus) = answer in if res = 0 then Some cpus else None)"

fun linux_collect :: "cpu_set \<Rightarrow> nat list \<Rightarrow> nat list outcome" where
  "linux_collect full_set [] = Value []"
| "linux_collect full_set (i # is) =
     bind_outcome (CPU_ISSET i full_set) (\<lambda>isset.
     bind_outcome (linux_collect full_set is) (\<lambda>core_ids. Value (if isset then i # core_ids else core_ids)))"

definition linux_get_core_ids :: "int \<times> cpu_set \<Rightarrow> nat list option outcome" where
  "linux_get_core_ids answer =
     (case linux_get_affinity_mask answer of
        Some full_set \<Rightarrow> bind_outcome (linux_collect full_set [0..<CPU_SETSIZE]) (\<lambda>core_ids. Value (Some core_ids))
      | None \<Rightarrow> Value None)"

text \<open>The set that \<open>sched_setaffinity\<close> is given.\<close>

definition linux_set_for_current :: "nat \<Rightarrow> cpu_set outcome" where
  "linux_set_for_current core_id = CPU_SET core_id new_cpu_set"

subsection \<open>Windows\<close>

definition windows_get_affinity_mask :: "int \<times> u64 \<times> u64 \<Rightarrow> u64 option" where
  "windows_get_affinity_mask answer = (let (res, process_mask, system_mask) = answer in if res \<noteq> 0 then Some process_mask else None)"

definition windows_get_core_ids :: "int \<times> u64 \<times> u64 \<Rightarrow> nat list option" where
  "windows_get_core_ids answer =
     (case windows_get_affinity_mask answer of
        Some cpus \<Rightarrow> Some (filter (\<lambda>i. let test_mask = push_bit i 1 in cpus AND test_mask = test_mask) [0..<64])
      | None \<Rightarrow> None)"

text \<open>Shifting by the width or more panics.\<close>

definition windows_set_for_current :: "nat \<Rightarrow> u64 outcome" where
  "windows_set_for_current core_id = (if core_id < 64 then Value (push_bit core_id 1) else Panic)"

subsection \<open>macOS\<close>

definition macos_get_core_ids :: "nat \<Rightarrow> nat list option" where
  "macos_get_core_ids num_cpus = Some [0..<num_cpus]"

text \<open>The tag and the number of integers of the policy; the tag is the id cut to 32 bits.\<close>

definition THREAD_AFFINITY_POLICY :: u32 where "THREAD_AFFINITY_POLICY = 4"

definition macos_set_for_current :: "nat \<Rightarrow> u32 \<times> 32 word \<times> u32" where
  "macos_set_for_current core_id = (THREAD_AFFINITY_POLICY, word_of_nat core_id, 4 div 4)"

subsection \<open>Any system\<close>

datatype platform = Linux "int \<times> cpu_set" | Windows "int \<times> u64 \<times> u64" | MacOS nat | Stub

definition get_core_ids :: "platform \<Rightarrow> nat list option outcome" where
  "get_core_ids os =
     (case os of
        Linux answer \<Rightarrow> linux_get_core_ids answer
      | Windows answer \<Rightarrow> Value (windows_get_core_ids answer)
      | MacOS n \<Rightarrow> Value (macos_get_core_ids n)
      | Stub \<Rightarrow> Value None)"

definition get_num_cores :: "platform \<Rightarrow> nat option outcome" where
  "get_num_cores os = bind_outcome (get_core_ids os) (\<lambda>ids. Value (map_option length ids))"

datatype placed_at = PlacedLinux cpu_set | PlacedWindows u64 | PlacedMacOS "u32 \<times> 32 word \<times> u32" | Unplaced

definition set_for_current :: "platform \<Rightarrow> nat \<Rightarrow> placed_at outcome" where
  "set_for_current os core_id =
     (case os of
        Linux _ \<Rightarrow> bind_outcome (linux_set_for_current core_id) (\<lambda>m. Value (PlacedLinux m))
      | Windows _ \<Rightarrow> bind_outcome (windows_set_for_current core_id) (\<lambda>m. Value (PlacedWindows m))
      | MacOS _ \<Rightarrow> Value (PlacedMacOS (macos_set_for_current core_id))
      | Stub \<Rightarrow> Value Unplaced)"

subsection \<open>The load balancer\<close>

definition load_balancer_new :: "nat list \<Rightarrow> nat \<Rightarrow> load_balancer \<times> nat list" where
  "load_balancer_new cores now = (\<lparr>bal_num_cores = length cores, bal_updated_at = now\<rparr>, cores)"

definition LOAD_BALANCER :: "platform \<Rightarrow> nat \<Rightarrow> (load_balancer \<times> nat list) outcome" where
  "LOAD_BALANCER os now =
     bind_outcome (get_core_ids os) (\<lambda>ids. case ids of Some cores \<Rightarrow> Value (load_balancer_new cores now) | None \<Rightarrow> Panic)"

definition core_count :: "platform \<Rightarrow> nat \<Rightarrow> nat outcome" where
  "core_count os now = bind_outcome (LOAD_BALANCER os now) (\<lambda>(lb, cores). Value (bal_num_cores lb))"

definition get_cores :: "platform \<Rightarrow> nat \<Rightarrow> nat list outcome" where
  "get_cores os now = bind_outcome (LOAD_BALANCER os now) (\<lambda>(lb, cores). Value cores)"

text \<open>The static of \<open>stats\<close> starts with a zero for each core.\<close>

definition stats_static :: "platform \<Rightarrow> nat \<Rightarrow> load_stats outcome" where
  "stats_static os now = bind_outcome (core_count os now) (\<lambda>n. Value (stats_new n))"

text \<open>The threads of the pool pin themselves one after the other.\<close>

fun pin_threads :: "platform \<Rightarrow> nat \<Rightarrow> nat \<Rightarrow> nat \<Rightarrow> placed_at option list outcome" where
  "pin_threads os cores 0 core = Value []"
| "pin_threads os cores (Suc n) core =
     (case affinity_pinner cores core of
        (None, core') \<Rightarrow> bind_outcome (pin_threads os cores n core') (\<lambda>rest. Value (None # rest))
      | (Some c, core') \<Rightarrow>
          bind_outcome (set_for_current os c) (\<lambda>at.
          bind_outcome (pin_threads os cores n core') (\<lambda>rest. Value (Some at # rest))))"

subsection \<open>The cores of a mask\<close>

lemma linux_collect_filter:
  "\<forall>i \<in> set is. i < CPU_SETSIZE \<Longrightarrow> linux_collect full_set is = Value (filter (bit full_set) is)"
  by (induction "is") (simp_all add: CPU_ISSET_def)

lemma linux_core_ids:
  "linux_get_core_ids (res, cpus) = Value (if res = 0 then Some (filter (bit cpus) [0..<1024]) else None)"
  by (simp add: linux_get_core_ids_def linux_get_affinity_mask_def linux_collect_filter CPU_SETSIZE_def)

lemma and_push_bit_iff:
  fixes cpus :: "'a::len word"
  assumes "i < LENGTH('a)"
  shows "cpus AND push_bit i 1 = push_bit i 1 \<longleftrightarrow> bit cpus i"
proof
  assume "cpus AND push_bit i 1 = push_bit i 1"
  then have "bit (cpus AND push_bit i 1) i = bit (push_bit i 1 :: 'a word) i" by simp
  then show "bit cpus i" using assms by (simp add: bit_simps)
next
  assume "bit cpus i"
  then show "cpus AND push_bit i 1 = push_bit i 1" by (intro bit_word_eqI) (auto simp: bit_simps)
qed

lemma windows_core_ids:
  "windows_get_core_ids (res, cpus, system) = (if res \<noteq> 0 then Some (filter (bit cpus) [0..<64]) else None)"
proof -
  have "filter (\<lambda>i. cpus AND push_bit i 1 = push_bit i 1) [0..<64] = filter (bit cpus) [0..<64]"
    by (intro filter_cong refl and_push_bit_iff) simp
  then show ?thesis by (simp add: windows_get_core_ids_def windows_get_affinity_mask_def Let_def del: push_bit_of_1)
qed

lemma filter_single: "i < n \<Longrightarrow> filter (\<lambda>j. j = i) [0..<n] = [i]"
  by (induction n) (auto simp: less_Suc_eq filter_empty_conv)

text \<open>Placing a thread on a core leaves it with that core alone.\<close>

lemma linux_placed:
  assumes "core < 1024"
  shows "bind_outcome (linux_set_for_current core) (\<lambda>cpus. linux_get_core_ids (0, cpus)) = Value (Some [core])"
proof -
  have "filter (bit (set_bit core 0 :: cpu_set)) [0..<1024] = filter (\<lambda>j. j = core) [0..<1024]"
    using assms by (intro filter_cong) (auto simp: bit_simps)
  then show ?thesis
    using assms by (simp add: linux_set_for_current_def CPU_SET_def CPU_SETSIZE_def new_cpu_set_def linux_core_ids filter_single)
qed

lemma windows_placed:
  assumes "core < 64"
  shows "bind_outcome (windows_set_for_current core) (\<lambda>cpus. Value (windows_get_core_ids (1, cpus, 0))) = Value (Some [core])"
proof -
  have "filter (bit (push_bit core 1 :: u64)) [0..<64] = filter (\<lambda>j. j = core) [0..<64]"
    using assms by (intro filter_cong) (auto simp: bit_simps)
  then show ?thesis using assms by (simp add: windows_set_for_current_def windows_core_ids filter_single)
qed

text \<open>The cores that are found can be placed on, whichever the system is.\<close>

lemma found_cores_placeable:
  assumes "get_core_ids os = Value (Some ids)" "c \<in> set ids"
  shows "\<exists>at. set_for_current os c = Value at"
  using assms
  by (cases os) (auto simp: get_core_ids_def set_for_current_def linux_core_ids windows_core_ids linux_set_for_current_def
    CPU_SET_def CPU_SETSIZE_def windows_set_for_current_def split: if_splits prod.splits)

subsection \<open>Pinning\<close>

lemma pinner_round_robin:
  assumes "1 < cores" "core < cores" "\<And>c. c < cores \<Longrightarrow> set_for_current os c = Value (at c)"
  shows "pin_threads os cores n core = Value (map (\<lambda>i. Some (at ((core + i) mod cores))) [0..<n])"
  using assms(2)
proof (induction n arbitrary: core)
  case (Suc n)
  have "(core + 1) mod cores < cores" using assms(1) by simp
  note IH = Suc.IH [OF this]
  have "map (\<lambda>i. Some (at ((core + i) mod cores))) [0..<Suc n] =
      Some (at core) # map (\<lambda>i. Some (at (((core + 1) mod cores + i) mod cores))) [0..<n]"
    using Suc.prems by (simp add: upt_conv_Cons map_Suc_upt [symmetric] mod_add_left_eq del: upt_Suc)
  then show ?case using IH assms(1) assms(3) [OF Suc.prems] by (simp add: affinity_pinner_def)
qed simp

text \<open>A thread is pinned to the number of a core, counted from zero, and not to a core the program may use: with the
  cores two and three allowed, two threads are placed on the cores zero and one.\<close>

lemma filter_two: "filter (\<lambda>j. j = 2 \<or> j = 3) [0..<4 + n] = [2, 3]"
proof (induction n)
  case 0
  show ?case by code_simp
next
  case (Suc n)
  then show ?case unfolding add_Suc_right upt_Suc by simp
qed

lemma pinned_outside_mask:
  "get_cores (Linux (0, 12)) now = Value [2, 3]" "core_count (Linux (0, 12)) now = Value 2"
  "pin_threads (Linux (0, 12)) 2 2 0 = Value [Some (PlacedLinux 1), Some (PlacedLinux 2)]"
proof -
  have ids: "linux_get_core_ids (0, 12) = Value (Some [2, 3])"
  proof -
    have twelve: "(12 :: cpu_set) = set_bit 2 (set_bit 3 0)" by (simp add: set_bit_eq_or)
    have "bit (12 :: cpu_set) j \<longleftrightarrow> j = 2 \<or> j = 3" if "j < 1024" for j
      unfolding twelve bit_set_bit_iff using that by auto
    then have "filter (bit (12 :: cpu_set)) [0..<1024] = filter (\<lambda>j. j = 2 \<or> j = 3) [0..<1024]"
      by (intro filter_cong) auto
    also have "\<dots> = [2, 3]" by (rule filter_two [of 1020, simplified])
    finally show ?thesis by (simp add: linux_core_ids)
  qed
  then show "get_cores (Linux (0, 12)) now = Value [2, 3]" "core_count (Linux (0, 12)) now = Value 2"
    by (simp_all add: get_cores_def core_count_def LOAD_BALANCER_def get_core_ids_def load_balancer_new_def)
  show "pin_threads (Linux (0, 12)) 2 2 0 = Value [Some (PlacedLinux 1), Some (PlacedLinux 2)]"
    by (simp add: numeral_2_eq_2 affinity_pinner_def set_for_current_def linux_set_for_current_def CPU_SET_def CPU_SETSIZE_def
      new_cpu_set_def set_bit_eq_or)
qed

text \<open>On a system the code does not know nobody can count the cores: the load balancer panics.\<close>

lemma stub_has_no_cores: "core_count Stub now = Panic"
  by (simp add: core_count_def LOAD_BALANCER_def get_core_ids_def)

end
