(* ===== verification/Id_Map.thy ===== *)
theory Id_Map
  imports Console
begin

text \<open>
  \<open>runtime/console/src/id_map.rs\<close> and the conversions of \<open>stats.rs\<close>: the maps from span
  identifiers to what the console knows, and the messages made of them.  Tasks, resources and
  operations are stored in their map; their statistics are shared with the spans, so a map of
  statistics holds references into a store.  The interface \<open>unsent\<close> is what the traits
  \<open>Unsent\<close> and \<open>ToProto\<close> promise together.
\<close>

subsection \<open>Messages\<close>

record time_anchor =
  ta_mono :: nat
  ta_sys :: nat

text \<open>An instant before the anchor counts as the anchor.\<close>

definition to_system_time :: "time_anchor \<Rightarrow> nat \<Rightarrow> nat" where
  "to_system_time self t = ta_sys self + (t - ta_mono self)"

abbreviation "to_timestamp \<equiv> to_system_time"

record poll_stats_proto =
  pp_polls :: nat
  pp_first_poll :: "nat option"
  pp_last_started :: "nat option"
  pp_last_ended :: "nat option"
  pp_busy_time :: nat

definition poll_stats_to_proto :: "time_anchor \<Rightarrow> 'h poll_stats \<Rightarrow> poll_stats_proto" where
  "poll_stats_to_proto base self =
     \<lparr>pp_polls = ps_polls self, pp_first_poll = map_option (to_timestamp base) (ps_first_poll self),
      pp_last_started = map_option (to_timestamp base) (ps_last_started self),
      pp_last_ended = map_option (to_timestamp base) (ps_last_ended self), pp_busy_time = ps_busy_time self\<rparr>"

record task_stats_proto =
  tp_poll_stats :: poll_stats_proto
  tp_created_at :: nat
  tp_dropped_at :: "nat option"
  tp_wakes :: nat
  tp_waker_clones :: nat
  tp_self_wakes :: nat
  tp_waker_drops :: nat
  tp_last_wake :: "nat option"

definition task_stats_to_proto :: "time_anchor \<Rightarrow> task_stats \<Rightarrow> task_stats_proto" where
  "task_stats_to_proto base self =
     \<lparr>tp_poll_stats = poll_stats_to_proto base (ts_poll_stats self), tp_created_at = to_timestamp base (ts_created_at self),
      tp_dropped_at = map_option (to_timestamp base) (ts_dropped_at self), tp_wakes = ts_wakes self,
      tp_waker_clones = ts_waker_clones self, tp_self_wakes = ts_self_wakes self, tp_waker_drops = ts_waker_drops self,
      tp_last_wake = map_option (to_timestamp base) (ts_last_wake self)\<rparr>"

record resource_stats_proto =
  rp_created_at :: nat
  rp_dropped_at :: "nat option"
  rp_attributes :: "attribute list"

definition resource_stats_to_proto :: "time_anchor \<Rightarrow> resource_stats \<Rightarrow> resource_stats_proto" where
  "resource_stats_to_proto base self =
     \<lparr>rp_created_at = to_timestamp base (rs_created_at self),
      rp_dropped_at = map_option (to_timestamp base) (rs_dropped_at self), rp_attributes = map snd (rs_attributes self)\<rparr>"

record async_op_stats_proto =
  ap_poll_stats :: poll_stats_proto
  ap_created_at :: nat
  ap_dropped_at :: "nat option"
  ap_task_id :: "u64 option"
  ap_attributes :: "attribute list"

definition async_op_stats_to_proto :: "time_anchor \<Rightarrow> async_op_stats \<Rightarrow> async_op_stats_proto" where
  "async_op_stats_to_proto base self =
     \<lparr>ap_poll_stats = poll_stats_to_proto base (ao_poll_stats self),
      ap_created_at = to_timestamp base (rs_created_at (ao_stats self)),
      ap_dropped_at = map_option (to_timestamp base) (rs_dropped_at (ao_stats self)),
      ap_task_id = async_op_task_id self, ap_attributes = map snd (rs_attributes (ao_stats self))\<rparr>"

text \<open>How the library writes a histogram is an argument.\<close>

record histogram_proto =
  hp_raw :: "u8 list"
  hp_max_value :: nat
  hp_high_outliers :: nat
  hp_highest_outlier :: "nat option"

definition histogram_to_proto :: "(nat list \<Rightarrow> u8 list) \<Rightarrow> histogram \<Rightarrow> histogram_proto" where
  "histogram_to_proto ser self =
     \<lparr>hp_raw = ser (hi_recorded self), hp_max_value = hi_max self, hp_high_outliers = hi_outliers self,
      hp_highest_outlier = hi_max_outlier self\<rparr>"

definition poll_duration_histogram :: "(nat list \<Rightarrow> u8 list) \<Rightarrow> task_stats \<Rightarrow> histogram_proto" where
  "poll_duration_histogram ser self = histogram_to_proto ser (ps_histogram (ts_poll_stats self))"

subsection \<open>Maps\<close>

datatype include_mode = IncludeAll | UpdatedOnly

type_synonym 'a id_map = "(nat \<times> 'a) list"

definition id_insert :: "'a id_map \<Rightarrow> nat \<Rightarrow> 'a \<Rightarrow> 'a id_map" where
  "id_insert self i d = AList.update i d self"

definition id_get :: "'a id_map \<Rightarrow> nat \<Rightarrow> 'a option" where
  "id_get self i = map_of self i"

text \<open>The entries with changes that were not sent; asking marks them as sent.\<close>

fun since_last_update :: "('a \<Rightarrow> bool \<times> 'a) \<Rightarrow> 'a id_map \<Rightarrow> 'a id_map \<times> 'a id_map" where
  "since_last_update take_uns [] = ([], [])"
| "since_last_update take_uns ((i, d) # self) =
     (let (uns, d') = take_uns d; (out, self') = since_last_update take_uns self in
      (if uns then (i, d') # out else out, (i, d') # self'))"

definition as_proto_list ::
  "('a \<Rightarrow> bool \<times> 'a) \<Rightarrow> ('a \<Rightarrow> 'p) \<Rightarrow> 'a id_map \<Rightarrow> include_mode \<Rightarrow> 'p list \<times> 'a id_map" where
  "as_proto_list take_uns to_pr self inc =
     (case inc of
        UpdatedOnly \<Rightarrow> (let (out, self') = since_last_update take_uns self in (map (\<lambda>(i, d). to_pr d) out, self'))
      | IncludeAll \<Rightarrow> (map (\<lambda>(i, d). to_pr d) self, self))"

text \<open>The same for a map of references into a store.\<close>

fun since_last_update_arc :: "('s \<Rightarrow> bool \<times> 's) \<Rightarrow> 's list \<Rightarrow> nat id_map \<Rightarrow> 's id_map \<times> 's list" where
  "since_last_update_arc take_uns heap [] = ([], heap)"
| "since_last_update_arc take_uns heap ((i, r) # self) =
     (let (uns, s) = take_uns (heap ! r); (out, heap') = since_last_update_arc take_uns (heap[r := s]) self in
      (if uns then (i, s) # out else out, heap'))"

definition as_proto ::
  "('s \<Rightarrow> bool \<times> 's) \<Rightarrow> ('s \<Rightarrow> 'p) \<Rightarrow> 's list \<Rightarrow> nat id_map \<Rightarrow> include_mode \<Rightarrow> 'p id_map \<times> 's list" where
  "as_proto take_uns to_pr heap self inc =
     (case inc of
        UpdatedOnly \<Rightarrow>
          (let (out, heap') = since_last_update_arc take_uns heap self in (map (\<lambda>(i, s). (i, to_pr s)) out, heap'))
      | IncludeAll \<Rightarrow> (map (\<lambda>(i, r). (i, to_pr (heap ! r))) self, heap))"

definition keeps_stats :: "('s \<Rightarrow> nat option) \<Rightarrow> ('s \<Rightarrow> bool) \<Rightarrow> nat \<Rightarrow> nat \<Rightarrow> bool \<Rightarrow> 's \<Rightarrow> bool" where
  "keeps_stats dropped uns now retention has_watchers s =
     (case dropped s of
        Some dropped_at \<Rightarrow>
          let dropped_for = now - dropped_at; dirty = uns s;
              should_drop = (dirty \<and> has_watchers) \<or> dropped_for > retention in
          \<not> should_drop
      | None \<Rightarrow> True)"

definition drop_closed ::
  "('s \<Rightarrow> nat option) \<Rightarrow> ('s \<Rightarrow> bool) \<Rightarrow> 'x id_map \<Rightarrow> 's id_map \<Rightarrow> nat \<Rightarrow> nat \<Rightarrow> bool \<Rightarrow> 'x id_map \<times> 's id_map" where
  "drop_closed dropped uns self stats now retention has_watchers =
     (let stats' = filter (\<lambda>(i, s). keeps_stats dropped uns now retention has_watchers s) stats in
      (filter (\<lambda>(i, d). i \<in> fst ` set stats') self, stats'))"

subsection \<open>What an update contains\<close>

lemma id_get_insert: "id_get (id_insert self i d) j = (if j = i then Some d else id_get self j)"
  by (simp add: id_get_def id_insert_def update_conv')

lemma id_insert_distinct: "distinct (map fst self) \<Longrightarrow> distinct (map fst (id_insert self i d))"
  by (simp add: id_insert_def distinct_update)

lemma id_insert_set: "set (id_insert self i d) \<subseteq> insert (i, d) (set self)"
  unfolding id_insert_def by (induction self) auto

locale unsent =
  fixes take_uns :: "'s \<Rightarrow> bool \<times> 's"
    and is_uns :: "'s \<Rightarrow> bool"
    and to_pr :: "'s \<Rightarrow> 'p"
  assumes take_tells: "fst (take_uns s) = is_uns s"
    and take_clears: "\<not> is_uns (snd (take_uns s))"
    and take_keeps: "to_pr (snd (take_uns s)) = to_pr s"
begin

lemma since_last_update_eq:
  "since_last_update take_uns m =
     (map (\<lambda>(i, d). (i, snd (take_uns d))) (filter (\<lambda>(i, d). is_uns d) m), map (\<lambda>(i, d). (i, snd (take_uns d))) m)"
  by (induction m) (auto simp: split_beta take_tells)

text \<open>An update lists what was not sent, and leaves nothing to send.\<close>

lemma as_proto_list_updated:
  "as_proto_list take_uns to_pr m UpdatedOnly =
     (map (\<lambda>(i, d). to_pr d) (filter (\<lambda>(i, d). is_uns d) m), map (\<lambda>(i, d). (i, snd (take_uns d))) m)"
  by (simp add: as_proto_list_def since_last_update_eq split_beta comp_def take_keeps)

lemma as_proto_list_again: "fst (as_proto_list take_uns to_pr (snd (as_proto_list take_uns to_pr m UpdatedOnly)) UpdatedOnly) = []"
  by (simp add: as_proto_list_updated split_beta comp_def filter_map take_clears)

text \<open>An entry that is in the map stays there with the same message.  It is listed now unless it was sent before.\<close>

lemma as_proto_list_covers:
  assumes "as_proto_list take_uns to_pr m inc = (ps, m')" "(i, d) \<in> set m'"
  shows "\<exists>d0. (i, d0) \<in> set m \<and> to_pr d0 = to_pr d \<and> (is_uns d \<longrightarrow> inc = IncludeAll \<and> d0 = d) \<and>
    (is_uns d0 \<or> inc = IncludeAll \<longrightarrow> to_pr d \<in> set ps)"
proof (cases inc)
  case IncludeAll
  then show ?thesis using assms by (intro exI [of _ d]) (auto simp: as_proto_list_def)
next
  case UpdatedOnly
  then obtain d0 where "(i, d0) \<in> set m" "d = snd (take_uns d0)" "ps = map (\<lambda>(i, d). to_pr d) (filter (\<lambda>(i, d). is_uns d) m)"
    using assms by (auto simp: as_proto_list_updated)
  then show ?thesis
    using take_keeps [of d0] take_clears [of d0] UpdatedOnly by (intro exI [of _ d0]) force
qed

lemma as_proto_list_fst: "map fst (snd (as_proto_list take_uns to_pr m inc)) = map fst m"
  by (cases inc) (simp_all add: as_proto_list_updated as_proto_list_def since_last_update_eq split_beta comp_def)

lemma since_last_update_arc_heap:
  "length (snd (since_last_update_arc take_uns heap m)) = length heap \<and>
   (\<forall>r. to_pr (snd (since_last_update_arc take_uns heap m) ! r) = to_pr (heap ! r))"
proof (induction m arbitrary: heap)
  case (Cons x m)
  obtain i r where x: "x = (i, r)" by (cases x)
  let ?h = "heap[r := snd (take_uns (heap ! r))]"
  have "to_pr (?h ! j) = to_pr (heap ! j)" for j
    by (cases "j = r \<and> r < length heap") (auto simp: nth_list_update take_keeps not_less list_update_beyond)
  then show ?case using Cons.IH [of ?h] by (simp add: x split_beta)
qed simp

lemma since_last_update_arc_fst:
  "distinct (map snd m) \<Longrightarrow>
     fst (since_last_update_arc take_uns heap m) =
       map (\<lambda>(i, r). (i, snd (take_uns (heap ! r)))) (filter (\<lambda>(i, r). is_uns (heap ! r)) m)"
proof (induction m arbitrary: heap)
  case (Cons x m)
  obtain i r where x: "x = (i, r)" by (cases x)
  let ?h = "heap[r := snd (take_uns (heap ! r))]"
  have same: "?h ! j = heap ! j" if "(k, j) \<in> set m" for k j
  proof -
    have "j \<noteq> r" using that Cons.prems x by force
    then show ?thesis by simp
  qed
  have "map (\<lambda>(i, r). (i, snd (take_uns (?h ! r)))) (filter (\<lambda>(i, r). is_uns (?h ! r)) m) =
      map (\<lambda>(i, r). (i, snd (take_uns (heap ! r)))) (filter (\<lambda>(i, r). is_uns (heap ! r)) m)"
    by (intro map_cong filter_cong) (auto simp: same)
  then show ?case using Cons.IH [of ?h] Cons.prems x by (simp add: case_prod_unfold take_tells Let_def)
qed simp

text \<open>The statistics of an update are those that changed, whatever was sent before.\<close>

lemma as_proto_updated:
  assumes "distinct (map snd m)"
  shows "fst (as_proto take_uns to_pr heap m UpdatedOnly) =
    map (\<lambda>(i, r). (i, to_pr (heap ! r))) (filter (\<lambda>(i, r). is_uns (heap ! r)) m)"
  using since_last_update_arc_fst [OF assms, of heap] by (simp add: as_proto_def split_beta comp_def take_keeps)

lemma as_proto_heap:
  "length (snd (as_proto take_uns to_pr heap m inc)) = length heap"
  "to_pr (snd (as_proto take_uns to_pr heap m inc) ! r) = to_pr (heap ! r)"
  using since_last_update_arc_heap [of heap m] by (cases inc; simp add: as_proto_def split_beta)+

end

interpretation task_st: unsent task_take_unsent ts_is_dirty "task_stats_to_proto base" for base
  by unfold_locales (simp_all add: task_take_unsent_def task_stats_to_proto_def)

interpretation resource_st: unsent resource_take_unsent rs_is_dirty "resource_stats_to_proto base" for base
  by unfold_locales (simp_all add: resource_take_unsent_def resource_stats_to_proto_def)

interpretation async_op_st: unsent async_op_take_unsent "\<lambda>s. rs_is_dirty (ao_stats s)" "async_op_stats_to_proto base" for base
  by unfold_locales
    (simp_all add: async_op_take_unsent_def resource_take_unsent_def async_op_stats_to_proto_def async_op_task_id_def)

text \<open>With watchers, the statistics of a task that was just dropped are thrown away because they are not sent yet.\<close>

lemma dropped_task_not_kept:
  "\<not> keeps_stats task_dropped_at ts_is_dirty now retention True (drop_task (task_stats_new mx at) now)"
  by (simp add: keeps_stats_def drop_task_def task_stats_new_def task_dropped_at_def)

lemma drop_closed_dom: "fst ` set (fst (drop_closed dropped uns self stats now ret w)) \<subseteq> fst ` set (snd (drop_closed dropped uns self stats now ret w))"
  by (force simp: drop_closed_def Let_def)

end
