(* ===== verification/Console_Layer.thy ===== *)
theory Console_Layer
  imports Console_Visitors Id_Map
begin

text \<open>
  \<open>runtime/console/src/lib.rs\<close> and \<open>event.rs\<close>: the layer that hears about spans and events
  and tells the aggregator.  The registry of spans belongs to the tracing library; of a span
  the model keeps its metadata, its parent and the statistics the layer attached to it.
  Statistics are shared, so they live in stores and are passed as references.  A handler runs
  without interruption; the thread that runs it and the time are arguments.
\<close>

subsection \<open>Events and state\<close>

record metadata =
  md_callsite :: nat
  md_name :: string
  md_target :: string

datatype event =
    EvMetadata metadata
  | EvSpawn nat metadata nat "field list" "location option"
  | EvResource nat "nat option" metadata string resource_kind "location option" bool nat
  | EvPollOp metadata nat string nat nat bool
  | EvAsyncResourceOp nat "nat option" nat metadata string nat

fun is_wake :: "wake_op \<Rightarrow> bool" where
  "is_wake (WakeOp sw) = True"
| "is_wake (WakeByRefOp sw) = True"
| "is_wake CloneOp = False"
| "is_wake DropOp = False"

fun self_wake :: "wake_op \<Rightarrow> bool \<Rightarrow> wake_op" where
  "self_wake (WakeOp sw) b = WakeOp b"
| "self_wake (WakeByRefOp sw) b = WakeByRefOp b"
| "self_wake CloneOp b = CloneOp"
| "self_wake DropOp b = DropOp"

record shared =
  sh_dropped_tasks :: nat
  sh_dropped_resources :: nat
  sh_dropped_async_ops :: nat

datatype dropped = DroppedTasks | DroppedResources | DroppedAsyncOps

fun add_dropped :: "dropped \<Rightarrow> shared \<Rightarrow> shared" where
  "add_dropped DroppedTasks self = self\<lparr>sh_dropped_tasks := sh_dropped_tasks self + 1\<rparr>"
| "add_dropped DroppedResources self = self\<lparr>sh_dropped_resources := sh_dropped_resources self + 1\<rparr>"
| "add_dropped DroppedAsyncOps self = self\<lparr>sh_dropped_async_ops := sh_dropped_async_ops self + 1\<rparr>"

record console_layer =
  cl_current_spans :: "nat \<rightharpoonup> span_stack"
  cl_spawn :: callsites
  cl_waker :: callsites
  cl_resource :: callsites
  cl_async_op :: callsites
  cl_async_op_poll :: callsites
  cl_poll_op :: callsites
  cl_resource_state_update :: callsites
  cl_async_op_state_update :: callsites
  cl_max_poll_duration_nanos :: nat

record span_data =
  sp_metadata :: metadata
  sp_parent :: "nat option"
  sp_task :: "nat option"
  sp_async_op :: "nat option"
  sp_resource :: "nat option"

text \<open>The layer with what it shares: the channel of events, the counters, the spans and the stores.\<close>

record console =
  co_layer :: console_layer
  co_shared :: shared
  co_events :: "event list"
  co_capacity :: nat
  co_connected :: bool
  co_spans :: "nat \<rightharpoonup> span_data"
  co_task_stats :: "task_stats list"
  co_resource_stats :: "resource_stats list"
  co_async_op_stats :: "async_op_stats list"

definition layer_new :: "nat \<Rightarrow> console_layer" where
  "layer_new poll_duration_max =
     \<lparr>cl_current_spans = Map.empty, cl_spawn = callsites_default 8, cl_waker = callsites_default 8,
      cl_resource = callsites_default 8, cl_async_op = callsites_default 32, cl_async_op_poll = callsites_default 32,
      cl_poll_op = callsites_default 32, cl_resource_state_update = callsites_default 32,
      cl_async_op_state_update = callsites_default 32, cl_max_poll_duration_nanos = poll_duration_max\<rparr>"

record builder =
  bd_server_addr :: string
  bd_server_port :: nat
  bd_event_buffer_capacity :: nat
  bd_client_buffer_capacity :: nat
  bd_poll_duration_max :: nat

definition builder_default :: builder where
  "builder_default =
     \<lparr>bd_server_addr = ''127.0.0.1'', bd_server_port = 49289, bd_event_buffer_capacity = 1024,
      bd_client_buffer_capacity = 1024, bd_poll_duration_max = 1000000000\<rparr>"

definition console_build :: "builder \<Rightarrow> console" where
  "console_build config =
     \<lparr>co_layer = layer_new (bd_poll_duration_max config),
      co_shared = \<lparr>sh_dropped_tasks = 0, sh_dropped_resources = 0, sh_dropped_async_ops = 0\<rparr>,
      co_events = [], co_capacity = bd_event_buffer_capacity config, co_connected = True, co_spans = Map.empty,
      co_task_stats = [], co_resource_stats = [], co_async_op_stats = []\<rparr>"

subsection \<open>Sending\<close>

datatype send_result = Sent | Full | Disconnected

definition try_send :: "console \<Rightarrow> event \<Rightarrow> send_result \<times> console" where
  "try_send self ev =
     (if \<not> co_connected self then (Disconnected, self)
      else if length (co_events self) \<ge> co_capacity self then (Full, self)
      else (Sent, self\<lparr>co_events := co_events self @ [ev]\<rparr>))"

definition count_dropped :: "dropped \<Rightarrow> console \<Rightarrow> console" where
  "count_dropped d self = self\<lparr>co_shared := add_dropped d (co_shared self)\<rparr>"

definition send_stats ::
  "dropped \<Rightarrow> (console \<Rightarrow> event \<times> 's \<times> console) \<Rightarrow> console \<Rightarrow> 's option \<times> console" where
  "send_stats d mk_event self =
     (if length (co_events self) \<ge> co_capacity self then (None, count_dropped d self)
      else let (ev, stats, self1) = mk_event self; (res, self2) = try_send self1 ev in
        (case res of
           Sent \<Rightarrow> (Some stats, self2)
         | Full \<Rightarrow> (None, count_dropped d self2)
         | Disconnected \<Rightarrow> (None, self2)))"

definition send_metadata :: "dropped \<Rightarrow> event \<Rightarrow> console \<Rightarrow> bool \<times> console" where
  "send_metadata d ev self =
     (let (sent, self') = send_stats d (\<lambda>c. (ev, (), c)) self in (sent \<noteq> None, self'))"

subsection \<open>Call sites\<close>

abbreviation "SPAWN_TARGET \<equiv> ''executor::task''"
abbreviation "SPAWN_NAME \<equiv> ''runtime.spawn''"
abbreviation "WAKER_EVENT_TARGET \<equiv> ''executor::waker''"
abbreviation "RES_SPAN_NAME \<equiv> ''runtime.resource''"
abbreviation "ASYNC_OP_SPAN_NAME \<equiv> ''runtime.resource.async_op''"
abbreviation "ASYNC_OP_POLL_NAME \<equiv> ''runtime.resource.async_op.poll''"
abbreviation "POLL_OP_EVENT_TARGET \<equiv> ''runtime::resource::poll_op''"
abbreviation "RE_STATE_UPDATE_EVENT_TARGET \<equiv> ''runtime::resource::state_update''"
abbreviation "AO_STATE_UPDATE_EVENT_TARGET \<equiv> ''runtime::resource::async_op::state_update''"

definition known_callsite :: "callsites \<Rightarrow> metadata \<Rightarrow> bool outcome" where
  "known_callsite cs md = callsites_contains cs (md_callsite md)"

text \<open>The table a call site is entered in, and the counter for what is dropped.\<close>

definition layer_insert :: "console_layer \<Rightarrow> metadata \<Rightarrow> (dropped \<times> console_layer) outcome" where
  "layer_insert self md =
     (let name = md_name md; target = md_target md; c = md_callsite md in
      if target = SPAWN_TARGET \<or> name = SPAWN_NAME then
        bind_outcome (callsites_insert (cl_spawn self) c) (\<lambda>cs. Value (DroppedTasks, self\<lparr>cl_spawn := cs\<rparr>))
      else if target = WAKER_EVENT_TARGET then
        bind_outcome (callsites_insert (cl_waker self) c) (\<lambda>cs. Value (DroppedTasks, self\<lparr>cl_waker := cs\<rparr>))
      else if name = RES_SPAN_NAME then
        bind_outcome (callsites_insert (cl_resource self) c) (\<lambda>cs. Value (DroppedResources, self\<lparr>cl_resource := cs\<rparr>))
      else if name = ASYNC_OP_SPAN_NAME then
        bind_outcome (callsites_insert (cl_async_op self) c) (\<lambda>cs. Value (DroppedAsyncOps, self\<lparr>cl_async_op := cs\<rparr>))
      else if name = ASYNC_OP_POLL_NAME then
        bind_outcome (callsites_insert (cl_async_op_poll self) c)
          (\<lambda>cs. Value (DroppedAsyncOps, self\<lparr>cl_async_op_poll := cs\<rparr>))
      else if target = POLL_OP_EVENT_TARGET then
        bind_outcome (callsites_insert (cl_poll_op self) c) (\<lambda>cs. Value (DroppedAsyncOps, self\<lparr>cl_poll_op := cs\<rparr>))
      else if target = RE_STATE_UPDATE_EVENT_TARGET then
        bind_outcome (callsites_insert (cl_resource_state_update self) c)
          (\<lambda>cs. Value (DroppedResources, self\<lparr>cl_resource_state_update := cs\<rparr>))
      else if target = AO_STATE_UPDATE_EVENT_TARGET then
        bind_outcome (callsites_insert (cl_async_op_state_update self) c)
          (\<lambda>cs. Value (DroppedAsyncOps, self\<lparr>cl_async_op_state_update := cs\<rparr>))
      else Value (DroppedTasks, self))"

definition register_callsite :: "console \<Rightarrow> metadata \<Rightarrow> console outcome" where
  "register_callsite self md =
     bind_outcome (layer_insert (co_layer self) md) (\<lambda>(d, layer).
       Value (snd (send_metadata d (EvMetadata md) (self\<lparr>co_layer := layer\<rparr>))))"

subsection \<open>Spans\<close>

definition is_id :: "(console_layer \<Rightarrow> callsites) \<Rightarrow> console \<Rightarrow> nat \<Rightarrow> bool outcome" where
  "is_id table self i =
     (case co_spans self i of None \<Rightarrow> Value False | Some sp \<Rightarrow> known_callsite (table (co_layer self)) (sp_metadata sp))"

text \<open>The span entered last that has the property.\<close>

fun find_entered :: "(nat \<Rightarrow> bool outcome) \<Rightarrow> context_id list \<Rightarrow> nat option outcome" where
  "find_entered p [] = Value None"
| "find_entered p (c # cs) = bind_outcome (p (cx_id c)) (\<lambda>b. if b then Value (Some (cx_id c)) else find_entered p cs)"

definition first_entered :: "console \<Rightarrow> nat \<Rightarrow> (nat \<Rightarrow> bool outcome) \<Rightarrow> nat option outcome" where
  "first_entered self thread p =
     (case cl_current_spans (co_layer self) thread of None \<Rightarrow> Value None | Some stack \<Rightarrow> find_entered p (rev stack))"

text \<open>Attaching statistics to a span that is missing, or has them already, panics.\<close>

definition attach_task :: "nat \<Rightarrow> nat option \<Rightarrow> console \<Rightarrow> console outcome" where
  "attach_task i stats self =
     (case stats of None \<Rightarrow> Value self | Some r \<Rightarrow>
      (case co_spans self i of None \<Rightarrow> Panic | Some sp \<Rightarrow>
        if sp_task sp = None then Value (self\<lparr>co_spans := (co_spans self)(i \<mapsto> sp\<lparr>sp_task := Some r\<rparr>)\<rparr>) else Panic))"

definition attach_resource :: "nat \<Rightarrow> nat option \<Rightarrow> console \<Rightarrow> console outcome" where
  "attach_resource i stats self =
     (case stats of None \<Rightarrow> Value self | Some r \<Rightarrow>
      (case co_spans self i of None \<Rightarrow> Panic | Some sp \<Rightarrow>
        if sp_resource sp = None then Value (self\<lparr>co_spans := (co_spans self)(i \<mapsto> sp\<lparr>sp_resource := Some r\<rparr>)\<rparr>) else Panic))"

definition attach_async_op :: "nat \<Rightarrow> nat option \<Rightarrow> console \<Rightarrow> console outcome" where
  "attach_async_op i stats self =
     (case stats of None \<Rightarrow> Value self | Some r \<Rightarrow>
      (case co_spans self i of None \<Rightarrow> Panic | Some sp \<Rightarrow>
        if sp_async_op sp = None then Value (self\<lparr>co_spans := (co_spans self)(i \<mapsto> sp\<lparr>sp_async_op := Some r\<rparr>)\<rparr>) else Panic))"

text \<open>The closures that make the event when there is room for it; the statistics are new.\<close>

definition mk_spawn :: "nat \<Rightarrow> metadata \<Rightarrow> field list \<Rightarrow> location option \<Rightarrow> nat \<Rightarrow> console \<Rightarrow> event \<times> nat \<times> console" where
  "mk_spawn i md fs location at c =
     (let r = length (co_task_stats c) in
      (EvSpawn i md r fs location, r,
       c\<lparr>co_task_stats := co_task_stats c @ [task_stats_new (cl_max_poll_duration_nanos (co_layer c)) at]\<rparr>))"

definition mk_resource ::
  "nat \<Rightarrow> nat option \<Rightarrow> metadata \<Rightarrow> resource_visitor_result \<Rightarrow> nat \<Rightarrow> console \<Rightarrow> event \<times> nat \<times> console" where
  "mk_resource i parent_id md res at c =
     (let r = length (co_resource_stats c) in
      (EvResource i parent_id md (rr_concrete_type res) (rr_kind res) (rr_location res) (rr_is_internal res) r, r,
       c\<lparr>co_resource_stats := co_resource_stats c @ [resource_stats_new at (rr_inherit_child_attrs res) parent_id]\<rparr>))"

definition mk_async_op ::
  "nat \<Rightarrow> nat option \<Rightarrow> nat \<Rightarrow> metadata \<Rightarrow> string \<Rightarrow> bool \<Rightarrow> nat \<Rightarrow> console \<Rightarrow> event \<times> nat \<times> console" where
  "mk_async_op i parent_id resource_id md source inherit at c =
     (let r = length (co_async_op_stats c) in
      (EvAsyncResourceOp i parent_id resource_id md source r, r,
       c\<lparr>co_async_op_stats := co_async_op_stats c @ [async_op_stats_new at inherit parent_id]\<rparr>))"

definition new_task :: "nat \<Rightarrow> metadata \<Rightarrow> fields \<Rightarrow> nat \<Rightarrow> console \<Rightarrow> console outcome" where
  "new_task i md fs at self =
     (let (flds, location) = task_result (foldl task_record (task_visitor_new (md_callsite md)) fs);
          (stats, self') = send_stats DroppedTasks (mk_spawn i md flds location at) self in
      attach_task i stats self')"

definition new_resource :: "nat \<Rightarrow> nat \<Rightarrow> metadata \<Rightarrow> fields \<Rightarrow> nat \<Rightarrow> console \<Rightarrow> console outcome" where
  "new_resource thread i md fs at self =
     (case resource_result (foldl resource_record resource_visitor_default fs) of
        None \<Rightarrow> Value self
      | Some res \<Rightarrow>
          bind_outcome (first_entered self thread (is_id cl_resource self)) (\<lambda>parent_id.
            let (stats, self') = send_stats DroppedResources (mk_resource i parent_id md res at) self in
            attach_resource i stats self'))"

definition new_async_op :: "nat \<Rightarrow> nat \<Rightarrow> metadata \<Rightarrow> fields \<Rightarrow> nat \<Rightarrow> console \<Rightarrow> console outcome" where
  "new_async_op thread i md fs at self =
     (case async_op_result (foldl async_op_record async_op_visitor_default fs) of
        None \<Rightarrow> Value self
      | Some (source, inherit) \<Rightarrow>
          bind_outcome (first_entered self thread (is_id cl_resource self)) (\<lambda>resource_id.
          bind_outcome (first_entered self thread (is_id cl_async_op self)) (\<lambda>parent_id.
            case resource_id of
              None \<Rightarrow> Value self
            | Some rid \<Rightarrow>
                let (stats, self') = send_stats DroppedAsyncOps (mk_async_op i parent_id rid md source inherit at) self in
                attach_async_op i stats self')))"

definition on_new_span :: "nat \<Rightarrow> nat \<Rightarrow> metadata \<Rightarrow> fields \<Rightarrow> nat \<Rightarrow> console \<Rightarrow> console outcome" where
  "on_new_span thread i md fs at self =
     bind_outcome (known_callsite (cl_spawn (co_layer self)) md) (\<lambda>spawn.
     if spawn then new_task i md fs at self else
     bind_outcome (known_callsite (cl_resource (co_layer self)) md) (\<lambda>resource.
     if resource then new_resource thread i md fs at self else
     bind_outcome (known_callsite (cl_async_op (co_layer self)) md) (\<lambda>async_op.
     if async_op then new_async_op thread i md fs at self else Value self)))"

subsection \<open>Wakers, polls and the end\<close>

definition record_waker :: "nat \<Rightarrow> nat \<Rightarrow> wake_op \<Rightarrow> nat \<Rightarrow> console \<Rightarrow> console" where
  "record_waker thread i oper at self =
     (case co_spans self i of None \<Rightarrow> self | Some sp \<Rightarrow>
      (case sp_task sp of None \<Rightarrow> self | Some r \<Rightarrow>
        let oper' = (if is_wake oper
              then self_wake oper (case cl_current_spans (co_layer self) thread of
                     None \<Rightarrow> False | Some stack \<Rightarrow> i \<in> set (stack_iter stack))
              else oper) in
        self\<lparr>co_task_stats := (co_task_stats self)[r := record_wake_op (co_task_stats self ! r) oper' at]\<rparr>))"

definition on_event :: "nat \<Rightarrow> metadata \<Rightarrow> fields \<Rightarrow> nat \<Rightarrow> console \<Rightarrow> console outcome" where
  "on_event thread md fs at self =
     bind_outcome (known_callsite (cl_waker (co_layer self)) md) (\<lambda>waker.
     if waker then
       bind_outcome (waker_record_all waker_visitor_default fs) (\<lambda>visitor.
         case waker_result visitor of
           None \<Rightarrow> Value self
         | Some (i, oper) \<Rightarrow> Value (record_waker thread i oper at self))
     else bind_outcome (known_callsite (cl_poll_op (co_layer self)) md) (\<lambda>poll. Value self))"

text \<open>Entering and leaving a span changes the statistics of the span and of its parent alike.\<close>

definition poll_update ::
  "(task_stats \<Rightarrow> nat \<Rightarrow> task_stats) \<Rightarrow> (async_op_stats \<Rightarrow> nat \<Rightarrow> async_op_stats) \<Rightarrow> span_data \<Rightarrow> nat \<Rightarrow> console \<Rightarrow> bool \<times> console" where
  "poll_update ft fa sp at self =
     (case sp_task sp of
        Some r \<Rightarrow> (True, self\<lparr>co_task_stats := (co_task_stats self)[r := ft (co_task_stats self ! r) at]\<rparr>)
      | None \<Rightarrow>
          (case sp_async_op sp of
             Some r \<Rightarrow> (True, self\<lparr>co_async_op_stats := (co_async_op_stats self)[r := fa (co_async_op_stats self ! r) at]\<rparr>)
           | None \<Rightarrow> (sp_resource sp \<noteq> None, self)))"

definition parent_update ::
  "(span_data \<Rightarrow> nat \<Rightarrow> console \<Rightarrow> bool \<times> console) \<Rightarrow> span_data \<Rightarrow> nat \<Rightarrow> console \<Rightarrow> console" where
  "parent_update upd sp at self =
     (case sp_parent sp of None \<Rightarrow> self | Some pid \<Rightarrow>
      (case co_spans self pid of None \<Rightarrow> self | Some parent \<Rightarrow> snd (upd parent at self)))"

definition current_stack :: "nat \<Rightarrow> console \<Rightarrow> span_stack" where
  "current_stack thread self = (case cl_current_spans (co_layer self) thread of None \<Rightarrow> [] | Some stack \<Rightarrow> stack)"

definition set_stack :: "nat \<Rightarrow> span_stack \<Rightarrow> console \<Rightarrow> console" where
  "set_stack thread stack self =
     self\<lparr>co_layer := (co_layer self)\<lparr>cl_current_spans := (cl_current_spans (co_layer self))(thread \<mapsto> stack)\<rparr>\<rparr>"

definition on_enter :: "nat \<Rightarrow> nat \<Rightarrow> nat \<Rightarrow> console \<Rightarrow> console" where
  "on_enter thread i at self =
     (case co_spans self i of None \<Rightarrow> self | Some sp \<Rightarrow>
      let upd = poll_update task_start_poll async_op_start_poll; (tracked, self1) = upd sp at self in
      if tracked then
        let self2 = parent_update upd sp at self1 in
        set_stack thread (snd (stack_push (current_stack thread self2) i)) self2
      else self1)"

definition on_exit :: "nat \<Rightarrow> nat \<Rightarrow> nat \<Rightarrow> console \<Rightarrow> console" where
  "on_exit thread i at self =
     (case co_spans self i of None \<Rightarrow> self | Some sp \<Rightarrow>
      let upd = poll_update task_end_poll async_op_end_poll; (tracked, self1) = upd sp at self in
      if tracked then
        let self2 = parent_update upd sp at self1 in
        set_stack thread (snd (stack_pop (current_stack thread self2) i)) self2
      else self1)"

definition on_close :: "nat \<Rightarrow> nat \<Rightarrow> console \<Rightarrow> console" where
  "on_close i at self =
     (case co_spans self i of None \<Rightarrow> self | Some sp \<Rightarrow>
      (case sp_task sp of
        Some r \<Rightarrow> self\<lparr>co_task_stats := (co_task_stats self)[r := drop_task (co_task_stats self ! r) at]\<rparr>
      | None \<Rightarrow>
          (case sp_async_op sp of
             Some r \<Rightarrow> self\<lparr>co_async_op_stats := (co_async_op_stats self)[r := drop_async_op (co_async_op_stats self ! r) at]\<rparr>
           | None \<Rightarrow>
               (case sp_resource sp of
                  Some r \<Rightarrow> self\<lparr>co_resource_stats := (co_resource_stats self)[r := drop_resource (co_resource_stats self ! r) at]\<rparr>
                | None \<Rightarrow> self))))"

end
