(* ===== verification/Aggregate.thy ===== *)
theory Aggregate
  imports Console_Layer
begin

text \<open>
  \<open>runtime/console/src/aggregate.rs\<close> and \<open>server.rs\<close>: the task that collects the events of the
  layer and sends updates to the clients that watch, and the requests of the clients.  A
  stream to a client is the list of what was put into it and how much of it the client took.
  Of a message, fields that are constant are left out.
\<close>

subsection \<open>What is known of tasks, resources and operations\<close>

record task_rec =
  tk_id :: nat
  tk_is_dirty :: bool
  tk_metadata :: metadata
  tk_fields :: "field list"
  tk_location :: "location option"

record task_proto =
  tkp_id :: nat
  tkp_metadata :: metadata
  tkp_fields :: "field list"
  tkp_location :: "location option"

definition task_to_proto :: "task_rec \<Rightarrow> task_proto" where
  "task_to_proto self =
     \<lparr>tkp_id = tk_id self, tkp_metadata = tk_metadata self, tkp_fields = tk_fields self, tkp_location = tk_location self\<rparr>"

definition task_rec_take_unsent :: "task_rec \<Rightarrow> bool \<times> task_rec" where
  "task_rec_take_unsent self = (tk_is_dirty self, self\<lparr>tk_is_dirty := False\<rparr>)"

record resource_rec =
  re_id :: nat
  re_is_dirty :: bool
  re_parent_id :: "nat option"
  re_metadata :: metadata
  re_concrete_type :: string
  re_kind :: resource_kind
  re_location :: "location option"
  re_is_internal :: bool

record resource_proto =
  rep_id :: nat
  rep_parent_resource_id :: "nat option"
  rep_kind :: resource_kind
  rep_metadata :: metadata
  rep_concrete_type :: string
  rep_location :: "location option"
  rep_is_internal :: bool

definition resource_to_proto :: "resource_rec \<Rightarrow> resource_proto" where
  "resource_to_proto self =
     \<lparr>rep_id = re_id self, rep_parent_resource_id = re_parent_id self, rep_kind = re_kind self,
      rep_metadata = re_metadata self, rep_concrete_type = re_concrete_type self, rep_location = re_location self,
      rep_is_internal = re_is_internal self\<rparr>"

definition resource_rec_take_unsent :: "resource_rec \<Rightarrow> bool \<times> resource_rec" where
  "resource_rec_take_unsent self = (re_is_dirty self, self\<lparr>re_is_dirty := False\<rparr>)"

record async_op_rec =
  as_id :: nat
  as_is_dirty :: bool
  as_parent_id :: "nat option"
  as_resource_id :: nat
  as_metadata :: metadata
  as_source :: string

record async_op_proto =
  asp_id :: nat
  asp_metadata :: metadata
  asp_resource_id :: nat
  asp_source :: string
  asp_parent_async_op_id :: "nat option"

definition async_op_to_proto :: "async_op_rec \<Rightarrow> async_op_proto" where
  "async_op_to_proto self =
     \<lparr>asp_id = as_id self, asp_metadata = as_metadata self, asp_resource_id = as_resource_id self,
      asp_source = as_source self, asp_parent_async_op_id = as_parent_id self\<rparr>"

definition async_op_rec_take_unsent :: "async_op_rec \<Rightarrow> bool \<times> async_op_rec" where
  "async_op_rec_take_unsent self = (as_is_dirty self, self\<lparr>as_is_dirty := False\<rparr>)"

record poll_op =
  po_metadata :: metadata
  po_resource_id :: nat
  po_name :: string
  po_task_id :: nat
  po_async_op_id :: nat
  po_is_ready :: bool

subsection \<open>Updates and watches\<close>

record task_update_msg =
  tu_new_tasks :: "task_proto list"
  tu_stats_update :: "task_stats_proto id_map"
  tu_dropped_events :: nat

record resource_update_msg =
  ru_new_resources :: "resource_proto list"
  ru_stats_update :: "resource_stats_proto id_map"
  ru_new_poll_ops :: "poll_op list"
  ru_dropped_events :: nat

record async_op_update_msg =
  au_new_async_ops :: "async_op_proto list"
  au_stats_update :: "async_op_stats_proto id_map"
  au_dropped_events :: nat

record update =
  ud_task :: task_update_msg
  ud_resource :: resource_update_msg
  ud_async_op :: async_op_update_msg
  ud_now :: nat
  ud_new_metadata :: "metadata list option"

record task_details =
  td_task_id :: nat
  td_now :: nat
  td_histogram :: histogram_proto

record 'u watch =
  wt_sent :: "'u list"
  wt_taken :: nat
  wt_capacity :: nat
  wt_closed :: bool

definition watch_new :: "nat \<Rightarrow> 'u watch" where
  "watch_new cap = \<lparr>wt_sent = [], wt_taken = 0, wt_capacity = cap, wt_closed = False\<rparr>"

definition watch_update :: "'u \<Rightarrow> 'u watch \<Rightarrow> bool \<times> 'u watch" where
  "watch_update upd self =
     (if wt_closed self \<or> length (wt_sent self) - wt_taken self \<ge> wt_capacity self then (False, self)
      else (True, self\<lparr>wt_sent := wt_sent self @ [upd]\<rparr>))"

text \<open>\<open>retain\<close> with a send: the watches that take the update stay.\<close>

definition retain_watches :: "'u \<Rightarrow> 'u watch list \<Rightarrow> 'u watch list" where
  "retain_watches upd ws = map snd (filter fst (map (watch_update upd) ws))"

record aggregator =
  ag_watchers :: "update watch list"
  ag_details_watchers :: "task_details watch list id_map"
  ag_all_metadata :: "metadata list"
  ag_new_metadata :: "metadata list"
  ag_running :: bool
  ag_base_time :: time_anchor
  ag_tasks :: "task_rec id_map"
  ag_task_stats :: "nat id_map"
  ag_resources :: "resource_rec id_map"
  ag_resource_stats :: "nat id_map"
  ag_async_ops :: "async_op_rec id_map"
  ag_async_op_stats :: "nat id_map"
  ag_poll_ops :: "poll_op list"

definition aggregator_new :: "time_anchor \<Rightarrow> aggregator" where
  "aggregator_new base =
     \<lparr>ag_watchers = [], ag_details_watchers = [], ag_all_metadata = [], ag_new_metadata = [], ag_running = True,
      ag_base_time = base, ag_tasks = [], ag_task_stats = [], ag_resources = [], ag_resource_stats = [],
      ag_async_ops = [], ag_async_op_stats = [], ag_poll_ops = []\<rparr>"

definition task_update :: "include_mode \<Rightarrow> console \<times> aggregator \<Rightarrow> task_update_msg \<times> console \<times> aggregator" where
  "task_update inc s =
     (let (c, self) = s;
          (new_tasks, tasks) = as_proto_list task_rec_take_unsent task_to_proto (ag_tasks self) inc;
          (stats, heap) = as_proto task_take_unsent (task_stats_to_proto (ag_base_time self)) (co_task_stats c) (ag_task_stats self) inc in
      (\<lparr>tu_new_tasks = new_tasks, tu_stats_update = stats, tu_dropped_events = sh_dropped_tasks (co_shared c)\<rparr>,
       c\<lparr>co_task_stats := heap, co_shared := (co_shared c)\<lparr>sh_dropped_tasks := 0\<rparr>\<rparr>, self\<lparr>ag_tasks := tasks\<rparr>))"

definition resource_update :: "include_mode \<Rightarrow> console \<times> aggregator \<Rightarrow> resource_update_msg \<times> console \<times> aggregator" where
  "resource_update inc s =
     (let (c, self) = s;
          (poll_ops, left) = (case inc of IncludeAll \<Rightarrow> (ag_poll_ops self, ag_poll_ops self) | UpdatedOnly \<Rightarrow> (ag_poll_ops self, []));
          (new_resources, resources) = as_proto_list resource_rec_take_unsent resource_to_proto (ag_resources self) inc;
          (stats, heap) = as_proto resource_take_unsent (resource_stats_to_proto (ag_base_time self))
            (co_resource_stats c) (ag_resource_stats self) inc in
      (\<lparr>ru_new_resources = new_resources, ru_stats_update = stats, ru_new_poll_ops = poll_ops,
        ru_dropped_events = sh_dropped_resources (co_shared c)\<rparr>,
       c\<lparr>co_resource_stats := heap, co_shared := (co_shared c)\<lparr>sh_dropped_resources := 0\<rparr>\<rparr>,
       self\<lparr>ag_resources := resources, ag_poll_ops := left\<rparr>))"

definition async_op_update :: "include_mode \<Rightarrow> console \<times> aggregator \<Rightarrow> async_op_update_msg \<times> console \<times> aggregator" where
  "async_op_update inc s =
     (let (c, self) = s;
          (new_async_ops, async_ops) = as_proto_list async_op_rec_take_unsent async_op_to_proto (ag_async_ops self) inc;
          (stats, heap) = as_proto async_op_take_unsent (async_op_stats_to_proto (ag_base_time self))
            (co_async_op_stats c) (ag_async_op_stats self) inc in
      (\<lparr>au_new_async_ops = new_async_ops, au_stats_update = stats, au_dropped_events = sh_dropped_async_ops (co_shared c)\<rparr>,
       c\<lparr>co_async_op_stats := heap, co_shared := (co_shared c)\<lparr>sh_dropped_async_ops := 0\<rparr>\<rparr>,
       self\<lparr>ag_async_ops := async_ops\<rparr>))"

text \<open>The three parts of an update, in their order.\<close>

definition collect_update ::
  "include_mode \<Rightarrow> console \<times> aggregator \<Rightarrow> (task_update_msg \<times> resource_update_msg \<times> async_op_update_msg) \<times> console \<times> aggregator" where
  "collect_update inc s =
     (let (tu, s1) = task_update inc s; (ru, s2) = resource_update inc s1; (au, s3) = async_op_update inc s2 in
      ((tu, ru, au), s3))"

definition add_instrument_subscription ::
  "update watch \<Rightarrow> nat \<Rightarrow> console \<times> aggregator \<Rightarrow> console \<times> aggregator" where
  "add_instrument_subscription subscription now s =
     (let ((tu, ru, au), c, self) = collect_update IncludeAll s;
          upd = \<lparr>ud_task = tu, ud_resource = ru, ud_async_op = au, ud_now = to_timestamp (ag_base_time self) now,
                 ud_new_metadata = Some (ag_all_metadata self)\<rparr>;
          (alive, subscription') = watch_update upd subscription in
      (c, if alive then self\<lparr>ag_watchers := ag_watchers self @ [subscription']\<rparr> else self))"

text \<open>Whether the client still waits for its stream, and how histograms are written, are arguments.\<close>

definition task_details_of :: "(nat list \<Rightarrow> u8 list) \<Rightarrow> time_anchor \<Rightarrow> nat \<Rightarrow> nat \<Rightarrow> task_stats \<Rightarrow> task_details" where
  "task_details_of ser base i now stats =
     \<lparr>td_task_id = i, td_now = to_timestamp base now, td_histogram = poll_duration_histogram ser stats\<rparr>"

definition add_task_detail_subscription ::
  "(nat list \<Rightarrow> u8 list) \<Rightarrow> bool \<Rightarrow> nat \<Rightarrow> nat \<Rightarrow> nat \<Rightarrow> console \<times> aggregator \<Rightarrow> bool \<times> aggregator" where
  "add_task_detail_subscription ser waits i buffer now s =
     (let (c, self) = s in
      case id_get (ag_task_stats self) i of
        None \<Rightarrow> (False, self)
      | Some r \<Rightarrow>
          let (sent, subscription) =
            watch_update (task_details_of ser (ag_base_time self) i now (co_task_stats c ! r)) (watch_new buffer) in
          if waits \<and> sent
          then (True, self\<lparr>ag_details_watchers := id_insert (ag_details_watchers self) i
                 ((case id_get (ag_details_watchers self) i of None \<Rightarrow> [] | Some ws \<Rightarrow> ws) @ [subscription])\<rparr>)
          else (waits, self))"

fun retain_details ::
  "(nat list \<Rightarrow> u8 list) \<Rightarrow> time_anchor \<Rightarrow> nat \<Rightarrow> task_stats list \<Rightarrow> nat id_map \<Rightarrow> task_details watch list id_map
     \<Rightarrow> task_details watch list id_map" where
  "retain_details ser base now heap stats [] = []"
| "retain_details ser base now heap stats ((i, ws) # rest) =
     (let rest' = retain_details ser base now heap stats rest in
      case id_get stats i of
        None \<Rightarrow> rest'
      | Some r \<Rightarrow>
          let ws' = retain_watches (task_details_of ser base i now (heap ! r)) ws in
          if ws' \<noteq> [] then (i, ws') # rest' else rest')"

definition publish :: "(nat list \<Rightarrow> u8 list) \<Rightarrow> nat \<Rightarrow> console \<times> aggregator \<Rightarrow> console \<times> aggregator" where
  "publish ser now s =
     (let (c0, self0) = s;
          new_metadata = (if ag_new_metadata self0 \<noteq> [] then Some (ag_new_metadata self0) else None);
          ((tu, ru, au), c, self) = collect_update UpdatedOnly (c0, self0\<lparr>ag_new_metadata := []\<rparr>);
          upd = \<lparr>ud_task = tu, ud_resource = ru, ud_async_op = au, ud_now = to_timestamp (ag_base_time self) now,
                 ud_new_metadata = new_metadata\<rparr> in
      (c, self\<lparr>ag_watchers := retain_watches upd (ag_watchers self),
               ag_details_watchers := retain_details ser (ag_base_time self) now (co_task_stats c) (ag_task_stats self)
                 (ag_details_watchers self)\<rparr>))"

fun update_state :: "event \<Rightarrow> aggregator \<Rightarrow> aggregator" where
  "update_state (EvMetadata md) self =
     self\<lparr>ag_all_metadata := ag_all_metadata self @ [md], ag_new_metadata := ag_new_metadata self @ [md]\<rparr>"
| "update_state (EvSpawn i md r fs location) self =
     self\<lparr>ag_tasks := id_insert (ag_tasks self) i
            \<lparr>tk_id = i, tk_is_dirty = True, tk_metadata = md, tk_fields = fs, tk_location = location\<rparr>,
          ag_task_stats := id_insert (ag_task_stats self) i r\<rparr>"
| "update_state (EvResource i parent md concrete_type kind location is_internal r) self =
     self\<lparr>ag_resources := id_insert (ag_resources self) i
            \<lparr>re_id = i, re_is_dirty = True, re_parent_id = parent, re_metadata = md, re_concrete_type = concrete_type,
             re_kind = kind, re_location = location, re_is_internal = is_internal\<rparr>,
          ag_resource_stats := id_insert (ag_resource_stats self) i r\<rparr>"
| "update_state (EvPollOp md resource_id name async_op_id task_id is_ready) self =
     self\<lparr>ag_poll_ops := ag_poll_ops self @
       [\<lparr>po_metadata = md, po_resource_id = resource_id, po_name = name, po_task_id = task_id,
         po_async_op_id = async_op_id, po_is_ready = is_ready\<rparr>]\<rparr>"
| "update_state (EvAsyncResourceOp i parent resource_id md source r) self =
     self\<lparr>ag_async_ops := id_insert (ag_async_ops self) i
            \<lparr>as_id = i, as_is_dirty = True, as_parent_id = parent, as_resource_id = resource_id, as_metadata = md,
             as_source = source\<rparr>,
          ag_async_op_stats := id_insert (ag_async_op_stats self) i r\<rparr>"

subsection \<open>The loop\<close>

datatype command = Instrument "update watch" | WatchTaskDetail nat nat | Pause | Resume

text \<open>What ends the waiting: the timer, a command, or the end of the commands.\<close>

datatype wakeup = Tick | Command command | CommandsClosed

text \<open>The first result is the stream that goes back to a client that waits for one; dropping a request sends none.\<close>

definition run_command ::
  "command \<Rightarrow> nat \<Rightarrow> console \<times> aggregator \<Rightarrow> task_details watch option \<times> console \<times> aggregator" where
  "run_command cmd now s =
     (case cmd of
        Instrument subscription \<Rightarrow> (None, add_instrument_subscription subscription now s)
      | WatchTaskDetail i buffer \<Rightarrow> (None, s)
      | Pause \<Rightarrow> (None, fst s, (snd s)\<lparr>ag_running := False\<rparr>)
      | Resume \<Rightarrow> (None, fst s, (snd s)\<lparr>ag_running := True\<rparr>))"

definition drain_events :: "console \<times> aggregator \<Rightarrow> console \<times> aggregator" where
  "drain_events s = ((fst s)\<lparr>co_events := []\<rparr>, foldl (\<lambda>a ev. update_state ev a) (snd s) (co_events (fst s)))"

text \<open>One round; the flag says whether the task goes on.  \<open>layer\<close> says whether the sending side still exists.\<close>

definition aggregate_round ::
  "(nat list \<Rightarrow> u8 list) \<Rightarrow> bool \<Rightarrow> wakeup \<Rightarrow> nat \<Rightarrow> console \<times> aggregator \<Rightarrow> bool \<times> console \<times> aggregator" where
  "aggregate_round ser layer wake now s =
     (case wake of
        CommandsClosed \<Rightarrow> (False, s)
      | _ \<Rightarrow>
          let (should_send, s1) = (case wake of Command cmd \<Rightarrow> (False, snd (run_command cmd now s)) | _ \<Rightarrow> (ag_running (snd s), s));
              s2 = drain_events s1 in
          if \<not> layer then (False, s2)
          else (True, if ag_watchers (snd s2) \<noteq> [] \<and> should_send then publish ser now s2 else s2))"

subsection \<open>Requests of clients\<close>

datatype rpc_status = InvalidArgument | NotFound | Internal

record console_server =
  sv_client_buffer_size :: nat
  sv_commands :: "command list"
  sv_capacity :: nat
  sv_closed :: bool

definition server_new :: "builder \<Rightarrow> console_server" where
  "server_new config =
     \<lparr>sv_client_buffer_size = bd_client_buffer_capacity config, sv_commands = [],
      sv_capacity = bd_client_buffer_capacity config, sv_closed = False\<rparr>"

text \<open>Sending waits for room; a closed channel refuses.\<close>

definition send_command :: "command \<Rightarrow> console_server \<Rightarrow> bool \<times> console_server" where
  "send_command cmd self =
     (if sv_closed self then (False, self) else (True, self\<lparr>sv_commands := sv_commands self @ [cmd]\<rparr>))"

definition watch_updates :: "console_server \<Rightarrow> (rpc_status + update watch) \<times> console_server" where
  "watch_updates self =
     (if length (sv_commands self) < sv_capacity self then
        let rx = watch_new (sv_client_buffer_size self) in (Inr rx, snd (send_command (Instrument rx) self))
      else (Inl Internal, self))"

definition watch_task_details_request :: "u64 option \<Rightarrow> console_server \<Rightarrow> (rpc_status + nat) \<times> console_server" where
  "watch_task_details_request task_id self =
     (case task_id of
        None \<Rightarrow> (Inl InvalidArgument, self)
      | Some v \<Rightarrow>
          if v = 0 then (Inl InvalidArgument, self)
          else if length (sv_commands self) < sv_capacity self
          then (Inr (unat v), snd (send_command (WatchTaskDetail (unat v) (sv_client_buffer_size self)) self))
          else (Inl Internal, self))"

text \<open>The stream that the aggregator sends back, if it does not drop the request.\<close>

definition watch_task_details_reply :: "'rx option \<Rightarrow> rpc_status + 'rx" where
  "watch_task_details_reply answer = (case answer of Some rx \<Rightarrow> Inr rx | None \<Rightarrow> Inl NotFound)"

definition pause :: "console_server \<Rightarrow> (rpc_status + unit) \<times> console_server" where
  "pause self = (let (sent, self') = send_command Pause self in (if sent then Inr () else Inl Internal, self'))"

definition resume :: "console_server \<Rightarrow> (rpc_status + unit) \<times> console_server" where
  "resume self = (let (sent, self') = send_command Resume self in (if sent then Inr () else Inl Internal, self'))"

interpretation task_rc: unsent task_rec_take_unsent tk_is_dirty task_to_proto
  by unfold_locales (simp_all add: task_rec_take_unsent_def task_to_proto_def)

interpretation resource_rc: unsent resource_rec_take_unsent re_is_dirty resource_to_proto
  by unfold_locales (simp_all add: resource_rec_take_unsent_def resource_to_proto_def)

interpretation async_op_rc: unsent async_op_rec_take_unsent as_is_dirty async_op_to_proto
  by unfold_locales (simp_all add: async_op_rec_take_unsent_def async_op_to_proto_def)

end
