(* ===== verification/Console_Correct.thy ===== *)
theory Console_Correct
  imports Aggregate
begin

text \<open>
  The console as a whole: the layer, the aggregator and the server, driven by threads, by time
  and by clients.  \<open>shares_ok\<close> ties a map of shared statistics to the events on their way
  and to what the clients were sent; its laws are proved once for the interface \<open>unsent\<close> and
  used for tasks, resources and operations.
\<close>

subsection \<open>The system\<close>

record console_system =
  cs_console :: console
  cs_agg :: aggregator
  cs_server :: console_server

definition system_new :: "builder \<Rightarrow> time_anchor \<Rightarrow> console_system" where
  "system_new config base =
     \<lparr>cs_console = console_build config, cs_agg = aggregator_new base, cs_server = server_new config\<rparr>"

datatype console_step =
    CRegister metadata
  | CNewSpan nat nat metadata "nat option" fields nat
  | CEvent nat metadata fields nat
  | CEnter nat nat nat
  | CExit nat nat nat
  | CClose nat nat
  | CWatch
  | CDetails "u64 option"
  | CPause
  | CResume
  | CTick nat
  | CCommand nat
  | CTakes nat
  | CLeaves nat

definition in_console :: "console_system \<Rightarrow> console outcome \<Rightarrow> console_system outcome" where
  "in_console s m = bind_outcome m (\<lambda>c. Value (s\<lparr>cs_console := c\<rparr>))"

text \<open>A round of the aggregator; when it ends its receivers are gone.\<close>

definition round_of :: "(nat list \<Rightarrow> u8 list) \<Rightarrow> wakeup \<Rightarrow> nat \<Rightarrow> console_system \<Rightarrow> console_system" where
  "round_of ser wake now s =
     (if co_connected (cs_console s) then
        let (go_on, c, a) = aggregate_round ser True wake now (cs_console s, cs_agg s) in
        if go_on then s\<lparr>cs_console := c, cs_agg := a\<rparr>
        else s\<lparr>cs_console := c\<lparr>co_connected := False, co_events := []\<rparr>, cs_agg := a,
               cs_server := (cs_server s)\<lparr>sv_closed := True, sv_commands := []\<rparr>\<rparr>
      else s)"

definition change_watch :: "nat \<Rightarrow> (update watch \<Rightarrow> update watch) \<Rightarrow> console_system \<Rightarrow> console_system" where
  "change_watch k f s =
     s\<lparr>cs_agg := (cs_agg s)\<lparr>ag_watchers := (ag_watchers (cs_agg s))[k := f (ag_watchers (cs_agg s) ! k)]\<rparr>\<rparr>"

text \<open>The registry of spans gives every span an identifier that is not in use.\<close>

fun console_do :: "(nat list \<Rightarrow> u8 list) \<Rightarrow> console_step \<Rightarrow> console_system \<Rightarrow> console_system outcome" where
  "console_do ser (CRegister md) s = in_console s (register_callsite (cs_console s) md)"
| "console_do ser (CNewSpan thread i md parent fs at) s =
     (if co_spans (cs_console s) i \<noteq> None then Value s
      else in_console s (on_new_span thread i md fs at ((cs_console s)\<lparr>co_spans := (co_spans (cs_console s))(i \<mapsto>
             \<lparr>sp_metadata = md, sp_parent = parent, sp_task = None, sp_async_op = None, sp_resource = None\<rparr>)\<rparr>)))"
| "console_do ser (CEvent thread md fs at) s = in_console s (on_event thread md fs at (cs_console s))"
| "console_do ser (CEnter thread i at) s = in_console s (Value (on_enter thread i at (cs_console s)))"
| "console_do ser (CExit thread i at) s = in_console s (Value (on_exit thread i at (cs_console s)))"
| "console_do ser (CClose i at) s =
     in_console s (Value (let c = on_close i at (cs_console s) in c\<lparr>co_spans := (co_spans c)(i := None)\<rparr>))"
| "console_do ser CWatch s = Value (s\<lparr>cs_server := snd (watch_updates (cs_server s))\<rparr>)"
| "console_do ser (CDetails task_id) s = Value (s\<lparr>cs_server := snd (watch_task_details_request task_id (cs_server s))\<rparr>)"
| "console_do ser CPause s = Value (s\<lparr>cs_server := snd (pause (cs_server s))\<rparr>)"
| "console_do ser CResume s = Value (s\<lparr>cs_server := snd (resume (cs_server s))\<rparr>)"
| "console_do ser (CTick now) s = Value (round_of ser Tick now s)"
| "console_do ser (CCommand now) s =
     Value (case sv_commands (cs_server s) of
        [] \<Rightarrow> s
      | cmd # cmds \<Rightarrow> round_of ser (Command cmd) now (s\<lparr>cs_server := (cs_server s)\<lparr>sv_commands := cmds\<rparr>\<rparr>))"
| "console_do ser (CTakes k) s = Value (change_watch k (\<lambda>w. w\<lparr>wt_taken := min (wt_taken w + 1) (length (wt_sent w))\<rparr>) s)"
| "console_do ser (CLeaves k) s = Value (change_watch k (\<lambda>w. w\<lparr>wt_closed := True\<rparr>) s)"

fun console_run :: "(nat list \<Rightarrow> u8 list) \<Rightarrow> console_step list \<Rightarrow> console_system \<Rightarrow> console_system outcome" where
  "console_run ser [] s = Value s"
| "console_run ser (x # xs) s = bind_outcome (console_do ser x s) (console_run ser xs)"

subsection \<open>Shared statistics\<close>

text \<open>
  \<open>heap\<close> is the store, \<open>m\<close> the map of the aggregator, \<open>q\<close> what is on its way to it, \<open>views\<close> what
  each client has learnt.  References are valid and distinct, what is on its way was never sent,
  and what a client knows is current unless it will be sent again.
\<close>

definition refs_ok :: "'s list \<Rightarrow> nat id_map \<Rightarrow> nat id_map \<Rightarrow> bool" where
  "refs_ok heap m q \<longleftrightarrow>
     distinct (map fst m) \<and> distinct (map snd (m @ q)) \<and> (\<forall>r\<in>snd ` set (m @ q). r < length heap)"

definition view_ok :: "('s \<Rightarrow> bool) \<Rightarrow> ('s \<Rightarrow> 'p) \<Rightarrow> 's list \<Rightarrow> nat id_map \<Rightarrow> (nat \<rightharpoonup> 'p) \<Rightarrow> bool" where
  "view_ok uns pr heap m v \<longleftrightarrow>
     dom v \<subseteq> fst ` set m \<and> (\<forall>i r. (i, r) \<in> set m \<longrightarrow> uns (heap ! r) \<or> v i = Some (pr (heap ! r)))"

definition shares_ok ::
  "('s \<Rightarrow> bool) \<Rightarrow> ('s \<Rightarrow> 'p) \<Rightarrow> 's list \<Rightarrow> nat id_map \<Rightarrow> nat id_map \<Rightarrow> (nat \<rightharpoonup> 'p) set \<Rightarrow> bool" where
  "shares_ok uns pr heap m q views \<longleftrightarrow>
     refs_ok heap m q \<and> (\<forall>r\<in>snd ` set q. uns (heap ! r)) \<and> (\<forall>v\<in>views. view_ok uns pr heap m v)"

lemma shares_ok_subset: "\<lbrakk>shares_ok uns pr heap m q views; views' \<subseteq> views\<rbrakk> \<Longrightarrow> shares_ok uns pr heap m q views'"
  unfolding shares_ok_def by blast

lemma shares_ok_forget: "shares_ok uns pr heap m q views \<Longrightarrow> shares_ok uns pr heap m [] views"
  by (simp add: shares_ok_def refs_ok_def)

lemma refs_okD:
  assumes "refs_ok heap m q"
  shows "(i, r) \<in> set m \<Longrightarrow> r < length heap" "(i, r) \<in> set q \<Longrightarrow> r < length heap" "r \<in> snd ` set q \<Longrightarrow> r < length heap"
  using assms by (force simp: refs_ok_def)+

lemma shares_ok_cong:
  assumes "shares_ok uns pr heap m q views" "refs_ok heap' m q'" "\<forall>r\<in>snd ` set q'. uns (heap' ! r)"
    and "\<And>i r. (i, r) \<in> set m \<Longrightarrow> heap' ! r = heap ! r \<or> uns (heap' ! r)"
  shows "shares_ok uns pr heap' m q' views"
  using assms unfolding shares_ok_def view_ok_def by metis

lemma shares_ok_new:
  assumes "shares_ok uns pr heap m q views"
  shows "shares_ok uns pr (heap @ [s]) m q views"
    and "uns s \<Longrightarrow> shares_ok uns pr (heap @ [s]) m (q @ [(i, length heap)]) views"
proof -
  have ok: "refs_ok heap m q" "\<forall>r\<in>snd ` set q. uns (heap ! r)" using assms by (simp_all add: shares_ok_def)
  note lt = refs_okD [OF ok(1)]
  have r1: "refs_ok (heap @ [s]) m q" using ok(1) by (auto simp: refs_ok_def less_Suc_eq)
  have "length heap \<notin> snd ` set (m @ q)" using ok(1) unfolding refs_ok_def by blast
  then have r2: "refs_ok (heap @ [s]) m (q @ [(i, length heap)])" using ok(1) by (auto simp: refs_ok_def less_Suc_eq)
  have q: "\<forall>r\<in>snd ` set q. uns ((heap @ [s]) ! r)" using ok(2) lt(3) by (simp add: nth_append)
  have m: "(heap @ [s]) ! r = heap ! r" if "(j, r) \<in> set m" for j r using lt(1) [OF that] by (simp add: nth_append)
  show "shares_ok uns pr (heap @ [s]) m q views" using assms r1 q by (rule shares_ok_cong) (simp add: m)
  assume "uns s"
  then have q2: "\<forall>r\<in>snd ` set (q @ [(i, length heap)]). uns ((heap @ [s]) ! r)" using q by simp
  show "shares_ok uns pr (heap @ [s]) m (q @ [(i, length heap)]) views" using assms r2 q2 by (rule shares_ok_cong) (simp add: m)
qed

lemma shares_ok_change:
  assumes "shares_ok uns pr heap m q views" "uns s \<or> s = heap ! r"
  shows "shares_ok uns pr (heap[r := s]) m q views"
proof (cases "r < length heap")
  case True
  have *: "heap[r := s] ! j = (if j = r then s else heap ! j)" for j using True by (simp add: nth_list_update)
  have "refs_ok (heap[r := s]) m q" "\<forall>r'\<in>snd ` set q. uns (heap[r := s] ! r')"
    using assms by (auto simp: shares_ok_def refs_ok_def *)
  then show ?thesis by (rule shares_ok_cong [OF assms(1)]) (use assms(2) in \<open>auto simp: *\<close>)
qed (use assms in \<open>simp add: list_update_beyond\<close>)

lemma snd_update: "snd ` set (AList.update i r m) \<subseteq> insert r (snd ` set m)"
  by (induction m) auto

lemma distinct_snd_update:
  "\<lbrakk>distinct (map snd m); r \<notin> snd ` set m\<rbrakk> \<Longrightarrow> distinct (map snd (AList.update i r m))"
proof (induction m)
  case (Cons x m)
  then show ?case using snd_update [of i r m] by (cases x) auto
qed simp

text \<open>An event arrives.\<close>

lemma shares_ok_insert:
  assumes "shares_ok uns pr heap m ((i, r) # q) views"
  shows "shares_ok uns pr heap (id_insert m i r) q views"
proof -
  have ok: "refs_ok heap m ((i, r) # q)" "uns (heap ! r)" using assms by (simp_all add: shares_ok_def)
  have d: "distinct (map fst m)" "distinct (map snd m)" "r \<notin> snd ` set m" "distinct (map snd q)" "r \<notin> snd ` set q"
    "snd ` set m \<inter> snd ` set q = {}" using ok(1) by (auto simp: refs_ok_def)
  have snds: "snd ` set (id_insert m i r) \<subseteq> insert r (snd ` set m)" unfolding id_insert_def by (rule snd_update)
  have "snd ` set (id_insert m i r) \<inter> snd ` set q = {}" using snds d(5,6) by blast
  then have "distinct (map snd (id_insert m i r @ q))"
    using distinct_snd_update [OF d(2,3), of i] d(4) unfolding id_insert_def by simp
  moreover have "snd ` set (id_insert m i r @ q) \<subseteq> snd ` set (m @ (i, r) # q)" using snds by auto
  then have "\<forall>r'\<in>snd ` set (id_insert m i r @ q). r' < length heap" using ok(1) unfolding refs_ok_def by blast
  ultimately have refs: "refs_ok heap (id_insert m i r) q" using id_insert_distinct [OF d(1)] by (simp add: refs_ok_def)
  have fsts: "fst ` set m \<subseteq> fst ` set (id_insert m i r)"
    unfolding id_insert_def by (induction m) auto
  have "view_ok uns pr heap (id_insert m i r) v" if "v \<in> views" for v
  proof -
    have "view_ok uns pr heap m v" using assms that by (simp add: shares_ok_def)
    then show ?thesis using fsts ok(2) id_insert_set [of m i r] unfolding view_ok_def by blast
  qed
  then show ?thesis using refs assms by (simp add: shares_ok_def)
qed

context unsent
begin

lemma arc_untouched: "r \<notin> snd ` set m \<Longrightarrow> snd (since_last_update_arc take_uns heap m) ! r = heap ! r"
proof (induction m arbitrary: heap)
  case (Cons x m)
  then show ?case by (cases x) (simp add: split_beta)
qed simp

lemma arc_cleared:
  "\<lbrakk>distinct (map snd m); \<forall>r\<in>snd ` set m. r < length heap; r \<in> snd ` set m\<rbrakk>
     \<Longrightarrow> \<not> is_uns (snd (since_last_update_arc take_uns heap m) ! r)"
proof (induction m arbitrary: heap)
  case (Cons x m)
  obtain i j where x: "x = (i, j)" by (cases x)
  let ?h = "heap[j := snd (take_uns (heap ! j))]"
  show ?case
  proof (cases "r = j")
    case True
    then have "snd (since_last_update_arc take_uns ?h m) ! r = ?h ! r" using Cons.prems x by (intro arc_untouched) auto
    then show ?thesis using True x Cons.prems by (simp add: split_beta take_clears)
  next
    case False
    then show ?thesis using Cons.IH [of ?h] Cons.prems x by (simp add: split_beta)
  qed
qed simp

text \<open>An update makes the picture of every client current.\<close>

lemma view_published:
  assumes "shares_ok is_uns to_pr heap m q views" "as_proto take_uns to_pr heap m UpdatedOnly = (ps, heap')" "v \<in> views"
  shows "(v ++ map_of ps) i = map_option (\<lambda>r. to_pr (heap' ! r)) (map_of m i)"
proof -
  have ok: "refs_ok heap m q" "view_ok is_uns to_pr heap m v" using assms by (simp_all add: shares_ok_def)
  have d: "distinct (map fst m)" "distinct (map snd m)" using ok(1) by (simp_all add: refs_ok_def)
  have same: "to_pr (heap' ! r) = to_pr (heap ! r)" for r using as_proto_heap(2) [of heap m UpdatedOnly r] assms(2) by simp
  let ?ps = "map (\<lambda>(i, r). (i, to_pr (heap ! r))) (filter (\<lambda>(i, r). is_uns (heap ! r)) m)"
  have ps: "ps = ?ps" using as_proto_updated [OF d(2), of heap] assms(2) by simp
  have "distinct (map fst ?ps)" using d(1) by (simp add: case_prod_unfold comp_def distinct_map inj_on_def)
  then have mem: "map_of ps i = Some p \<longleftrightarrow> (i, p) \<in> set ?ps" for p using ps by (metis map_of_eq_Some_iff)
  show ?thesis
  proof (cases "map_of m i")
    case None
    then have "i \<notin> fst ` set m" by (simp add: map_of_eq_None_iff)
    then have "v i = None" using ok(2) unfolding view_ok_def by blast
    moreover have "map_of ps i = None" using \<open>i \<notin> fst ` set m\<close> unfolding ps map_of_eq_None_iff by force
    ultimately show ?thesis using None by simp
  next
    case (Some r)
    then have r: "(i, r) \<in> set m" by (rule map_of_SomeD)
    then have one: "(i, r') \<in> set m \<longleftrightarrow> r' = r" for r' using d(1) Some by (metis map_of_is_SomeI option.inject)
    show ?thesis
    proof (cases "is_uns (heap ! r)")
      case True
      then have "map_of ps i = Some (to_pr (heap ! r))" using r by (simp only: mem) force
      then show ?thesis using Some same by (simp add: map_add_Some_iff)
    next
      case False
      then have "i \<notin> fst ` set ps" using one unfolding ps by auto
      then have "map_of ps i = None" by (simp add: map_of_eq_None_iff)
      moreover have "v i = Some (to_pr (heap ! r))" using ok(2) r False by (auto simp: view_ok_def)
      ultimately show ?thesis using Some same by (simp add: map_add_def)
    qed
  qed
qed

lemma published_refs:
  assumes "shares_ok is_uns to_pr heap m q views" "as_proto take_uns to_pr heap m UpdatedOnly = (ps, heap')"
  shows "refs_ok heap' m q" "r \<in> snd ` set q \<Longrightarrow> is_uns (heap' ! r)" "r \<in> snd ` set m \<Longrightarrow> \<not> is_uns (heap' ! r)"
proof -
  have ok: "refs_ok heap m q" "\<forall>r\<in>snd ` set q. is_uns (heap ! r)" using assms(1) by (simp_all add: shares_ok_def)
  have h: "heap' = snd (since_last_update_arc take_uns heap m)" using assms(2) by (simp add: as_proto_def split_beta)
  have "length heap' = length heap" using as_proto_heap(1) [of heap m UpdatedOnly] assms(2) by simp
  then show "refs_ok heap' m q" using ok(1) by (simp add: refs_ok_def)
  show "r \<in> snd ` set q \<Longrightarrow> is_uns (heap' ! r)"
  proof -
    assume r: "r \<in> snd ` set q"
    have "snd ` set m \<inter> snd ` set q = {}" using ok(1) by (simp add: refs_ok_def)
    then have "r \<notin> snd ` set m" using r by blast
    then show "is_uns (heap' ! r)" using arc_untouched [of r m heap] h bspec [OF ok(2) r] by simp
  qed
  show "r \<in> snd ` set m \<Longrightarrow> \<not> is_uns (heap' ! r)"
    unfolding h by (rule arc_cleared) (use ok(1) in \<open>auto simp: refs_ok_def\<close>)
qed

lemma shares_ok_publish:
  assumes "shares_ok is_uns to_pr heap m q views" "as_proto take_uns to_pr heap m UpdatedOnly = (ps, heap')"
  shows "shares_ok is_uns to_pr heap' m q ((\<lambda>v. v ++ map_of ps) ` views)"
proof -
  have "view_ok is_uns to_pr heap' m (v ++ map_of ps)" if "v \<in> views" for v
  proof -
    note v = view_published [OF assms that]
    have d: "distinct (map fst m)" using assms(1) by (simp add: shares_ok_def refs_ok_def)
    have "i \<in> fst ` set m" if "(v ++ map_of ps) i \<noteq> None" for i
      using v [of i] that by (metis map_of_eq_None_iff option.map_disc_iff)
    moreover have "(v ++ map_of ps) i = Some (to_pr (heap' ! r))" if "(i, r) \<in> set m" for i r
      using v [of i] d that by simp
    ultimately show ?thesis unfolding view_ok_def by auto
  qed
  then show ?thesis using published_refs [OF assms] by (simp add: shares_ok_def)
qed

text \<open>The first update gives a new client the whole picture.\<close>

lemma shares_ok_subscribe:
  assumes "shares_ok is_uns to_pr heap m q views" "as_proto take_uns to_pr heap m IncludeAll = (ps, heap')"
  shows "heap' = heap" "shares_ok is_uns to_pr heap m q (insert (map_of ps) views)"
proof -
  have ps: "ps = map (\<lambda>(i, r). (i, to_pr (heap ! r))) m" "heap' = heap" using assms(2) by (auto simp: as_proto_def)
  have "map_of ps i = map_option (\<lambda>r. to_pr (heap ! r)) (map_of m i)" for i
    unfolding ps(1) by (induction m) auto
  then have "view_ok is_uns to_pr heap m (map_of ps)"
    using assms(1) by (auto simp: view_ok_def shares_ok_def refs_ok_def dom_def map_of_eq_None_iff dest: map_of_SomeD)
  then show "heap' = heap" "shares_ok is_uns to_pr heap m q (insert (map_of ps) views)" using assms(1) ps(2) by (simp_all add: shares_ok_def)
qed

end

subsection \<open>Tasks, resources and operations\<close>

definition list_ok :: "('a \<Rightarrow> bool) \<Rightarrow> ('a \<Rightarrow> 'p) \<Rightarrow> 'a id_map \<Rightarrow> 'p set set \<Rightarrow> bool" where
  "list_ok uns pr m seens \<longleftrightarrow> (\<forall>seen\<in>seens. \<forall>i d. (i, d) \<in> set m \<longrightarrow> uns d \<or> pr d \<in> seen)"

lemma list_ok_subset: "\<lbrakk>list_ok uns pr m seens; seens' \<subseteq> seens\<rbrakk> \<Longrightarrow> list_ok uns pr m seens'"
  unfolding list_ok_def by blast

lemma list_ok_insert: "\<lbrakk>list_ok uns pr m seens; uns d\<rbrakk> \<Longrightarrow> list_ok uns pr (id_insert m i d) seens"
  using id_insert_set [of m i d] unfolding list_ok_def by blast

context unsent
begin

lemma list_ok_publish:
  assumes "list_ok is_uns to_pr m seens" "as_proto_list take_uns to_pr m UpdatedOnly = (ps, m')"
  shows "list_ok is_uns to_pr m' ((\<lambda>seen. seen \<union> set ps) ` seens)"
  unfolding list_ok_def
proof (intro ballI allI impI)
  fix seen i d assume "seen \<in> (\<lambda>seen. seen \<union> set ps) ` seens" and d: "(i, d) \<in> set m'"
  then obtain seen0 where s: "seen0 \<in> seens" "seen = seen0 \<union> set ps" by blast
  obtain d0 where "(i, d0) \<in> set m" "to_pr d0 = to_pr d" "is_uns d0 \<longrightarrow> to_pr d \<in> set ps"
    using as_proto_list_covers [OF assms(2) d] by blast
  then show "is_uns d \<or> to_pr d \<in> seen" using assms(1) s unfolding list_ok_def by (metis UnI1 UnI2)
qed

lemma list_ok_subscribe:
  assumes "list_ok is_uns to_pr m seens" "as_proto_list take_uns to_pr m IncludeAll = (ps, m')"
  shows "list_ok is_uns to_pr m' (insert (set ps) seens)" "m' = m"
proof -
  have "ps = map (\<lambda>(i, d). to_pr d) m" "m' = m" using assms(2) by (auto simp: as_proto_list_def)
  then show "list_ok is_uns to_pr m' (insert (set ps) seens)" "m' = m" using assms(1) unfolding list_ok_def by force+
qed

end

text \<open>What a client has learnt from the updates it was sent.\<close>

definition task_view :: "update list \<Rightarrow> nat \<rightharpoonup> task_stats_proto" where
  "task_view us = foldl (\<lambda>v u. v ++ map_of (tu_stats_update (ud_task u))) Map.empty us"

definition resource_view :: "update list \<Rightarrow> nat \<rightharpoonup> resource_stats_proto" where
  "resource_view us = foldl (\<lambda>v u. v ++ map_of (ru_stats_update (ud_resource u))) Map.empty us"

definition async_op_view :: "update list \<Rightarrow> nat \<rightharpoonup> async_op_stats_proto" where
  "async_op_view us = foldl (\<lambda>v u. v ++ map_of (au_stats_update (ud_async_op u))) Map.empty us"

definition tasks_seen :: "update list \<Rightarrow> task_proto set" where
  "tasks_seen us = (\<Union>u\<in>set us. set (tu_new_tasks (ud_task u)))"

definition resources_seen :: "update list \<Rightarrow> resource_proto set" where
  "resources_seen us = (\<Union>u\<in>set us. set (ru_new_resources (ud_resource u)))"

definition async_ops_seen :: "update list \<Rightarrow> async_op_proto set" where
  "async_ops_seen us = (\<Union>u\<in>set us. set (au_new_async_ops (ud_async_op u)))"

definition metadata_seen :: "update list \<Rightarrow> metadata set" where
  "metadata_seen us = (\<Union>u\<in>set us. case ud_new_metadata u of None \<Rightarrow> {} | Some ms \<Rightarrow> set ms)"

lemma view_snoc [simp]:
  "task_view (us @ [u]) = task_view us ++ map_of (tu_stats_update (ud_task u))"
  "resource_view (us @ [u]) = resource_view us ++ map_of (ru_stats_update (ud_resource u))"
  "async_op_view (us @ [u]) = async_op_view us ++ map_of (au_stats_update (ud_async_op u))"
  "task_view [] = Map.empty" "resource_view [] = Map.empty" "async_op_view [] = Map.empty"
  by (simp_all add: task_view_def resource_view_def async_op_view_def)

lemma seen_snoc [simp]:
  "tasks_seen (us @ [u]) = tasks_seen us \<union> set (tu_new_tasks (ud_task u))"
  "resources_seen (us @ [u]) = resources_seen us \<union> set (ru_new_resources (ud_resource u))"
  "async_ops_seen (us @ [u]) = async_ops_seen us \<union> set (au_new_async_ops (ud_async_op u))"
  "metadata_seen (us @ [u]) = metadata_seen us \<union> (case ud_new_metadata u of None \<Rightarrow> {} | Some ms \<Rightarrow> set ms)"
  "tasks_seen [] = {}" "resources_seen [] = {}" "async_ops_seen [] = {}" "metadata_seen [] = {}"
  by (auto simp: tasks_seen_def resources_seen_def async_ops_seen_def metadata_seen_def)

lemmas view_one = view_snoc(1-3) [of "[]", simplified] seen_snoc(1-4) [of "[]", simplified]

text \<open>The events on their way.\<close>

fun spawned :: "event \<Rightarrow> nat id_map" where
  "spawned (EvSpawn i md r fs loc) = [(i, r)]"
| "spawned ev = []"

fun created :: "event \<Rightarrow> nat id_map" where
  "created (EvResource i parent md ct kind loc internal r) = [(i, r)]"
| "created ev = []"

fun started :: "event \<Rightarrow> nat id_map" where
  "started (EvAsyncResourceOp i parent rid md source r) = [(i, r)]"
| "started ev = []"

definition sents :: "aggregator \<Rightarrow> update list set" where
  "sents a = wt_sent ` set (ag_watchers a)"

definition tasks_ok :: "console \<Rightarrow> aggregator \<Rightarrow> bool" where
  "tasks_ok c a \<longleftrightarrow>
     shares_ok ts_is_dirty (task_stats_to_proto (ag_base_time a)) (co_task_stats c) (ag_task_stats a)
       (concat (map spawned (co_events c))) (task_view ` sents a) \<and>
     list_ok tk_is_dirty task_to_proto (ag_tasks a) (tasks_seen ` sents a)"

definition resources_ok :: "console \<Rightarrow> aggregator \<Rightarrow> bool" where
  "resources_ok c a \<longleftrightarrow>
     shares_ok rs_is_dirty (resource_stats_to_proto (ag_base_time a)) (co_resource_stats c) (ag_resource_stats a)
       (concat (map created (co_events c))) (resource_view ` sents a) \<and>
     list_ok re_is_dirty resource_to_proto (ag_resources a) (resources_seen ` sents a)"

definition async_ops_ok :: "console \<Rightarrow> aggregator \<Rightarrow> bool" where
  "async_ops_ok c a \<longleftrightarrow>
     shares_ok (\<lambda>s. rs_is_dirty (ao_stats s)) (async_op_stats_to_proto (ag_base_time a)) (co_async_op_stats c)
       (ag_async_op_stats a) (concat (map started (co_events c))) (async_op_view ` sents a) \<and>
     list_ok as_is_dirty async_op_to_proto (ag_async_ops a) (async_ops_seen ` sents a)"

definition metadata_ok :: "aggregator \<Rightarrow> bool" where
  "metadata_ok a \<longleftrightarrow> (\<forall>us\<in>sents a. set (ag_all_metadata a) \<subseteq> set (ag_new_metadata a) \<union> metadata_seen us)"

definition all_ok :: "console \<Rightarrow> aggregator \<Rightarrow> bool" where
  "all_ok c a \<longleftrightarrow> tasks_ok c a \<and> resources_ok c a \<and> async_ops_ok c a \<and> metadata_ok a"

lemmas part_defs = tasks_ok_def resources_ok_def async_ops_ok_def metadata_ok_def

lemma all_ok_irrelevant [simp]:
  "all_ok (c\<lparr>co_layer := x1\<rparr>) a = all_ok c a" "all_ok (c\<lparr>co_shared := x2\<rparr>) a = all_ok c a"
  "all_ok (c\<lparr>co_spans := x3\<rparr>) a = all_ok c a" "all_ok (c\<lparr>co_connected := x4\<rparr>) a = all_ok c a"
  "all_ok c (a\<lparr>ag_running := x5\<rparr>) = all_ok c a" "all_ok c (a\<lparr>ag_details_watchers := x6\<rparr>) = all_ok c a"
  by (simp_all add: all_ok_def part_defs sents_def)

lemma all_ok_fewer:
  assumes "all_ok c a" "wt_sent ` set ws \<subseteq> sents a"
  shows "all_ok c (a\<lparr>ag_watchers := ws\<rparr>)"
proof -
  have s: "sents (a\<lparr>ag_watchers := ws\<rparr>) = wt_sent ` set ws" by (simp add: sents_def)
  have "metadata_ok (a\<lparr>ag_watchers := ws\<rparr>)"
    using assms unfolding all_ok_def metadata_ok_def s by (auto dest!: subsetD [OF assms(2)])
  then show ?thesis
    using assms(1) by (simp add: all_ok_def tasks_ok_def resources_ok_def async_ops_ok_def s
      shares_ok_subset [OF _ image_mono [OF assms(2)]] list_ok_subset [OF _ image_mono [OF assms(2)]])
qed

subsection \<open>The layer keeps it\<close>

lemma all_ok_change:
  assumes "all_ok c a"
  shows "ts_is_dirty s \<or> s = co_task_stats c ! r \<Longrightarrow> all_ok (c\<lparr>co_task_stats := (co_task_stats c)[r := s]\<rparr>) a"
    and "rs_is_dirty rs \<or> rs = co_resource_stats c ! r \<Longrightarrow> all_ok (c\<lparr>co_resource_stats := (co_resource_stats c)[r := rs]\<rparr>) a"
    and "rs_is_dirty (ao_stats ao) \<or> ao = co_async_op_stats c ! r \<Longrightarrow>
      all_ok (c\<lparr>co_async_op_stats := (co_async_op_stats c)[r := ao]\<rparr>) a"
  using assms by (auto simp: all_ok_def part_defs intro!: shares_ok_change)

lemma all_ok_new:
  assumes "all_ok c a"
  shows "all_ok (c\<lparr>co_task_stats := co_task_stats c @ [s]\<rparr>) a"
    and "all_ok (c\<lparr>co_resource_stats := co_resource_stats c @ [rs]\<rparr>) a"
    and "all_ok (c\<lparr>co_async_op_stats := co_async_op_stats c @ [ao]\<rparr>) a"
    and "ts_is_dirty s \<Longrightarrow> all_ok (c\<lparr>co_task_stats := co_task_stats c @ [s],
      co_events := co_events c @ [EvSpawn i md (length (co_task_stats c)) fs loc]\<rparr>) a"
    and "rs_is_dirty rs \<Longrightarrow> all_ok (c\<lparr>co_resource_stats := co_resource_stats c @ [rs],
      co_events := co_events c @ [EvResource i parent md ct kind loc internal (length (co_resource_stats c))]\<rparr>) a"
    and "rs_is_dirty (ao_stats ao) \<Longrightarrow> all_ok (c\<lparr>co_async_op_stats := co_async_op_stats c @ [ao],
      co_events := co_events c @ [EvAsyncResourceOp i parent rid md source (length (co_async_op_stats c))]\<rparr>) a"
    and "all_ok (c\<lparr>co_events := co_events c @ [EvMetadata md]\<rparr>) a"
  using assms by (simp_all add: all_ok_def part_defs shares_ok_new)

text \<open>Sending drops the event and counts it, drops it because nobody listens, or sends it.\<close>

lemma send_stats_cases:
  assumes "send_stats d mk c = (st, c')"
  obtains "c' = count_dropped d c" "st = None"
  | ev s c1 where "mk c = (ev, s, c1)" "c' = c1 \<or> c' = count_dropped d c1" "st = None"
  | ev s c1 where "mk c = (ev, s, c1)" "c' = c1\<lparr>co_events := co_events c1 @ [ev]\<rparr>" "st = Some s"
  using assms by (cases "mk c") (auto simp: send_stats_def try_send_def Let_def split: if_splits)

lemma count_dropped_ok [simp]: "all_ok (count_dropped d c) a = all_ok c a"
  by (simp add: count_dropped_def)

lemma send_stats_ok:
  assumes "all_ok c a" "send_stats d mk c = (st, c')" "\<And>ev s c1. mk c = (ev, s, c1) \<Longrightarrow>
      all_ok c1 a \<and> all_ok (c1\<lparr>co_events := co_events c1 @ [ev]\<rparr>) a"
  shows "all_ok c' a"
  using assms(2) by (rule send_stats_cases) (use assms(1,3) in auto)

lemma attach_ok:
  "\<lbrakk>all_ok c a; attach_task i st c = Value c'\<rbrakk> \<Longrightarrow> all_ok c' a"
  "\<lbrakk>all_ok c a; attach_resource i st c = Value c'\<rbrakk> \<Longrightarrow> all_ok c' a"
  "\<lbrakk>all_ok c a; attach_async_op i st c = Value c'\<rbrakk> \<Longrightarrow> all_ok c' a"
  by (auto simp: attach_task_def attach_resource_def attach_async_op_def split: option.splits if_splits)

lemma new_stats_dirty [simp]:
  "ts_is_dirty (task_stats_new mx at)" "rs_is_dirty (resource_stats_new at inh parent)"
  "rs_is_dirty (ao_stats (async_op_stats_new at inh parent))"
  by (simp_all add: task_stats_new_def resource_stats_new_def async_op_stats_new_def)

lemma send_new_ok:
  assumes "all_ok c a"
  shows "all_ok (snd (send_stats d (mk_spawn i md fs loc at) c)) a"
    and "all_ok (snd (send_stats d (mk_resource i parent md res at) c)) a"
    and "all_ok (snd (send_stats d (mk_async_op i parent rid md source inh at) c)) a"
    and "all_ok (snd (send_stats d (\<lambda>c. (EvMetadata md, x, c)) c)) a"
  by (rule send_stats_ok [OF assms prod.collapse [symmetric]];
      use assms in \<open>auto simp: mk_spawn_def mk_resource_def mk_async_op_def Let_def all_ok_new\<close>)+

lemma new_task_ok: "\<lbrakk>all_ok c a; new_task i md fs at c = Value c'\<rbrakk> \<Longrightarrow> all_ok c' a"
  by (auto simp: new_task_def split_beta intro: attach_ok(1) [OF send_new_ok(1)])

lemma new_resource_ok: "\<lbrakk>all_ok c a; new_resource thread i md fs at c = Value c'\<rbrakk> \<Longrightarrow> all_ok c' a"
  by (auto simp: new_resource_def bind_outcome_Value_iff split_beta split: option.splits
    intro: attach_ok(2) [OF send_new_ok(2)])

lemma new_async_op_ok: "\<lbrakk>all_ok c a; new_async_op thread i md fs at c = Value c'\<rbrakk> \<Longrightarrow> all_ok c' a"
  by (auto simp: new_async_op_def bind_outcome_Value_iff split_beta split: option.splits
    intro: attach_ok(3) [OF send_new_ok(3)])

lemma on_new_span_ok: "\<lbrakk>all_ok c a; on_new_span thread i md fs at c = Value c'\<rbrakk> \<Longrightarrow> all_ok c' a"
  by (auto simp: on_new_span_def bind_outcome_Value_iff split: if_splits intro: new_task_ok new_resource_ok new_async_op_ok)

lemma register_callsite_ok: "\<lbrakk>all_ok c a; register_callsite c md = Value c'\<rbrakk> \<Longrightarrow> all_ok c' a"
  by (auto simp: register_callsite_def bind_outcome_Value_iff send_metadata_def split_beta intro!: send_new_ok(4))

lemma stats_dirty [simp]:
  "ts_is_dirty (record_wake_op s oper at)" "ts_is_dirty (task_start_poll s at)" "ts_is_dirty (task_end_poll s at)"
  "rs_is_dirty (ao_stats (async_op_start_poll ao at))" "rs_is_dirty (ao_stats (async_op_end_poll ao at))"
  "ts_is_dirty (drop_task s at) \<or> drop_task s at = s" "rs_is_dirty (drop_resource rs at) \<or> drop_resource rs at = rs"
  "rs_is_dirty (ao_stats (drop_async_op ao at)) \<or> drop_async_op ao at = ao"
  by (simp_all add: record_wake_op_def task_start_poll_def task_end_poll_def async_op_start_poll_def async_op_end_poll_def
    async_op_make_dirty_def drop_task_def drop_resource_def drop_async_op_def)

lemma record_waker_ok: "all_ok c a \<Longrightarrow> all_ok (record_waker thread i oper at c) a"
  by (auto simp: record_waker_def Let_def all_ok_change split: option.splits)

lemma on_event_ok: "\<lbrakk>all_ok c a; on_event thread md fs at c = Value c'\<rbrakk> \<Longrightarrow> all_ok c' a"
  by (auto simp: on_event_def bind_outcome_Value_iff split: if_splits option.splits intro: record_waker_ok)

lemma poll_update_ok:
  assumes "all_ok c a" "\<And>s. ts_is_dirty (ft s at)" "\<And>ao. rs_is_dirty (ao_stats (fa ao at))"
  shows "all_ok (snd (poll_update ft fa sp at c)) a"
  using assms by (auto simp: poll_update_def all_ok_change split: option.splits)

lemma parent_update_ok: "\<lbrakk>all_ok c a; \<And>sp. all_ok (snd (upd sp at c)) a\<rbrakk> \<Longrightarrow> all_ok (parent_update upd sp at c) a"
  by (auto simp: parent_update_def split: option.splits)

lemma set_stack_ok [simp]: "all_ok (set_stack thread stack c) a = all_ok c a"
  by (simp add: set_stack_def)

lemma enter_exit_ok:
  assumes "all_ok c a"
  shows "all_ok (on_enter thread i at c) a" "all_ok (on_exit thread i at c) a"
  using assms by (auto simp: on_enter_def on_exit_def Let_def split_beta split: option.splits
    intro!: parent_update_ok poll_update_ok)

lemma on_close_ok: "all_ok c a \<Longrightarrow> all_ok (on_close i at c) a"
  by (auto simp: on_close_def all_ok_change split: option.splits)

subsection \<open>The aggregator keeps it\<close>

lemma update_state_ok:
  assumes "all_ok (c\<lparr>co_events := ev # evs\<rparr>) a"
  shows "all_ok (c\<lparr>co_events := evs\<rparr>) (update_state ev a)"
  using assms by (cases ev) (auto simp: all_ok_def part_defs sents_def intro!: shares_ok_insert list_ok_insert)

lemma drain_events_ok:
  "all_ok (c\<lparr>co_events := evs\<rparr>) a \<Longrightarrow> all_ok (c\<lparr>co_events := []\<rparr>) (foldl (\<lambda>a ev. update_state ev a) a evs)"
proof (induction evs arbitrary: a)
  case (Cons ev evs)
  then show ?case using update_state_ok [OF Cons.prems] by simp
qed simp

text \<open>What an update is made of.\<close>

lemma collect_update_parts:
  assumes "collect_update inc (c, a) = ((tu, ru, au), c', a')"
  shows "as_proto_list task_rec_take_unsent task_to_proto (ag_tasks a) inc = (tu_new_tasks tu, ag_tasks a')"
    "as_proto task_take_unsent (task_stats_to_proto (ag_base_time a)) (co_task_stats c) (ag_task_stats a) inc =
       (tu_stats_update tu, co_task_stats c')"
    "as_proto_list resource_rec_take_unsent resource_to_proto (ag_resources a) inc = (ru_new_resources ru, ag_resources a')"
    "as_proto resource_take_unsent (resource_stats_to_proto (ag_base_time a)) (co_resource_stats c) (ag_resource_stats a) inc =
       (ru_stats_update ru, co_resource_stats c')"
    "as_proto_list async_op_rec_take_unsent async_op_to_proto (ag_async_ops a) inc = (au_new_async_ops au, ag_async_ops a')"
    "as_proto async_op_take_unsent (async_op_stats_to_proto (ag_base_time a)) (co_async_op_stats c) (ag_async_op_stats a) inc =
       (au_stats_update au, co_async_op_stats c')"
    "co_events c' = co_events c" "ag_watchers a' = ag_watchers a" "ag_base_time a' = ag_base_time a"
    "ag_task_stats a' = ag_task_stats a" "ag_resource_stats a' = ag_resource_stats a"
    "ag_async_op_stats a' = ag_async_op_stats a" "ag_all_metadata a' = ag_all_metadata a"
    "ag_new_metadata a' = ag_new_metadata a" "ag_running a' = ag_running a" "ag_details_watchers a' = ag_details_watchers a"
    "co_connected c' = co_connected c"
  using assms by (auto simp: collect_update_def task_update_def resource_update_def async_op_update_def split_beta Let_def)

lemma retain_watches_sent:
  "w \<in> set (retain_watches upd ws) \<Longrightarrow> \<exists>w0\<in>set ws. wt_sent w = wt_sent w0 @ [upd]"
  by (auto simp: retain_watches_def watch_update_def split: if_splits)

lemma retained_views:
  assumes "\<And>us. f (us @ [upd]) = g (f us)"
  shows "f ` wt_sent ` set (retain_watches upd ws) \<subseteq> g ` f ` wt_sent ` set ws"
  using retain_watches_sent [of _ upd ws] assms by fastforce

context unsent
begin

lemma shares_ok_retain:
  assumes "shares_ok is_uns to_pr heap m q (f ` wt_sent ` set ws)" "as_proto take_uns to_pr heap m UpdatedOnly = (ps, heap')"
    and "\<And>us. f (us @ [upd]) = f us ++ map_of ps"
  shows "shares_ok is_uns to_pr heap' m q (f ` wt_sent ` set (retain_watches upd ws))"
  by (rule shares_ok_subset [OF shares_ok_publish [OF assms(1,2)]], rule retained_views, rule assms(3))

lemma list_ok_retain:
  assumes "list_ok is_uns to_pr m (f ` wt_sent ` set ws)" "as_proto_list take_uns to_pr m UpdatedOnly = (ps, m')"
    and "\<And>us. f (us @ [upd]) = f us \<union> set ps"
  shows "list_ok is_uns to_pr m' (f ` wt_sent ` set (retain_watches upd ws))"
  by (rule list_ok_subset [OF list_ok_publish [OF assms(1,2)]], rule retained_views, rule assms(3))

end

lemma publish_parts:
  assumes "publish ser now (c, a) = (c', a')"
  obtains tu ru au a1 upd where
    "collect_update UpdatedOnly (c, a\<lparr>ag_new_metadata := []\<rparr>) = ((tu, ru, au), c', a1)"
    "ud_task upd = tu" "ud_resource upd = ru" "ud_async_op upd = au"
    "ud_new_metadata upd = (if ag_new_metadata a \<noteq> [] then Some (ag_new_metadata a) else None)"
    "\<exists>ds. a' = a1\<lparr>ag_watchers := retain_watches upd (ag_watchers a1), ag_details_watchers := ds\<rparr>"
proof -
  obtain tu ru au c1 a1 where col: "collect_update UpdatedOnly (c, a\<lparr>ag_new_metadata := []\<rparr>) = ((tu, ru, au), c1, a1)"
    by (metis prod.collapse)
  define upd where "upd = \<lparr>ud_task = tu, ud_resource = ru, ud_async_op = au, ud_now = to_timestamp (ag_base_time a1) now,
    ud_new_metadata = (if ag_new_metadata a \<noteq> [] then Some (ag_new_metadata a) else None)\<rparr>"
  have "c1 = c'" "\<exists>ds. a' = a1\<lparr>ag_watchers := retain_watches upd (ag_watchers a1), ag_details_watchers := ds\<rparr>"
    using assms col by (auto simp: publish_def upd_def Let_def)
  then show thesis using that [of tu ru au a1 upd] col by (simp add: upd_def)
qed

lemma publish_ok:
  assumes "all_ok c a" "publish ser now (c, a) = (c', a')"
  shows "all_ok c' a'"
proof -
  obtain tu ru au a1 upd where u: "collect_update UpdatedOnly (c, a\<lparr>ag_new_metadata := []\<rparr>) = ((tu, ru, au), c', a1)"
      "ud_task upd = tu" "ud_resource upd = ru" "ud_async_op upd = au"
      "ud_new_metadata upd = (if ag_new_metadata a \<noteq> [] then Some (ag_new_metadata a) else None)"
      "\<exists>ds. a' = a1\<lparr>ag_watchers := retain_watches upd (ag_watchers a1), ag_details_watchers := ds\<rparr>"
    by (rule publish_parts [OF assms(2)])
  note p = collect_update_parts [OF u(1), simplified]
  have parts: "tasks_ok c a" "resources_ok c a" "async_ops_ok c a" "metadata_ok a" using assms(1) by (simp_all add: all_ok_def)
  let ?a = "a1\<lparr>ag_watchers := retain_watches upd (ag_watchers a)\<rparr>"
  have "tasks_ok c' ?a" using parts(1) unfolding tasks_ok_def sents_def
    by (simp add: p u(2) task_st.shares_ok_retain [OF _ p(2)] task_rc.list_ok_retain [OF _ p(1)])
  moreover have "resources_ok c' ?a" using parts(2) unfolding resources_ok_def sents_def
    by (simp add: p u(3) resource_st.shares_ok_retain [OF _ p(4)] resource_rc.list_ok_retain [OF _ p(3)])
  moreover have "async_ops_ok c' ?a" using parts(3) unfolding async_ops_ok_def sents_def
    by (simp add: p u(4) async_op_st.shares_ok_retain [OF _ p(6)] async_op_rc.list_ok_retain [OF _ p(5)])
  moreover have "metadata_ok ?a" using parts(4)
    by (fastforce simp: metadata_ok_def sents_def p u(5) dest!: retain_watches_sent)
  ultimately have "all_ok c' ?a" by (simp add: all_ok_def)
  then show ?thesis using u(6) p(8) by auto
qed

text \<open>After an update was published, every client that got it has the whole and current picture.\<close>

definition up_to_date :: "console \<Rightarrow> aggregator \<Rightarrow> update list \<Rightarrow> bool" where
  "up_to_date c a us \<longleftrightarrow>
     task_view us = (\<lambda>i. map_option (\<lambda>r. task_stats_to_proto (ag_base_time a) (co_task_stats c ! r)) (map_of (ag_task_stats a) i)) \<and>
     resource_view us =
       (\<lambda>i. map_option (\<lambda>r. resource_stats_to_proto (ag_base_time a) (co_resource_stats c ! r)) (map_of (ag_resource_stats a) i)) \<and>
     async_op_view us =
       (\<lambda>i. map_option (\<lambda>r. async_op_stats_to_proto (ag_base_time a) (co_async_op_stats c ! r)) (map_of (ag_async_op_stats a) i)) \<and>
     (\<forall>i t. (i, t) \<in> set (ag_tasks a) \<longrightarrow> task_to_proto t \<in> tasks_seen us) \<and>
     (\<forall>i t. (i, t) \<in> set (ag_resources a) \<longrightarrow> resource_to_proto t \<in> resources_seen us) \<and>
     (\<forall>i t. (i, t) \<in> set (ag_async_ops a) \<longrightarrow> async_op_to_proto t \<in> async_ops_seen us) \<and>
     set (ag_all_metadata a) \<subseteq> metadata_seen us"

context unsent
begin

lemma all_listed:
  assumes "list_ok is_uns to_pr m seens" "as_proto_list take_uns to_pr m UpdatedOnly = (ps, m')" "seen \<in> seens" "(i, d) \<in> set m'"
  shows "to_pr d \<in> seen \<union> set ps"
proof -
  have "\<not> is_uns d" using as_proto_list_covers [OF assms(2,4)] by auto
  moreover have "is_uns d \<or> to_pr d \<in> seen \<union> set ps"
    using list_ok_publish [OF assms(1,2), unfolded list_ok_def, THEN bspec, OF imageI [OF assms(3)]] assms(4) by blast
  ultimately show ?thesis by blast
qed

end

lemma published_up_to_date:
  assumes "all_ok c a" "publish ser now (c, a) = (c', a')" "us \<in> sents a'"
  shows "up_to_date c' a' us"
proof -
  obtain tu ru au a1 upd where u: "collect_update UpdatedOnly (c, a\<lparr>ag_new_metadata := []\<rparr>) = ((tu, ru, au), c', a1)"
      "ud_task upd = tu" "ud_resource upd = ru" "ud_async_op upd = au"
      "ud_new_metadata upd = (if ag_new_metadata a \<noteq> [] then Some (ag_new_metadata a) else None)"
      "\<exists>ds. a' = a1\<lparr>ag_watchers := retain_watches upd (ag_watchers a1), ag_details_watchers := ds\<rparr>"
    by (rule publish_parts [OF assms(2)])
  note p = collect_update_parts [OF u(1), simplified]
  obtain w where w: "w \<in> set (retain_watches upd (ag_watchers a))" "us = wt_sent w"
    using assms(3) u(6) p(8) by (auto simp: sents_def)
  obtain us0 where us: "us0 \<in> sents a" "us = us0 @ [upd]"
    using retain_watches_sent [OF w(1)] w(2) by (auto simp: sents_def)
  have ok: "tasks_ok c a" "resources_ok c a" "async_ops_ok c a" "metadata_ok a" using assms(1) by (simp_all add: all_ok_def)
  note t = ok(1) [unfolded tasks_ok_def] and r = ok(2) [unfolded resources_ok_def] and o' = ok(3) [unfolded async_ops_ok_def]
  have a': "ag_base_time a' = ag_base_time a" "ag_task_stats a' = ag_task_stats a" "ag_resource_stats a' = ag_resource_stats a"
    "ag_async_op_stats a' = ag_async_op_stats a" "ag_tasks a' = ag_tasks a1" "ag_resources a' = ag_resources a1"
    "ag_async_ops a' = ag_async_ops a1" "ag_all_metadata a' = ag_all_metadata a" using u(6) p by auto
  have "set (ag_all_metadata a) \<subseteq> set (ag_new_metadata a) \<union> metadata_seen us0" using ok(4) us(1) by (simp add: metadata_ok_def)
  then have m: "set (ag_all_metadata a) \<subseteq> metadata_seen us" using us(2) u(5) by auto
  show ?thesis unfolding up_to_date_def a'
  proof (intro conjI ext allI impI m)
    fix i
    show "task_view us i = map_option (\<lambda>r. task_stats_to_proto (ag_base_time a) (co_task_stats c' ! r)) (map_of (ag_task_stats a) i)"
      using task_st.view_published [OF conjunct1 [OF t] p(2) imageI [OF us(1)]] us(2) u(2) by simp
    show "resource_view us i =
        map_option (\<lambda>r. resource_stats_to_proto (ag_base_time a) (co_resource_stats c' ! r)) (map_of (ag_resource_stats a) i)"
      using resource_st.view_published [OF conjunct1 [OF r] p(4) imageI [OF us(1)]] us(2) u(3) by simp
    show "async_op_view us i =
        map_option (\<lambda>r. async_op_stats_to_proto (ag_base_time a) (co_async_op_stats c' ! r)) (map_of (ag_async_op_stats a) i)"
      using async_op_st.view_published [OF conjunct1 [OF o'] p(6) imageI [OF us(1)]] us(2) u(4) by simp
  next
    fix i d assume "(i, d) \<in> set (ag_tasks a1)"
    then show "task_to_proto d \<in> tasks_seen us"
      using task_rc.all_listed [OF conjunct2 [OF t] p(1) imageI [OF us(1)]] us(2) u(2) by simp
  next
    fix i d assume "(i, d) \<in> set (ag_resources a1)"
    then show "resource_to_proto d \<in> resources_seen us"
      using resource_rc.all_listed [OF conjunct2 [OF r] p(3) imageI [OF us(1)]] us(2) u(3) by simp
  next
    fix i d assume "(i, d) \<in> set (ag_async_ops a1)"
    then show "async_op_to_proto d \<in> async_ops_seen us"
      using async_op_rc.all_listed [OF conjunct2 [OF o'] p(5) imageI [OF us(1)]] us(2) u(4) by simp
  qed
qed

text \<open>A new client starts with the whole picture.\<close>

lemma subscription_ok:
  assumes "all_ok c a" "wt_sent w = []" "add_instrument_subscription w now (c, a) = (c', a')"
  shows "all_ok c' a'"
proof -
  obtain tu ru au c1 a1 where col: "collect_update IncludeAll (c, a) = ((tu, ru, au), c1, a1)" by (metis prod.collapse)
  note p = collect_update_parts [OF col]
  define upd where "upd = \<lparr>ud_task = tu, ud_resource = ru, ud_async_op = au, ud_now = to_timestamp (ag_base_time a1) now,
    ud_new_metadata = Some (ag_all_metadata a1)\<rparr>"
  have a': "c' = c1" "a' = a1 \<or> a' = a1\<lparr>ag_watchers := ag_watchers a @ [w\<lparr>wt_sent := [upd]\<rparr>]\<rparr>"
    using assms(2,3) col p(8) by (auto simp: add_instrument_subscription_def watch_update_def upd_def Let_def split: if_splits)
  have ok: "tasks_ok c a" "resources_ok c a" "async_ops_ok c a" "metadata_ok a" using assms(1) by (simp_all add: all_ok_def)
  note t = ok(1) [unfolded tasks_ok_def] and r = ok(2) [unfolded resources_ok_def] and o' = ok(3) [unfolded async_ops_ok_def]
  note st = task_st.shares_ok_subscribe [OF conjunct1 [OF t] p(2)] resource_st.shares_ok_subscribe [OF conjunct1 [OF r] p(4)]
    async_op_st.shares_ok_subscribe [OF conjunct1 [OF o'] p(6)]
  note rc = task_rc.list_ok_subscribe [OF conjunct2 [OF t] p(1)] resource_rc.list_ok_subscribe [OF conjunct2 [OF r] p(3)]
    async_op_rc.list_ok_subscribe [OF conjunct2 [OF o'] p(5)]
  let ?a = "a1\<lparr>ag_watchers := ag_watchers a @ [w\<lparr>wt_sent := [upd]\<rparr>]\<rparr>"
  have "all_ok c1 ?a"
    using st rc ok(4) by (simp add: all_ok_def part_defs sents_def p view_one upd_def)
  moreover have "a1\<lparr>ag_watchers := ag_watchers a\<rparr> = a1" using p(8) by simp
  ultimately show ?thesis using a' all_ok_fewer [of c1 ?a "ag_watchers a"] by (auto simp: sents_def)
qed

subsection \<open>The system keeps it\<close>

definition system_ok :: "console_system \<Rightarrow> bool" where
  "system_ok s \<longleftrightarrow> all_ok (cs_console s) (cs_agg s) \<and> (\<forall>w. Instrument w \<in> set (sv_commands (cs_server s)) \<longrightarrow> wt_sent w = [])"

lemma system_new_ok: "system_ok (system_new config base)"
  by (simp add: system_ok_def system_new_def console_build_def aggregator_new_def server_new_def all_ok_def part_defs
    sents_def shares_ok_def refs_ok_def list_ok_def)

lemma all_ok_drained: "all_ok c a \<Longrightarrow> case drain_events (c, a) of (c', a') \<Rightarrow> all_ok c' a'"
  using drain_events_ok [where c = c and evs = "co_events c" and a = a] by (simp add: drain_events_def)

lemma publish_pair_ok: "all_ok (fst s) (snd s) \<Longrightarrow> all_ok (fst (publish ser now s)) (snd (publish ser now s))"
  by (rule publish_ok [of "fst s" "snd s" ser now]) simp_all

lemma run_command_ok:
  assumes "all_ok c a" "\<And>w. cmd = Instrument w \<Longrightarrow> wt_sent w = []"
  shows "all_ok (fst (snd (run_command cmd now (c, a)))) (snd (snd (run_command cmd now (c, a))))"
proof (cases cmd)
  case (Instrument w)
  show ?thesis
    using subscription_ok [OF assms(1) assms(2) [OF Instrument] prod.collapse [symmetric]] Instrument by (simp add: run_command_def)
qed (use assms in \<open>simp_all add: run_command_def\<close>)

lemma round_ok:
  assumes "all_ok c a" "\<And>w. wake = Command (Instrument w) \<Longrightarrow> wt_sent w = []" "aggregate_round ser layer wake now (c, a) = (go_on, c', a')"
  shows "all_ok c' a'"
proof -
  have step: "all_ok (fst s2) (snd s2)" if "all_ok (fst s1) (snd s1)" "s2 = drain_events s1" for s1 s2
    using all_ok_drained [of "fst s1" "snd s1"] that by (simp add: split_beta)
  have fin: "all_ok c' a'"
    if "all_ok (fst s1) (snd s1)"
      "(c', a') = drain_events s1 \<or> (c', a') = publish ser now (drain_events s1)" for s1
    using that step [of s1 "drain_events s1"] publish_pair_ok [of "drain_events s1" ser now] by (metis fst_conv snd_conv)
  show ?thesis
  proof (cases wake)
    case Tick
    then show ?thesis using assms(1,3) by (intro fin [of "(c, a)"]) (auto simp: aggregate_round_def Let_def split: if_splits)
  next
    case (Command cmd)
    then show ?thesis using assms(3) run_command_ok [OF assms(1), of cmd now] assms(2)
      by (intro fin [of "snd (run_command cmd now (c, a))"]) (auto simp: aggregate_round_def Let_def split: if_splits)
  next
    case CommandsClosed
    then show ?thesis using assms by (auto simp: aggregate_round_def)
  qed
qed

lemma round_of_ok:
  assumes "system_ok s" "\<And>w. wake = Command (Instrument w) \<Longrightarrow> wt_sent w = []"
  shows "system_ok (round_of ser wake now s)"
proof (cases "co_connected (cs_console s)")
  case True
  obtain go_on c a where r: "aggregate_round ser True wake now (cs_console s, cs_agg s) = (go_on, c, a)" by (metis prod.collapse)
  have "all_ok c a" by (rule round_ok [OF _ assms(2) r]) (use assms(1) in \<open>simp_all add: system_ok_def\<close>)
  moreover from this have "all_ok (c\<lparr>co_connected := False, co_events := []\<rparr>) a"
    by (auto simp: all_ok_def part_defs intro: shares_ok_forget)
  ultimately show ?thesis using assms(1) True r by (auto simp: round_of_def system_ok_def)
qed (use assms(1) in \<open>simp add: round_of_def\<close>)

lemma change_watch_ok:
  assumes "system_ok s" "\<And>w. wt_sent (f w) = wt_sent w"
  shows "system_ok (change_watch k f s)"
proof -
  let ?ws = "ag_watchers (cs_agg s)"
  have "wt_sent ` set (?ws[k := f (?ws ! k)]) \<subseteq> sents (cs_agg s)"
  proof (cases "k < length ?ws")
    case True
    then have "set (?ws[k := f (?ws ! k)]) \<subseteq> insert (f (?ws ! k)) (set ?ws)" by (rule_tac set_update_subset_insert)
    then show ?thesis using True assms(2) nth_mem [OF True] by (fastforce simp: sents_def)
  qed (simp add: sents_def list_update_beyond)
  then show ?thesis using assms(1) by (simp add: system_ok_def change_watch_def all_ok_fewer)
qed

lemma in_console_ok:
  "\<lbrakk>system_ok s; in_console s m = Value s'; \<And>c. m = Value c \<Longrightarrow> all_ok c (cs_agg s)\<rbrakk> \<Longrightarrow> system_ok s'"
  by (auto simp: in_console_def bind_outcome_Value_iff system_ok_def)

lemma server_ok:
  assumes "system_ok s"
  shows "system_ok (s\<lparr>cs_server := snd (watch_updates (cs_server s))\<rparr>)" "system_ok (s\<lparr>cs_server := snd (pause (cs_server s))\<rparr>)"
    "system_ok (s\<lparr>cs_server := snd (resume (cs_server s))\<rparr>)"
    "system_ok (s\<lparr>cs_server := snd (watch_task_details_request task_id (cs_server s))\<rparr>)"
  using assms by (auto simp: system_ok_def watch_updates_def pause_def resume_def watch_task_details_request_def send_command_def
    watch_new_def Let_def split: option.splits)

lemma console_do_ok:
  assumes "system_ok s" "console_do ser x s = Value s'"
  shows "system_ok s'"
proof -
  have ok: "all_ok (cs_console s) (cs_agg s)" using assms(1) by (simp add: system_ok_def)
  show ?thesis
  proof (cases x)
    case (CRegister md) then show ?thesis using assms(2) register_callsite_ok [OF ok] by (auto intro: in_console_ok [OF assms(1)])
  next
    case (CNewSpan thread i md parent fs at)
    show ?thesis
    proof (cases "co_spans (cs_console s) i")
      case None
      then show ?thesis
        using assms(2) CNewSpan ok by (intro in_console_ok [OF assms(1)]) (auto intro: on_new_span_ok [rotated])
    qed (use CNewSpan assms in simp)
  next
    case (CEvent thread md fs at) then show ?thesis using assms(2) on_event_ok [OF ok] by (auto intro: in_console_ok [OF assms(1)])
  next
    case (CEnter thread i at) then show ?thesis using assms(2) enter_exit_ok [OF ok] by (auto intro: in_console_ok [OF assms(1)])
  next
    case (CExit thread i at) then show ?thesis using assms(2) enter_exit_ok [OF ok] by (auto intro: in_console_ok [OF assms(1)])
  next
    case (CClose i at)
    then show ?thesis using assms(2) on_close_ok [OF ok] by (auto simp: Let_def intro: in_console_ok [OF assms(1)])
  next
    case (CCommand now)
    show ?thesis
    proof (cases "sv_commands (cs_server s)")
      case Nil then show ?thesis using CCommand assms by simp
    next
      case (Cons cmd cmds)
      have "system_ok (round_of ser (Command cmd) now (s\<lparr>cs_server := (cs_server s)\<lparr>sv_commands := cmds\<rparr>\<rparr>))"
        by (rule round_of_ok) (use assms(1) Cons in \<open>auto simp: system_ok_def\<close>)
      then show ?thesis using CCommand Cons assms(2) by simp
    qed
  qed (use assms server_ok [OF assms(1)] in \<open>auto intro: round_of_ok change_watch_ok\<close>)
qed

interpretation console_runs: stepwise "console_do ser" "console_run ser" for ser
  by unfold_locales simp_all

lemma console_run_ok: "\<lbrakk>system_ok s; console_run ser xs s = Value s'\<rbrakk> \<Longrightarrow> system_ok s'"
  by (rule console_runs.run_keeps [OF console_do_ok])

end
