(* ===== verification/Console_Clients.thy ===== *)
theory Console_Clients
  imports Console_Correct
begin

text \<open>
  What the invariants of the console mean for its clients, and that its references, its
  channel and its stacks of spans stay well formed.
\<close>

subsection \<open>What the clients know\<close>

lemma console_reach_ok: "console_run ser xs (system_new config base) = Value s \<Longrightarrow> system_ok s"
  by (rule console_run_ok [OF system_new_ok])

lemma tick_publishes:
  assumes "co_connected (cs_console s)" "ag_running (cs_agg s)" "console_do ser (CTick now) s = Value s'" "ag_watchers (cs_agg s') \<noteq> []"
  shows "publish ser now (drain_events (cs_console s, cs_agg s)) = (cs_console s', cs_agg s')"
  using assms by (auto simp: round_of_def aggregate_round_def Let_def split: if_splits prod.splits)

text \<open>C12. The clients of the console have the right picture.  Whatever threads, clients and the clock do
  with a new console: after a tick of a console that is not paused, every client that still
  watches knows of every task, resource, operation and call site, and the statistics it was
  sent last are the current ones, for exactly the tasks, resources and operations the
  aggregator knows.\<close>

theorem clients_up_to_date:
  assumes "console_run ser xs (system_new config base) = Value s"
    and "co_connected (cs_console s)" "ag_running (cs_agg s)"
    and "console_do ser (CTick now) s = Value s'" "w \<in> set (ag_watchers (cs_agg s'))"
  shows "up_to_date (cs_console s') (cs_agg s') (wt_sent w)"
proof -
  have "all_ok (cs_console s) (cs_agg s)" using console_reach_ok [OF assms(1)] by (simp add: system_ok_def)
  then have ok: "all_ok (fst (drain_events (cs_console s, cs_agg s))) (snd (drain_events (cs_console s, cs_agg s)))"
    using all_ok_drained by (metis prod.case_eq_if)
  have "ag_watchers (cs_agg s') \<noteq> []" using assms(5) by auto
  then have "publish ser now (fst (drain_events (cs_console s, cs_agg s)), snd (drain_events (cs_console s, cs_agg s))) =
      (cs_console s', cs_agg s')" using tick_publishes [OF assms(2-4)] by simp
  then show ?thesis by (rule published_up_to_date [OF ok]) (use assms(5) in \<open>simp add: sents_def\<close>)
qed

definition spawn_site :: metadata where
  "spawn_site = \<lparr>md_callsite = 1, md_name = SPAWN_NAME, md_target = SPAWN_TARGET\<rparr>"

definition small_console :: console_system where
  "small_console = system_new (builder_default\<lparr>bd_event_buffer_capacity := 4, bd_client_buffer_capacity := 4, bd_poll_duration_max := 3\<rparr>)
     \<lparr>ta_mono = 0, ta_sys = 2\<rparr>"

definition demo_steps :: "console_step list" where
  "demo_steps = [CRegister spawn_site, CWatch, CCommand 5, CNewSpan 0 7 spawn_site None [(''kind'', RecStr ''global'')] 6, CEnter 0 7 8]"

lemmas demo_defs = system_new_def console_build_def builder_default_def layer_new_def aggregator_new_def server_new_def
  callsites_default_def in_console_def register_callsite_def layer_insert_def callsites_insert_def callsites_contains_def
  send_metadata_def send_stats_def try_send_def count_dropped_def known_callsite_def on_new_span_def new_task_def mk_spawn_def
  attach_task_def task_visitor_new_def task_record_def task_record_field_def field_record_def field_of_def task_result_def location_of_def
  watch_updates_def watch_new_def send_command_def round_of_def aggregate_round_def run_command_def add_instrument_subscription_def
  collect_update_def task_update_def resource_update_def async_op_update_def as_proto_list_def as_proto_def watch_update_def drain_events_def
  on_enter_def poll_update_def parent_update_def set_stack_def current_stack_def stack_push_def task_start_poll_def start_poll_def
  publish_def retain_watches_def id_insert_def task_stats_new_def poll_stats_new_def histogram_new_def slice_def index_get_def task_take_unsent_def task_rec_take_unsent_def id_get_def

lemma replicate_8: "replicate 8 x = x # replicate 7 x"
  by (simp add: numeral_eq_Suc)

lemma demo_checks:
  "case console_run (\<lambda>_. []) demo_steps small_console of
     Panic \<Rightarrow> False
   | Value s \<Rightarrow> co_connected (cs_console s) \<and> ag_running (cs_agg s) \<and>
       (case console_do (\<lambda>_. []) (CTick 9) s of Panic \<Rightarrow> False | Value s' \<Rightarrow> length (ag_watchers (cs_agg s')) = 1 \<and>
          map fst (ag_task_stats (cs_agg s')) = [7])"
  unfolding demo_steps_def small_console_def spawn_site_def by (simp add: demo_defs Let_def replicate_8)

theorem clients_up_to_date_witness:
  "\<exists>s s'. console_run (\<lambda>_. []) demo_steps small_console = Value s \<and>
     console_do (\<lambda>_. []) (CTick 9) s = Value s' \<and> map fst (ag_task_stats (cs_agg s')) = [7] \<and> ag_watchers (cs_agg s') \<noteq> [] \<and>
     (\<forall>w. w \<in> set (ag_watchers (cs_agg s')) \<longrightarrow> up_to_date (cs_console s') (cs_agg s') (wt_sent w))"
proof -
  obtain s s' where "console_run (\<lambda>_. []) demo_steps small_console = Value s"
      "co_connected (cs_console s)" "ag_running (cs_agg s)" "console_do (\<lambda>_. []) (CTick 9) s = Value s'"
      "length (ag_watchers (cs_agg s')) = 1" "map fst (ag_task_stats (cs_agg s')) = [7]"
    using demo_checks by (auto split: outcome.splits)
  then show ?thesis using clients_up_to_date [where s = s and s' = s', OF _ _ _ \<open>console_do _ _ _ = _\<close>]
    unfolding small_console_def by (intro exI [of _ s] exI [of _ s']) auto
qed

subsection \<open>References and the channel\<close>

text \<open>The references of a span point into the stores, the channel holds no more than its capacity, and the stacks of
  the threads mark duplicates.\<close>

definition span_typed :: "console \<Rightarrow> span_data \<Rightarrow> bool" where
  "span_typed c sp \<longleftrightarrow>
     (\<forall>r. sp_task sp = Some r \<longrightarrow> r < length (co_task_stats c)) \<and>
     (\<forall>r. sp_resource sp = Some r \<longrightarrow> r < length (co_resource_stats c)) \<and>
     (\<forall>r. sp_async_op sp = Some r \<longrightarrow> r < length (co_async_op_stats c))"

definition layer_typed :: "console \<Rightarrow> bool" where
  "layer_typed c \<longleftrightarrow>
     length (co_events c) \<le> co_capacity c \<and>
     (\<forall>thread stack. cl_current_spans (co_layer c) thread = Some stack \<longrightarrow> stack_ok stack) \<and>
     (\<forall>i sp. co_spans c i = Some sp \<longrightarrow> span_typed c sp)"

text \<open>Stores only grow, and nothing else that matters changes.\<close>

definition grows :: "console \<Rightarrow> console \<Rightarrow> bool" where
  "grows c c' \<longleftrightarrow>
     length (co_task_stats c) \<le> length (co_task_stats c') \<and> length (co_resource_stats c) \<le> length (co_resource_stats c') \<and>
     length (co_async_op_stats c) \<le> length (co_async_op_stats c') \<and>
     cl_current_spans (co_layer c') = cl_current_spans (co_layer c) \<and> co_spans c' = co_spans c \<and>
     (length (co_events c) \<le> co_capacity c \<longrightarrow> length (co_events c') \<le> co_capacity c')"

lemma grows_refl [simp]: "grows c c" by (simp add: grows_def)

lemma grows_trans: "\<lbrakk>grows c c'; grows c' c''\<rbrakk> \<Longrightarrow> grows c c''"
  by (auto simp: grows_def)

lemma grows_typed: "\<lbrakk>layer_typed c; grows c c'\<rbrakk> \<Longrightarrow> layer_typed c'"
  unfolding layer_typed_def grows_def span_typed_def by (metis order_less_le_trans)

lemma set_stack_typed: "\<lbrakk>layer_typed c; stack_ok stack\<rbrakk> \<Longrightarrow> layer_typed (set_stack thread stack c)"
  by (auto simp: layer_typed_def set_stack_def span_typed_def)

lemma current_stack_ok: "layer_typed c \<Longrightarrow> stack_ok (current_stack thread c)"
  by (auto simp: layer_typed_def current_stack_def stack_ok_def split: option.splits)

lemma send_stats_grows:
  assumes "send_stats d mk c = (st, c')"
    and "\<And>ev s c1. mk c = (ev, s, c1) \<Longrightarrow> grows c c1 \<and> co_events c1 = co_events c \<and> co_capacity c1 = co_capacity c"
  shows "grows c c'"
  using assms by (cases "mk c") (auto simp: send_stats_def try_send_def count_dropped_def grows_def Let_def split: if_splits)

lemma send_new_grows:
  "grows c (snd (send_stats d (mk_spawn i md fs loc at) c))"
  "grows c (snd (send_stats d (mk_resource i parent md res at) c))"
  "grows c (snd (send_stats d (mk_async_op i parent rid md source inh at) c))"
  "grows c (snd (send_stats d (\<lambda>c. (EvMetadata md, x, c)) c))"
  by (rule send_stats_grows [OF prod.collapse [symmetric]]; auto simp: mk_spawn_def mk_resource_def mk_async_op_def grows_def Let_def)+

lemma send_new_ref:
  "fst (send_stats d (mk_spawn i md fs loc at) c) = Some r \<Longrightarrow>
     r < length (co_task_stats (snd (send_stats d (mk_spawn i md fs loc at) c)))"
  "fst (send_stats d (mk_resource i parent md res at) c) = Some r \<Longrightarrow>
     r < length (co_resource_stats (snd (send_stats d (mk_resource i parent md res at) c)))"
  "fst (send_stats d (mk_async_op i parent rid md source inh at) c) = Some r \<Longrightarrow>
     r < length (co_async_op_stats (snd (send_stats d (mk_async_op i parent rid md source inh at) c)))"
  by (auto simp: send_stats_def try_send_def mk_spawn_def mk_resource_def mk_async_op_def Let_def split: if_splits)

lemma attach_typed:
  "\<lbrakk>layer_typed c; attach_task i st c = Value c'; \<And>r. st = Some r \<Longrightarrow> r < length (co_task_stats c)\<rbrakk> \<Longrightarrow> layer_typed c'"
  "\<lbrakk>layer_typed c; attach_resource i st c = Value c'; \<And>r. st = Some r \<Longrightarrow> r < length (co_resource_stats c)\<rbrakk> \<Longrightarrow> layer_typed c'"
  "\<lbrakk>layer_typed c; attach_async_op i st c = Value c'; \<And>r. st = Some r \<Longrightarrow> r < length (co_async_op_stats c)\<rbrakk> \<Longrightarrow> layer_typed c'"
  by (auto simp: attach_task_def attach_resource_def attach_async_op_def layer_typed_def span_typed_def split: option.splits if_splits)

lemma new_task_typed: "\<lbrakk>layer_typed c; new_task i md fs at c = Value c'\<rbrakk> \<Longrightarrow> layer_typed c'"
  by (auto simp: new_task_def split_beta intro: attach_typed(1) [OF grows_typed [OF _ send_new_grows(1)]] send_new_ref(1))

lemma new_resource_typed: "\<lbrakk>layer_typed c; new_resource thread i md fs at c = Value c'\<rbrakk> \<Longrightarrow> layer_typed c'"
  by (auto simp: new_resource_def bind_outcome_Value_iff split_beta split: option.splits
    intro: attach_typed(2) [OF grows_typed [OF _ send_new_grows(2)]] send_new_ref(2))

lemma new_async_op_typed: "\<lbrakk>layer_typed c; new_async_op thread i md fs at c = Value c'\<rbrakk> \<Longrightarrow> layer_typed c'"
  by (auto simp: new_async_op_def bind_outcome_Value_iff split_beta split: option.splits
    intro: attach_typed(3) [OF grows_typed [OF _ send_new_grows(3)]] send_new_ref(3))

lemma on_new_span_typed: "\<lbrakk>layer_typed c; on_new_span thread i md fs at c = Value c'\<rbrakk> \<Longrightarrow> layer_typed c'"
  by (auto simp: on_new_span_def bind_outcome_Value_iff split: if_splits
    intro: new_task_typed new_resource_typed new_async_op_typed)

lemma layer_insert_spans: "layer_insert l md = Value (d, l') \<Longrightarrow> cl_current_spans l' = cl_current_spans l"
  by (auto simp: layer_insert_def Let_def bind_outcome_Value_iff split: if_splits)

lemma register_callsite_typed: "\<lbrakk>layer_typed c; register_callsite c md = Value c'\<rbrakk> \<Longrightarrow> layer_typed c'"
proof -
  assume ok: "layer_typed c" and r: "register_callsite c md = Value c'"
  obtain d l where l: "layer_insert (co_layer c) md = Value (d, l)"
      "c' = snd (send_stats d (\<lambda>c. (EvMetadata md, (), c)) (c\<lparr>co_layer := l\<rparr>))"
    using r by (auto simp: register_callsite_def bind_outcome_Value_iff send_metadata_def split_beta)
  have "grows c (c\<lparr>co_layer := l\<rparr>)" using layer_insert_spans [OF l(1)] by (simp add: grows_def)
  then show "layer_typed c'" using grows_typed [OF grows_typed [OF ok] send_new_grows(4)] l(2) by simp
qed

lemma poll_update_grows: "grows c (snd (poll_update ft fa sp at c))"
  by (auto simp: poll_update_def grows_def split: option.splits)

lemma parent_update_grows: "grows c (parent_update (poll_update ft fa) sp at c)"
  by (auto simp: parent_update_def poll_update_grows split: option.splits)

lemma handlers_typed:
  assumes "layer_typed c"
  shows "layer_typed (on_enter thread i at c)" "layer_typed (on_exit thread i at c)" "layer_typed (on_close i at c)"
    "on_event thread md fs at c = Value c' \<Longrightarrow> layer_typed c'"
proof -
  have g: "layer_typed (parent_update (poll_update ft fa) sp at (snd (poll_update ft fa sp at c)))"
      "layer_typed (snd (poll_update ft fa sp at c))" for ft fa sp
    using grows_typed [OF assms poll_update_grows] grows_typed [OF grows_typed [OF assms poll_update_grows] parent_update_grows]
    by blast+
  show "layer_typed (on_enter thread i at c)" "layer_typed (on_exit thread i at c)"
    using assms g by (auto simp: on_enter_def on_exit_def Let_def split_beta split: option.splits
      intro!: set_stack_typed stack_push_ok stack_pop_ok current_stack_ok)
  show "layer_typed (on_close i at c)"
    by (rule grows_typed [OF assms]) (auto simp: on_close_def grows_def split: option.splits)
  assume ev: "on_event thread md fs at c = Value c'"
  have "grows c (record_waker thread j oper at c)" for j oper
    by (auto simp: record_waker_def grows_def Let_def split: option.splits)
  then have "grows c c'" using ev
    by (auto simp: on_event_def bind_outcome_Value_iff split: if_splits option.splits)
  then show "layer_typed c'" by (rule grows_typed [OF assms])
qed

text \<open>The aggregator empties the channel and changes nothing else of the layer's state but the marks on statistics.\<close>

lemma collect_update_grows: "collect_update inc (c, a) = (parts, c', a') \<Longrightarrow> grows c c'"
proof -
  assume col: "collect_update inc (c, a) = (parts, c', a')"
  obtain tu ru au where "parts = (tu, ru, au)" by (cases parts)
  note p = collect_update_parts [OF col [unfolded this]]
  have "length (co_task_stats c') = length (co_task_stats c)" "length (co_resource_stats c') = length (co_resource_stats c)"
    "length (co_async_op_stats c') = length (co_async_op_stats c)"
    using task_st.as_proto_heap(1) p(2) resource_st.as_proto_heap(1) p(4) async_op_st.as_proto_heap(1) p(6) by (metis snd_conv)+
  moreover have "co_layer c' = co_layer c" "co_spans c' = co_spans c" "co_events c' = co_events c" "co_capacity c' = co_capacity c"
    using col by (auto simp: collect_update_def task_update_def resource_update_def async_op_update_def split_beta Let_def)
  ultimately show ?thesis by (simp add: grows_def)
qed

lemma publish_grows: "grows (fst s) (fst (publish ser now s))"
proof -
  obtain parts c' a' where col: "collect_update UpdatedOnly (fst s, (snd s)\<lparr>ag_new_metadata := []\<rparr>) = (parts, c', a')"
    by (metis prod.collapse)
  then have "fst (publish ser now s) = c'" by (cases parts) (simp add: publish_def split_beta Let_def)
  then show ?thesis using collect_update_grows [OF col] by simp
qed

lemma run_command_grows: "grows (fst s) (fst (snd (run_command cmd now s)))"
proof (cases cmd)
  case (Instrument w)
  obtain parts c' a' where col: "collect_update IncludeAll (fst s, snd s) = (parts, c', a')" by (metis prod.collapse)
  then have "fst (add_instrument_subscription w now s) = c'"
    by (cases parts) (simp add: add_instrument_subscription_def split_beta Let_def)
  then show ?thesis using collect_update_grows [OF col] Instrument by (simp add: run_command_def)
qed (simp_all add: run_command_def)

lemma drain_grows: "grows (fst s) (fst (drain_events s))"
  by (simp add: drain_events_def grows_def)

lemma round_grows: "grows (fst s) (fst (snd (aggregate_round ser layer wake now s)))"
proof (cases wake)
  case Tick
  then show ?thesis using drain_grows [of s] grows_trans [OF drain_grows publish_grows, of s ser now]
    by (auto simp: aggregate_round_def Let_def)
next
  case (Command cmd)
  let ?s = "snd (run_command cmd now s)"
  have "grows (fst s) (fst (drain_events ?s))" by (rule grows_trans [OF run_command_grows drain_grows])
  then show ?thesis using Command by (simp add: aggregate_round_def Let_def)
qed (simp add: aggregate_round_def)

lemma round_of_typed: "layer_typed (cs_console s) \<Longrightarrow> layer_typed (cs_console (round_of ser wake now s))"
proof -
  assume ok: "layer_typed (cs_console s)"
  obtain go_on c a where r: "aggregate_round ser True wake now (cs_console s, cs_agg s) = (go_on, c, a)" by (metis prod.collapse)
  have g: "grows (cs_console s) c" using round_grows [of "(cs_console s, cs_agg s)" ser True wake now] r by simp
  then have "grows (cs_console s) (c\<lparr>co_connected := False, co_events := []\<rparr>)" by (simp add: grows_def)
  then show ?thesis using r g grows_typed [OF ok] ok by (simp add: round_of_def)
qed

lemma in_console_typed:
  "\<lbrakk>in_console s m = Value s'; \<And>c. m = Value c \<Longrightarrow> layer_typed c\<rbrakk> \<Longrightarrow> layer_typed (cs_console s')"
  by (auto simp: in_console_def bind_outcome_Value_iff)

lemma spans_typed:
  assumes "layer_typed c"
  shows "layer_typed (c\<lparr>co_spans := (co_spans c)(i := None)\<rparr>)"
    "layer_typed (c\<lparr>co_spans := (co_spans c)(i \<mapsto> \<lparr>sp_metadata = md, sp_parent = p, sp_task = None, sp_async_op = None, sp_resource = None\<rparr>)\<rparr>)"
  using assms by (auto simp: layer_typed_def span_typed_def)

lemma console_do_typed:
  assumes "layer_typed (cs_console s)" "console_do ser x s = Value s'"
  shows "layer_typed (cs_console s')"
proof (cases x)
  case (CNewSpan thread i md parent fs at)
  then show ?thesis
    using assms by (cases "co_spans (cs_console s) i") (auto intro: on_new_span_typed [OF spans_typed(2)] in_console_typed)
next
  case (CCommand now)
  then show ?thesis using assms by (auto split: list.splits intro!: round_of_typed)
qed (use assms in \<open>auto simp: Let_def change_watch_def
      intro: in_console_typed register_callsite_typed handlers_typed spans_typed(1) round_of_typed\<close>)

lemma console_run_typed: "\<lbrakk>layer_typed (cs_console s); console_run ser xs s = Value s'\<rbrakk> \<Longrightarrow> layer_typed (cs_console s')"
  by (rule console_runs.run_keeps [where I = "\<lambda>s. layer_typed (cs_console s)", OF console_do_typed])



subsection \<open>What clients are not told\<close>

text \<open>A new client takes the counts of dropped events; the clients that watch already never see them.\<close>

lemma subscription_takes_dropped:
  assumes "add_instrument_subscription w now (c, a) = (c', a')"
  shows "sh_dropped_tasks (co_shared c') = 0 \<and> (\<exists>ws. ag_watchers a' = ag_watchers a @ ws)"
  using assms by (auto simp: add_instrument_subscription_def collect_update_def task_update_def resource_update_def
    async_op_update_def split_beta Let_def split: if_splits)

text \<open>A request for the details of a task is answered by no stream, so that the client hears that there is no such task.\<close>

lemma details_never_found: "watch_task_details_reply (fst (run_command (WatchTaskDetail i buffer) now s)) = Inl NotFound"
  by (simp add: run_command_def watch_task_details_reply_def)

text \<open>Nothing is ever forgotten: the maps of the aggregator only grow.\<close>

lemma update_state_grows: "fst ` set (ag_tasks a) \<subseteq> fst ` set (ag_tasks (update_state ev a))"
proof -
  have "fst ` set m \<subseteq> fst ` set (id_insert m i d)" for m :: "task_rec id_map" and i d
    unfolding id_insert_def by (induction m) auto
  then show ?thesis by (cases ev) auto
qed

text \<open>A waker of a task that has no span makes the layer panic.\<close>

lemma waker_without_span_panics:
  "known_callsite (cl_waker (co_layer c)) md = Value True \<Longrightarrow> on_event thread md (waker_event oper None) at c = Panic"
  by (simp add: on_event_def waker_event_without_span)

text \<open>The ninth call site that spawns tasks makes the layer panic.\<close>

lemma ninth_spawn_site_panics:
  assumes "callsites_ok (cl_spawn (co_layer c)) known" "length known = 8" "length (cs_array (cl_spawn (co_layer c))) = 8"
    and "md_target md = SPAWN_TARGET" "md_callsite md \<notin> set known"
  shows "register_callsite c md = Panic"
  using callsites_full [OF assms(1,5)] assms by (simp add: register_callsite_def layer_insert_def)

end
