(* ===== verification/Support.thy ===== *)
theory Support
  imports Users_Correct Executor
begin

text \<open>
  Small parts that other parts of the program use or were meant to: described errors
  (\<open>error.rs\<close>), the authorization handle (\<open>authorization/mod.rs\<close>), translated strings
  (\<open>utils/l10nstring.rs\<close>), optional values of the configuration (\<open>config/dhall.rs\<close>) and the frequency
  counter of the thread manager.
\<close>

subsection \<open>Described errors\<close>

text \<open>A description is what a type says of its errors; the source is the error that occurred.\<close>

record description =
  ds_description :: "string option"
  ds_code :: string
  ds_help :: "string option"
  ds_url :: "string option"

datatype 'io source_error = Io 'io

record 'io described_error =
  de_description :: "string option"
  de_code :: string
  de_severity :: "nat option"
  de_help :: "string option"
  de_url :: "string option"
  de_source :: "'io source_error"

text \<open>The derived diagnostic of a source has no severity.\<close>

definition source_severity :: "'io source_error \<Rightarrow> nat option" where
  "source_severity e = None"

definition described_error_new :: "description \<Rightarrow> 'io source_error \<Rightarrow> 'io described_error" where
  "described_error_new d source =
     \<lparr>de_description = ds_description d, de_code = ds_code d, de_severity = source_severity source, de_help = ds_help d,
      de_url = ds_url d, de_source = source\<rparr>"

definition wrap_error :: "description \<Rightarrow> 'io source_error \<Rightarrow> 'io described_error" where
  "wrap_error d e = described_error_new d e"

definition source_text :: "'io source_error \<Rightarrow> string" where
  "source_text e = (case e of Io _ \<Rightarrow> ''io error occured'')"

text \<open>An error is shown as its source; its description is its own or that of the source.\<close>

definition error_display :: "'io described_error \<Rightarrow> string" where
  "error_display self = source_text (de_source self)"

definition error_description :: "('io source_error \<Rightarrow> string) \<Rightarrow> 'io described_error \<Rightarrow> string" where
  "error_description source_description self =
     (case de_description self of Some desc \<Rightarrow> desc | None \<Rightarrow> source_description (de_source self))"

text \<open>The diagnostic of an error.\<close>

definition error_diagnostic :: "'io described_error \<Rightarrow> string option \<times> nat option \<times> string option \<times> string option \<times> 'io source_error" where
  "error_diagnostic self = (Some (de_code self), de_severity self, de_help self, de_url self, de_source self)"

lemma wrapped_diagnostic:
  "error_diagnostic (wrap_error d source) = (Some (ds_code d), None, ds_help d, ds_url d, source)"
  by (simp add: error_diagnostic_def wrap_error_def described_error_new_def source_severity_def)

subsection \<open>The authorization handle\<close>

definition get_user_roles :: "('e, 't, 'z) user_deps_scheme \<Rightarrow> 'e \<Rightarrow> string \<Rightarrow> string list option outcome" where
  "get_user_roles U env uid =
     bind_outcome (users_get_user U env uid) (\<lambda>user. Value (map_option (\<lambda>user. ud_roles (userdata user)) user))"

lemma get_user_roles_stored:
  assumes "lmdb_ok U stored seen" "get_user_roles U env uid = Value r"
  shows "r = map_option (\<lambda>user. ud_roles (userdata user)) (users_view U stored env uid)"
proof -
  obtain user where "users_get_user U env uid = Value user" "r = map_option (\<lambda>user. ud_roles (userdata user)) user"
    using assms(2) by (auto simp: get_user_roles_def bind_outcome_Value_iff)
  then show ?thesis using users_get_user_view [OF assms(1)] by simp
qed

subsection \<open>Translated strings\<close>

type_synonym locales = "string \<rightharpoonup> (string \<rightharpoonup> string)"

definition locales_get :: "locales \<Rightarrow> string \<Rightarrow> string \<Rightarrow> (string \<times> string) option" where
  "locales_get self lang msg = Option.bind (self msg) (\<lambda>m. map_option (\<lambda>v. (lang, v)) (m lang))"

definition locales_available :: "locales \<Rightarrow> string \<Rightarrow> string list" where
  "locales_available self msg = []"

definition LANG :: locales where "LANG = Map.empty"

text \<open>Nothing is translated: no language is listed for a message, whatever is translated.\<close>

lemma nothing_translated: "locales_get LANG lang msg = None"
  by (simp add: locales_get_def LANG_def)

lemma listed_nowhere: "locales_get self lang msg = Some (lang', v) \<Longrightarrow> lang' = lang \<and> lang' \<notin> set (locales_available self msg)"
  by (auto simp: locales_get_def locales_available_def split: bind_splits)

subsection \<open>Optional values\<close>

text \<open>A value that cannot be read is taken for a missing one.\<close>

definition deser_option :: "'err + 'v \<Rightarrow> 'err + 'v option" where
  "deser_option r = Inr (case r of Inl e \<Rightarrow> None | Inr v \<Rightarrow> Some v)"

lemma deser_option_never_fails: "\<exists>v. deser_option r = Inr v"
  by (simp add: deser_option_def)

subsection \<open>Task frequency\<close>

definition increment_frequency :: "u64 \<Rightarrow> u64" where
  "increment_frequency last_frequency = last_frequency + 1"

text \<open>The counter wraps around.\<close>

lemma frequency_counts: "unat ((increment_frequency ^^ n) 0) = n mod 2 ^ 64"
proof -
  have "(increment_frequency ^^ n) 0 = of_nat n" by (induction n) (simp_all add: increment_frequency_def)
  then show ?thesis by (simp add: unat_of_nat)
qed

end
