(* ===== verification/Spec2Isabelle.thy ===== *)
theory Spec2Isabelle
  imports Main_Correct Machine_API Card_Correct Initiators_Correct State_Values Server_Start Sdk Proc_Layout Lightproc_Awaiter Worker_Loop
    Placement Console_Clients Support
begin

text \<open>
  Verification of the FabAccess server \<open>bffhd\<close>.

  \<^bold>\<open>The program.\<close>  The server manages the machines of a workshop.  Users are kept in an LMDB
  database with password hashes, card keys and roles; roles grant permissions, directly or
  through parent roles; every machine names the permission it takes to see, read, use and
  manage it.  A client authenticates over Cap'n Proto with a SASL mechanism, gets the
  capabilities of a session, and changes the states of machines.  A state change is checked
  against the permissions of the user and the rules for moves between states, stored in the
  database, logged, and signalled to actors and clients.

  \<^bold>\<open>The theories\<close>, in the order in which they build on each other, with the sources they model:

  \<^item> \<open>Prelude\<close>: results and panics, indexing and slicing as Rust does them, UTF-8, splitting
    and joining strings, decimal numbers, runs of steps.
  \<^item> \<open>Varint\<close> (\<open>utils/varint.rs\<close>) and \<open>Oid\<close> (\<open>utils/oid.rs\<close>): variable length integers at five
    widths, object identifiers with their scanners, printer and parser.
  \<^item> \<open>Permissions\<close> and \<open>Roles\<close> (\<open>authorization\<close>): permission paths with their partial order,
    rules, role tables, the recursive permission check.
  \<^item> \<open>Db\<close> (\<open>db\<close>), \<open>Users\<close>, \<open>Codec\<close>, \<open>Users_Correct\<close> (\<open>users\<close>): the typed database over LMDB, the
    users, loading and dumping files of users.
  \<^item> \<open>Machine_State\<close>, \<open>Resources\<close>, \<open>Resources_Correct\<close>, \<open>Sample_Server\<close>, \<open>Machine_Rules\<close>
    (\<open>resources\<close>, \<open>session\<close>, \<open>audit.rs\<close>, parts of \<open>config\<close> and \<open>lib.rs\<close>): the states of machines, the
    operations that change them, sessions, the audit log.
  \<^item> \<open>User_API\<close>, \<open>User_API_Correct\<close>, \<open>Machine_API\<close> (\<open>capnp\<close>): the methods that clients call.
  \<^item> \<open>Authentication\<close> (\<open>authentication/mod.rs\<close>, \<open>capnp/authenticationsystem.rs\<close>), \<open>Card\<close>,
    \<open>Fabfire_Bin\<close>, \<open>Fabfire_Json\<close>, \<open>Card_Correct\<close> (\<open>authentication/fabfire_bin\<close>,
    \<open>authentication/fabfire\<close>): the SASL callbacks, the object of an exchange, the two card
    mechanisms as state machines.
  \<^item> \<open>Modules\<close>, \<open>Line_Buffer\<close>, \<open>Initiators\<close>, \<open>Initiators_Correct\<close>, \<open>Actors\<close> (\<open>initiators\<close>, \<open>actors\<close>,
    \<open>utils/linebuffer.rs\<close>): the modules that change machines from outside and those that act on
    their changes.
  \<^item> \<open>Connection\<close>, \<open>Server\<close>, \<open>State_Values\<close> (\<open>capnp/connection.rs\<close>, \<open>capnp/mod.rs\<close>, \<open>tls.rs\<close>, \<open>lib.rs\<close>,
    \<open>utils/uuid.rs\<close>, \<open>resources/state/value.rs\<close>): accepting connections, starting the server, the
    registry of state values.
  \<^item> \<open>Proc_State\<close>, \<open>Proc_Layout\<close>, \<open>Lightproc\<close>, \<open>Lightproc_Correct\<close>, \<open>Lightproc_Awaiter\<close>
    (\<open>runtime/lightproc/src\<close>): the light processes of the runtime on which all of this runs, with
    their state word, their memory, wakers and handles, and who waits for them.
  \<^item> \<open>Executor\<close>, \<open>Executor_Correct\<close>, \<open>Placement\<close>, \<open>Pool\<close>, \<open>Blocking\<close>, \<open>Worker_Loop\<close>
    (\<open>runtime/executor/src\<close>): the workers that run the processes, the load statistics, threads and
    their cores, supervision groups, the executor with all its queues, blocking on a future, the
    thread of a worker with the threads that schedule tasks for it.
  \<^item> \<open>Console\<close>, \<open>Id_Map\<close>, \<open>Console_Visitors\<close>, \<open>Console_Layer\<close>, \<open>Aggregate\<close>, \<open>Console_Correct\<close>,
    \<open>Console_Clients\<close> (\<open>runtime/console/src\<close>): what the console records of the processes, how it
    reads the fields of events, the handlers of the tracing layer, the aggregator that keeps the
    records and sends them to clients, and the requests of clients.
  \<^item> \<open>Command_Line\<close>, \<open>Main_Correct\<close>, \<open>Server_Start\<close>, \<open>Support\<close> (\<open>bin/bffhd/main.rs\<close>, \<open>config\<close>, \<open>logging.rs\<close>, \<open>lib.rs\<close>,
    \<open>error.rs\<close>, \<open>authorization/mod.rs\<close>, \<open>utils/l10nstring.rs\<close>): the program from its arguments to
    serving, what it spawns on the executor, and small parts.
  \<^item> \<open>Sdk\<close> (\<open>modules/sdk\<close>): the attribute macro for external modules.

  \<^bold>\<open>State and errors.\<close>  A \<open>world\<close> holds the database environment, the audit log, the signal of
  every resource and the clock.  An operation takes the world and returns an \<open>outcome\<close>: a
  value, or \<open>Panic\<close> where the code unwraps, indexes or asserts.  Errors that the code returns
  are values of sum types inside the outcome.

  \<^bold>\<open>Foreign code.\<close>  LMDB, rkyv, argon2, toml, hex, the DESFire driver, serde\_json, syn and rsasl
  are fields of records that the operations take as arguments (\<open>lmdb\<close>, \<open>user_deps\<close>, \<open>server\<close>,
  \<open>api\<close>, \<open>desfire_lib\<close>, \<open>json_lib\<close>, \<open>mechanism_data\<close>, \<open>host\<close>, \<open>runtime\<close>,
  \<open>syn_lib\<close>).  What a property needs of
  them is a named predicate (\<open>lmdb_ok\<close>, \<open>user_codec_ok\<close>, \<open>argon_ok\<close>, \<open>toml_ok\<close>, \<open>state_codec_ok\<close>,
  \<open>mechanism_data_ok\<close>), and \<open>mem_lmdb\<close>, \<open>mem_users\<close>, \<open>mem_server\<close>, \<open>cli_server\<close>, \<open>mem_api\<close> and \<open>toy_card\<close>
  are instances that satisfy it.

  \<^bold>\<open>Interfaces.\<close>  \<open>var_uint_instance\<close> is what a width owes to the conversion macros,
  \<open>rust_partial_ord\<close> what Rust asks of \<open>PartialOrd\<close>, \<open>typed_db\<close> what an adapter owes to the typed
  database, \<open>self_service\<close> what a rule for unprivileged moves owes, and \<open>card_mechanism\<close> what a
  card mechanism owes to the server, \<open>byte_queue\<close> what a buffer owes to a reader of lines, \<open>unsent\<close> what
  statistics with a dirty mark owe to the maps of the console.  \<open>stepwise\<close> is what a
  component owes that is run step by step.  Each is interpreted on the definitions of the model.

  \<^bold>\<open>Bounds.\<close>  The permission check recurses along parent roles without a bound; the stack depth
  is an argument, and the check returns for every finite table without cycles once the depth
  exceeds the number of roles (\<open>is_permitted_decides\<close>), and never for a cyclic one.  Loops over
  bytes and lists are structural.  Machine words keep their width.  The spin loop around the
  awaiter of a process gets two rounds, which it never exceeds (\<open>acquire_word\<close>).  The loop over the
  lines of a process initiator gets any number of rounds, since it may not end
  (\<open>process_initiator_lines\<close>); the loops over answers of foreign code go on as long as there are
  answers.

  \<^bold>\<open>What is shown.\<close>  Authorisation: a status update takes effect exactly when permissions and
  rules allow it, unprivileged users move only their own machines, replies carry exactly the
  capabilities a session may have.  Consistency: stored states, signals and the audit log
  agree in every reachable world, whatever clients call.  Users: the database refines a map,
  passwords are hashed and change only with the old one.  Authentication: an exchange logs in
  at most one user; with a password only the right one; with a card only one whose card has
  answered the challenge with the stored key; a genuine card gets through.  Data: identifiers,
  integers and rules survive their round trips.  Runtime: whatever executor, wakers and handle
  do, short of cancelling through the handle, a process is freed exactly when nothing refers to
  it any more, no wake-up is lost, and whoever waits for it is woken when it is done; its parts lie aligned and apart in memory; a worker runs
  every task once and never sleeps on a task that was scheduled for it; in the whole executor a process is queued or polled at most once and stays
  with its worker when it is local; blocking on a future returns.  Console: its state stays well
  formed, and after every tick its clients know what it has recorded.  Program: a server that
  serves has the machines, states and users of its configuration and databases, and users that
  were dumped are restored by loading.  Modules: an actor is applied to the states of its machine
  in order.  Deviations found on the way are stated as theorems too.

  \<^bold>\<open>Not modelled.\<close>  Sockets, TLS streams, setting up the log and the gRPC transport of the console
  are I/O or configuration of libraries; parsing arguments is left to \<open>clap\<close>; vtables, pointer
  metadata and the archived forms of data are memory layout; the average of the thread manager
  is floating point arithmetic that nothing calls; generated Cap'n Proto code is foreign.  An operation of a light process is
  one step: interleavings inside it are shown only for the lock of the awaiter, and interleavings
  of whole operations in \<open>Pool\<close>.
\<close>

end
